(* ===== verification/Palisade_Prelude.thy ===== *)
theory Palisade_Prelude
  imports Main "HOL-Library.Word" "HOL-Library.Code_Target_Numeral"
begin

text \<open>
  Shared vocabulary of the development: the machine-integer types of the Rust source, the
  saturating and wrapping arithmetic it calls, Rust's \<open>Result\<close> as a sum (\<open>Inl\<close> is
  \<open>Err\<close>), and a generic locale for state machines whose invariant is proved once.
\<close>

section \<open>Machine integers\<close>

type_synonym u16 = "16 word"
type_synonym u32 = "32 word"
type_synonym u64 = "64 word"
type_synonym usize = "64 word"

text \<open>The collections that the component proofs pass to the simplifier.\<close>

named_theorems rust_arith
named_theorems result_simps

definition u_max :: "'a::len word" where
  "u_max = - 1"

text \<open>Rust's \<open>saturating_add\<close> and \<open>saturating_sub\<close> on unsigned integers.\<close>

definition sat_add :: "'a::len word \<Rightarrow> 'a word \<Rightarrow> 'a word" where
  "sat_add a b = (if unat a + unat b < 2 ^ LENGTH('a) then a + b else u_max)"

definition sat_sub :: "'a::len word \<Rightarrow> 'a word \<Rightarrow> 'a word" where
  "sat_sub a b = (if b \<le> a then a - b else 0)"

text \<open>\<open>uN::try_from(n).unwrap_or(uN::MAX)\<close> on a wider unsigned value.\<close>

definition try_from_or_max :: "nat \<Rightarrow> 'a::len word" where
  "try_from_or_max n = (if n < 2 ^ LENGTH('a) then of_nat n else u_max)"

lemma unat_u_max: "unat (u_max :: 'a::len word) = 2 ^ LENGTH('a) - 1"
  by (simp add: u_max_def unsigned_minus_1_eq_mask mask_eq_exp_minus_1)

lemma unat_sat_add [rust_arith]:
  "unat (sat_add a b) = min (unat a + unat b) (2 ^ LENGTH('a) - 1)"
  for a b :: "'a::len word"
  by (auto simp: sat_add_def unat_u_max unat_word_ariths min_def)

lemma unat_sat_sub [rust_arith]: "unat (sat_sub a b) = unat a - unat b"
  by (auto simp: sat_sub_def unat_sub word_le_nat_alt)

lemma unat_try_from_or_max [rust_arith]:
  "unat (try_from_or_max n :: 'a::len word) = min n (2 ^ LENGTH('a) - 1)"
  by (auto simp: try_from_or_max_def unat_u_max unat_of_nat min_def)

text \<open>
  \<open>i64\<close> values are kept as \<open>int\<close> with the two's complement wrap of
  \<open>AtomicI64::fetch_add\<close> and the clamping of \<open>saturating_add\<close> written out.
\<close>

definition i64_min :: int where "i64_min = - (2 ^ 63)"
definition i64_max :: int where "i64_max = 2 ^ 63 - 1"

definition wrap_i64 :: "int \<Rightarrow> int" where
  "wrap_i64 x = (x + 2 ^ 63) mod 2 ^ 64 - 2 ^ 63"

definition sat_i64 :: "int \<Rightarrow> int" where
  "sat_i64 x = (if x < i64_min then i64_min else if i64_max < x then i64_max else x)"

definition in_i64 :: "int \<Rightarrow> bool" where
  "in_i64 x \<longleftrightarrow> i64_min \<le> x \<and> x \<le> i64_max"

lemma wrap_i64_id [rust_arith]: "in_i64 x \<Longrightarrow> wrap_i64 x = x"
  by (simp add: in_i64_def wrap_i64_def i64_min_def i64_max_def)

lemma in_i64_wrap [rust_arith]: "in_i64 (wrap_i64 x)"
  using pos_mod_bound [of "2 ^ 64 :: int" "x + 2 ^ 63"] pos_mod_sign [of "2 ^ 64 :: int" "x + 2 ^ 63"]
  by (simp add: in_i64_def wrap_i64_def i64_min_def i64_max_def)

lemma sat_i64_id [rust_arith]: "in_i64 x \<Longrightarrow> sat_i64 x = x"
  by (simp add: in_i64_def sat_i64_def)

lemma in_i64_sat [rust_arith]: "in_i64 (sat_i64 x)"
  by (simp add: in_i64_def sat_i64_def i64_min_def i64_max_def)

lemma wrap_i64_mod [rust_arith]: "wrap_i64 x mod 2 ^ 64 = x mod 2 ^ 64"
proof -
  have "wrap_i64 x mod 2 ^ 64 = ((x + 2 ^ 63) mod 2 ^ 64 - 2 ^ 63) mod 2 ^ 64"
    by (simp add: wrap_i64_def)
  also have "\<dots> = (x + 2 ^ 63 - 2 ^ 63) mod 2 ^ 64"
    by (simp only: mod_diff_left_eq)
  finally show ?thesis by simp
qed

lemma in_i64_between: "\<bar>x\<bar> < 2 ^ 63 \<Longrightarrow> in_i64 x"
  by (auto simp: in_i64_def i64_min_def i64_max_def)

lemma uint_u32_bound [rust_arith]: "uint (w :: u32) < 2 ^ 32"
  using uint_lt2p [of w] by simp

section \<open>Results\<close>

type_synonym ('e, 'a) result = "'e + 'a"

text \<open>The \<open>?\<close> operator: continue with the value or return the error.\<close>

definition and_then :: "('e, 'a) result \<Rightarrow> ('a \<Rightarrow> ('e, 'b) result) \<Rightarrow> ('e, 'b) result" where
  "and_then r f = (case r of Inl e \<Rightarrow> Inl e | Inr a \<Rightarrow> f a)"

definition map_err :: "('e \<Rightarrow> 'f) \<Rightarrow> ('e, 'a) result \<Rightarrow> ('f, 'a) result" where
  "map_err g r = (case r of Inl e \<Rightarrow> Inl (g e) | Inr a \<Rightarrow> Inr a)"

text \<open>\<open>Option::ok_or_else\<close> and \<open>if !c { return Err(e) }\<close>.\<close>

definition ok_or :: "'e \<Rightarrow> 'a option \<Rightarrow> ('e, 'a) result" where
  "ok_or e x = (case x of None \<Rightarrow> Inl e | Some a \<Rightarrow> Inr a)"

definition reject_if :: "bool \<Rightarrow> 'e \<Rightarrow> ('e, unit) result" where
  "reject_if c e = (if c then Inl e else Inr ())"

text \<open>\<open>iter().map(f).collect::<Result<Vec<_>>>()\<close>: stops at the first error.\<close>

fun collect_map :: "('a \<Rightarrow> ('e, 'b) result) \<Rightarrow> 'a list \<Rightarrow> ('e, 'b list) result" where
  "collect_map f [] = Inr []"
| "collect_map f (x # xs) =
     (case f x of Inl e \<Rightarrow> Inl e
      | Inr y \<Rightarrow> (case collect_map f xs of Inl e \<Rightarrow> Inl e | Inr ys \<Rightarrow> Inr (y # ys)))"

lemma and_then_simps [simp]:
  "and_then (Inl e) f = Inl e" "and_then (Inr a) f = f a"
  by (simp_all add: and_then_def)

text \<open>For evaluation: the continuation is looked at only once the value is there.\<close>

lemma and_then_weak_cong: "r = r' \<Longrightarrow> and_then r f = and_then r' f"
  by simp

lemma and_then_Inr_iff [result_simps]:
  "and_then r f = Inr b \<longleftrightarrow> (\<exists>a. r = Inr a \<and> f a = Inr b)"
  by (cases r) (simp_all)

lemma and_then_Inl_iff [result_simps]:
  "and_then r f = Inl e \<longleftrightarrow> r = Inl e \<or> (\<exists>a. r = Inr a \<and> f a = Inl e)"
  by (cases r) (simp_all)

lemma map_err_Inr_iff [simp]: "map_err g r = Inr a \<longleftrightarrow> r = Inr a"
  by (cases r) (simp_all add: map_err_def)

lemma map_err_Inl_iff [result_simps]: "map_err g r = Inl e \<longleftrightarrow> (\<exists>e'. r = Inl e' \<and> e = g e')"
  by (cases r) (auto simp: map_err_def)

lemma map_err_simps [simp]: "map_err g (Inl e) = Inl (g e)" "map_err g (Inr a) = Inr a"
  by (simp_all add: map_err_def)

lemma ok_or_Inr_iff [simp]: "ok_or e x = Inr a \<longleftrightarrow> x = Some a"
  by (cases x) (simp_all add: ok_or_def)

lemma ok_or_Inl_iff [result_simps]: "ok_or e x = Inl e' \<longleftrightarrow> x = None \<and> e' = e"
  by (cases x) (auto simp: ok_or_def)

lemma ok_or_simps [simp]: "ok_or e None = Inl e" "ok_or e (Some a) = Inr a"
  by (simp_all add: ok_or_def)

lemma reject_if_Inr_iff [simp]: "reject_if c e = Inr u \<longleftrightarrow> \<not> c"
  by (simp add: reject_if_def)

lemma reject_if_Inl_iff [simp]: "reject_if c e = Inl e' \<longleftrightarrow> c \<and> e' = e"
  by (auto simp: reject_if_def)

lemma reject_if_simps [simp]: "reject_if True e = Inl e" "reject_if False e = Inr ()"
  by (simp_all add: reject_if_def)

lemma collect_map_Inr_iff [result_simps]:
  "collect_map f xs = Inr ys \<longleftrightarrow> list_all2 (\<lambda>x y. f x = Inr y) xs ys"
proof (induction xs arbitrary: ys)
  case (Cons a xs)
  have "collect_map f (a # xs) = Inr ys \<longleftrightarrow>
      (\<exists>y zs. f a = Inr y \<and> collect_map f xs = Inr zs \<and> ys = y # zs)"
    by (auto split: sum.splits)
  then show ?case by (simp add: Cons.IH list_all2_Cons1) blast
qed auto

lemma collect_map_InlD:
  "collect_map f xs = Inl e \<Longrightarrow> \<exists>x\<in>set xs. f x = Inl e"
  by (induction xs) (auto split: sum.splits)

lemma collect_map_ex_Inr_iff:
  "(\<exists>ys. collect_map f xs = Inr ys) \<longleftrightarrow> (\<forall>x\<in>set xs. \<exists>y. f x = Inr y)"
proof (induction xs)
  case (Cons a xs)
  then show ?case by (cases "f a"; cases "collect_map f xs") auto
qed auto

section \<open>State machines\<close>

text \<open>The states a machine reaches from \<open>s\<close> by a sequence of labelled steps.\<close>

inductive steps :: "('s \<Rightarrow> 'e \<Rightarrow> 's \<Rightarrow> bool) \<Rightarrow> 's \<Rightarrow> 'e list \<Rightarrow> 's \<Rightarrow> bool"
  for R where
  steps_Nil [intro]: "steps R s [] s"
| steps_Cons [intro]: "R s e t \<Longrightarrow> steps R t es u \<Longrightarrow> steps R s (e # es) u"

inductive_simps steps_Nil_iff [simp]: "steps R s [] t"
inductive_simps steps_Cons_iff: "steps R s (e # es) u"

lemma steps_append: "steps R s es t \<Longrightarrow> steps R t fs u \<Longrightarrow> steps R s (es @ fs) u"
  by (induction rule: steps.induct) auto

lemma steps_append_iff:
  "steps R s (es @ fs) u \<longleftrightarrow> (\<exists>t. steps R s es t \<and> steps R t fs u)"
  by (induction es arbitrary: s) (auto simp: steps_Cons_iff)

text \<open>
  The contract of a machine that keeps an invariant, and what its clients get from it:
  the invariant holds after every run.
\<close>

locale invariant_machine =
  fixes start :: "'s \<Rightarrow> bool"
    and step :: "'s \<Rightarrow> 'e \<Rightarrow> 's \<Rightarrow> bool"
    and inv :: "'s \<Rightarrow> bool"
  assumes start_inv: "start s \<Longrightarrow> inv s"
    and step_inv: "step s e t \<Longrightarrow> inv s \<Longrightarrow> inv t"
begin

lemma steps_inv: "steps step s es t \<Longrightarrow> inv s \<Longrightarrow> inv t"
  by (induction rule: steps.induct) (auto intro: step_inv)

lemma run_inv: "start s \<Longrightarrow> steps step s es t \<Longrightarrow> inv t"
  using steps_inv start_inv by blast

end

text \<open>
  A detailed machine that simulates a coarser one: each of its steps is a sequence of steps of
  the other, named by \<open>img\<close>. Runs are matched by runs, and every invariant of the coarse
  machine is one of the detailed machine.
\<close>

locale simulation =
  fixes abs :: "'c \<Rightarrow> 's"
    and img :: "'c \<Rightarrow> 'f \<Rightarrow> 'e list"
    and detailed :: "'c \<Rightarrow> 'f \<Rightarrow> 'c \<Rightarrow> bool"
    and step :: "'s \<Rightarrow> 'e \<Rightarrow> 's \<Rightarrow> bool"
  assumes step_sim: "detailed c f d \<Longrightarrow> steps step (abs c) (img c f) (abs d)"
begin

lemma run_sim: "steps detailed c fs d \<Longrightarrow> \<exists>es. steps step (abs c) es (abs d)"
proof (induction rule: steps.induct)
  case (steps_Cons c f d fs c')
  then obtain es where "steps step (abs d) es (abs c')" by blast
  from steps_append [OF step_sim [OF steps_Cons(1)] this] show ?case ..
qed auto

end

locale simulated_machine =
  simulation abs img detailed step + invariant_machine start step inv
  for abs :: "'c \<Rightarrow> 's" and img :: "'c \<Rightarrow> 'f \<Rightarrow> 'e list" and detailed step start inv

sublocale simulated_machine < concrete: invariant_machine
  "\<lambda>c. start (abs c)" detailed "\<lambda>c. inv (abs c)"
proof (unfold_locales, goal_cases)
  case (1 c)
  then show ?case by (rule start_inv)
next
  case (2 c f d)
  from step_sim [OF 2(1)] 2(2) show ?case by (rule steps_inv)
qed

text \<open>A machine given by a step function, as a step relation.\<close>

definition fun_step :: "('s \<Rightarrow> 'e \<Rightarrow> 's) \<Rightarrow> 's \<Rightarrow> 'e \<Rightarrow> 's \<Rightarrow> bool" where
  "fun_step f s e t \<longleftrightarrow> t = f s e"

lemma steps_fun_step: "steps (fun_step f) s es t \<longleftrightarrow> t = foldl f s es"
  by (induction es arbitrary: s) (auto simp: steps_Cons_iff fun_step_def)

section \<open>Lists\<close>

lemma sum_list_update:
  fixes xs :: "int list"
  shows "i < length xs \<Longrightarrow> sum_list (xs[i := v]) = sum_list xs - xs ! i + v"
  by (induction xs arbitrary: i) (auto split: nat.splits)

lemma length_filter_update:
  "i < length xs \<Longrightarrow> length (filter P (xs[i := v])) + (if P (xs ! i) then 1 else 0)
     = length (filter P xs) + (if P v then 1 else 0)"
proof (induction xs arbitrary: i)
  case (Cons x xs)
  show ?case
  proof (cases i)
    case (Suc j)
    then show ?thesis using Cons.IH [of j] Cons.prems by simp
  qed simp
qed simp

lemma sum_list_map_upt: "(\<Sum>i<length xs. xs ! i) = sum_list (xs :: int list)"
  by (simp add: sum_list_sum_nth lessThan_atLeast0)

end
