(* ===== verification/Rust_Std.thy ===== *)
theory Rust_Std
  imports Palisade_Prelude
begin

text \<open>
  The parts of Rust's standard library the proxy calls: byte-string operations on \<open>&str\<close>
  (a \<open>string\<close> here is the UTF-8 byte sequence), decimal printing and parsing,
  \<open>String::from_utf8_lossy\<close>, \<open>Duration\<close> and \<open>Instant\<close> in nanoseconds, and the
  \<open>std::error::Error\<close> chain.
\<close>

section \<open>Characters and strings\<close>

definition code :: "char \<Rightarrow> nat" where
  "code c = of_char c"

definition is_ascii_digit :: "char \<Rightarrow> bool" where
  "is_ascii_digit c \<longleftrightarrow> 48 \<le> code c \<and> code c \<le> 57"

definition is_ascii_graphic :: "char \<Rightarrow> bool" where
  "is_ascii_graphic c \<longleftrightarrow> 33 \<le> code c \<and> code c \<le> 126"

definition to_lower :: "char \<Rightarrow> char" where
  "to_lower c = (if 65 \<le> code c \<and> code c \<le> 90 then char_of (code c + 32) else c)"

definition to_ascii_lowercase :: "string \<Rightarrow> string" where
  "to_ascii_lowercase s = map to_lower s"

definition eq_ignore_ascii_case :: "string \<Rightarrow> string \<Rightarrow> bool" where
  "eq_ignore_ascii_case a b \<longleftrightarrow> to_ascii_lowercase a = to_ascii_lowercase b"

text \<open>
  \<open>str::trim\<close>. Every string the proxy trims comes from \<open>HeaderValue::to_str\<close>, which
  yields visible ASCII and tabs only, so the white space that can occur is ASCII.
\<close>

definition is_ascii_space :: "char \<Rightarrow> bool" where
  "is_ascii_space c \<longleftrightarrow> code c = 32 \<or> (9 \<le> code c \<and> code c \<le> 13)"

definition trim :: "string \<Rightarrow> string" where
  "trim s = rev (dropWhile is_ascii_space (rev (dropWhile is_ascii_space s)))"

text \<open>\<open>str::split(c)\<close>: always at least one piece.\<close>

fun split_char :: "char \<Rightarrow> string \<Rightarrow> string list" where
  "split_char d [] = [[]]"
| "split_char d (c # s) =
     (if c = d then [] # split_char d s
      else (case split_char d s of [] \<Rightarrow> [[c]] | p # ps \<Rightarrow> (c # p) # ps))"

fun starts_with :: "string \<Rightarrow> string \<Rightarrow> bool" where
  "starts_with s [] = True"
| "starts_with [] (p # ps) = False"
| "starts_with (c # s) (p # ps) = (c = p \<and> starts_with s ps)"

fun str_contains :: "string \<Rightarrow> string \<Rightarrow> bool" where
  "str_contains [] p = (p = [])"
| "str_contains (c # s) p = (starts_with (c # s) p \<or> str_contains s p)"

section \<open>Decimal numbers\<close>

definition digit_char :: "nat \<Rightarrow> char" where
  "digit_char d = char_of (48 + d)"

text \<open>\<open>to_string\<close> of an unsigned integer.\<close>

fun show_nat :: "nat \<Rightarrow> string" where
  "show_nat n = (if n < 10 then [digit_char n] else show_nat (n div 10) @ [digit_char (n mod 10)])"

declare show_nat.simps [simp del]

definition to_digit :: "char \<Rightarrow> nat option" where
  "to_digit c = (if is_ascii_digit c then Some (code c - 48) else None)"

fun digits_value :: "nat \<Rightarrow> string \<Rightarrow> nat option" where
  "digits_value acc [] = Some acc"
| "digits_value acc (c # s) =
     (case to_digit c of None \<Rightarrow> None | Some d \<Rightarrow> digits_value (10 * acc + d) s)"

text \<open>
  \<open>str::parse::<u64>()\<close>: an optional plus sign, at least one digit, only digits, and no
  overflow. The proxy discards the kind of the error.
\<close>

definition strip_plus :: "string \<Rightarrow> string" where
  "strip_plus s = (case s of [] \<Rightarrow> [] | c # cs \<Rightarrow> if c = CHR ''+'' then cs else s)"

definition parse_u64 :: "string \<Rightarrow> u64 option" where
  "parse_u64 s =
     (if strip_plus s = [] then None
      else case digits_value 0 (strip_plus s) of
             None \<Rightarrow> None
           | Some n \<Rightarrow> if n < 2 ^ 64 then Some (of_nat n) else None)"

lemma code_digit_char: "d < 10 \<Longrightarrow> code (digit_char d) = 48 + d"
  by (simp add: code_def digit_char_def)

lemma to_digit_digit_char [simp]: "d < 10 \<Longrightarrow> to_digit (digit_char d) = Some d"
  by (simp add: to_digit_def is_ascii_digit_def code_digit_char)

lemma digits_value_append:
  "digits_value acc (s @ t) =
     (case digits_value acc s of None \<Rightarrow> None | Some v \<Rightarrow> digits_value v t)"
  by (induction s arbitrary: acc) (auto split: option.splits)

lemma digits_value_show_nat: "digits_value 0 (show_nat n) = Some n"
proof (induction n rule: show_nat.induct)
  case (1 n)
  then show ?case
    by (cases "n < 10") (auto simp: show_nat.simps [of n] digits_value_append)
qed

lemma show_nat_nonempty [simp]: "show_nat n \<noteq> []"
  by (subst show_nat.simps) simp

lemma show_nat_digits: "c \<in> set (show_nat n) \<Longrightarrow> is_ascii_digit c"
proof (induction n rule: show_nat.induct)
  case (1 n)
  then show ?case
    by (cases "n < 10") (auto simp: show_nat.simps [of n] is_ascii_digit_def code_digit_char)
qed

lemma plus_not_digit: "\<not> is_ascii_digit (CHR ''+'')"
  by (simp add: is_ascii_digit_def code_def)

lemma strip_plus_show_nat [simp]: "strip_plus (show_nat n) = show_nat n"
proof (cases "show_nat n")
  case (Cons c cs)
  then have "is_ascii_digit c" using show_nat_digits [of c n] by simp
  with Cons plus_not_digit show ?thesis by (auto simp: strip_plus_def)
qed (simp add: strip_plus_def)

lemma parse_u64_show_nat:
  "parse_u64 (show_nat n) = (if n < 2 ^ 64 then Some (of_nat n) else None)"
  by (simp add: parse_u64_def digits_value_show_nat)

lemma parse_u64_show_unat [simp]: "parse_u64 (show_nat (unat (w :: u64))) = Some w"
proof -
  have "unat w < 2 ^ 64" using unsigned_less [of w] by simp
  then show ?thesis by (simp add: parse_u64_show_nat)
qed

lemma digit_graphic: "is_ascii_digit c \<Longrightarrow> is_ascii_graphic c"
  by (simp add: is_ascii_digit_def is_ascii_graphic_def)

section \<open>UTF-8\<close>

text \<open>
  \<open>String::from_utf8_lossy\<close>: every maximal ill-formed subsequence becomes one U+FFFD
  (bytes EF BF BD); well-formed sequences are kept. \<open>utf8_need\<close> gives the ranges of the
  continuation bytes a lead byte asks for.
\<close>

definition utf8_need :: "nat \<Rightarrow> (nat \<times> nat) list option" where
  "utf8_need b =
     (if b < 128 then Some []
      else if 194 \<le> b \<and> b \<le> 223 then Some [(128, 191)]
      else if b = 224 then Some [(160, 191), (128, 191)]
      else if b = 237 then Some [(128, 159), (128, 191)]
      else if 225 \<le> b \<and> b \<le> 239 then Some [(128, 191), (128, 191)]
      else if b = 240 then Some [(144, 191), (128, 191), (128, 191)]
      else if 241 \<le> b \<and> b \<le> 243 then Some [(128, 191), (128, 191), (128, 191)]
      else if b = 244 then Some [(128, 143), (128, 191), (128, 191)]
      else None)"

fun utf8_tail :: "(nat \<times> nat) list \<Rightarrow> string \<Rightarrow> nat \<Rightarrow> bool \<times> nat" where
  "utf8_tail [] bs k = (True, k)"
| "utf8_tail (r # rs) [] k = (False, k)"
| "utf8_tail (r # rs) (x # bs) k =
     (if fst r \<le> code x \<and> code x \<le> snd r then utf8_tail rs bs (Suc k) else (False, k))"

definition utf8_step :: "char \<Rightarrow> string \<Rightarrow> bool \<times> nat" where
  "utf8_step b bs =
     (case utf8_need (code b) of None \<Rightarrow> (False, 0) | Some rs \<Rightarrow> utf8_tail rs bs 0)"

definition utf8_replacement :: string where
  "utf8_replacement = [char_of (239::nat), char_of (191::nat), char_of (189::nat)]"

fun from_utf8_lossy :: "string \<Rightarrow> string" where
  "from_utf8_lossy [] = []"
| "from_utf8_lossy (b # bs) =
     (if fst (utf8_step b bs) then b # take (snd (utf8_step b bs)) bs else utf8_replacement)
     @ from_utf8_lossy (drop (snd (utf8_step b bs)) bs)"

definition is_ascii :: "string \<Rightarrow> bool" where
  "is_ascii s \<longleftrightarrow> (\<forall>c\<in>set s. code c < 128)"

lemma from_utf8_lossy_ascii: "is_ascii s \<Longrightarrow> from_utf8_lossy s = s"
  by (induction s) (simp_all add: is_ascii_def utf8_step_def utf8_need_def)

section \<open>Time\<close>

text \<open>Durations and instants are in nanoseconds.\<close>

type_synonym duration = nat
type_synonym instant = nat

definition from_secs :: "u64 \<Rightarrow> duration" where
  "from_secs s = unat s * 10 ^ 9"

definition as_secs :: "duration \<Rightarrow> nat" where
  "as_secs d = d div 10 ^ 9"

definition as_millis :: "duration \<Rightarrow> nat" where
  "as_millis d = d div 10 ^ 6"

text \<open>\<open>Instant::elapsed\<close> saturates at zero.\<close>

definition elapsed :: "instant \<Rightarrow> instant \<Rightarrow> duration" where
  "elapsed now since = now - since"

text \<open>\<open>impl Debug for Duration\<close>: the largest unit with a non-zero whole part, and the
  fraction without trailing zeros.\<close>

definition pad_zeros :: "nat \<Rightarrow> string \<Rightarrow> string" where
  "pad_zeros w s = replicate (w - length s) (CHR ''0'') @ s"

definition fmt_decimal :: "nat \<Rightarrow> nat \<Rightarrow> nat \<Rightarrow> string \<Rightarrow> string" where
  "fmt_decimal whole frac width suffix =
     show_nat whole
     @ (if frac = 0 then []
        else CHR ''.'' # rev (dropWhile (\<lambda>c. c = CHR ''0'') (rev (pad_zeros width (show_nat frac)))))
     @ suffix"

definition duration_debug :: "duration \<Rightarrow> string" where
  "duration_debug d =
     (if 10 ^ 9 \<le> d then fmt_decimal (d div 10 ^ 9) (d mod 10 ^ 9) 9 ''s''
      else if 10 ^ 6 \<le> d then fmt_decimal (d div 10 ^ 6) (d mod 10 ^ 6) 6 ''ms''
      else if 10 ^ 3 \<le> d
        then fmt_decimal (d div 10 ^ 3) (d mod 10 ^ 3) 3 [char_of (194::nat), char_of (181::nat), CHR ''s'']
      else fmt_decimal d 0 1 ''ns'')"

lemma as_secs_from_secs [simp]: "as_secs (from_secs s) = unat s"
  by (simp add: as_secs_def from_secs_def)

lemma as_millis_from_secs [simp]: "as_millis (from_secs s) = unat s * 1000"
  by (simp add: as_millis_def from_secs_def)

lemma from_secs_pos [simp]: "0 < from_secs s \<longleftrightarrow> s \<noteq> 0"
  by (simp add: from_secs_def unat_gt_0)

lemma duration_debug_secs: "s \<noteq> 0 \<Longrightarrow> duration_debug (from_secs s) = show_nat (unat s) @ ''s''"
proof -
  assume "s \<noteq> 0"
  then have "1 \<le> unat s" by (simp add: Suc_le_eq unat_gt_0)
  then show ?thesis by (simp add: duration_debug_def from_secs_def fmt_decimal_def)
qed

section \<open>Errors\<close>

text \<open>
  What the proxy sees of a \<open>dyn std::error::Error\<close>: how it displays, whether it is the
  \<open>LengthLimitError\<close> of http-body-util, and its \<open>source()\<close>.
\<close>

datatype dyn_error = DynError (err_display: string) (err_is_length_limit: bool)
  (err_source: "dyn_error option")

end
