(* ===== verification/Rust_Net.thy ===== *)
theory Rust_Net
  imports Rust_Std
begin

text \<open>
  \<open>std::net\<close>: IP and socket addresses, the parser behind \<open>str::parse::<SocketAddr>()\<close>
  (read functions return the value and the unread rest, or None with nothing consumed) and
  the \<open>Display\<close> of addresses.
\<close>

datatype ip_addr =
    V4 "8 word" "8 word" "8 word" "8 word"
  | V6 "u16 list"

datatype socket_addr =
    SocketV4 (sock_ip: ip_addr) (sock_port: u16)
  | SocketV6 (sock_ip: ip_addr) (sock_port: u16) (sock_scope: u32)

section \<open>Parsing\<close>

definition radix_digit :: "nat \<Rightarrow> char \<Rightarrow> nat option" where
  "radix_digit radix c =
     (let d = (if is_ascii_digit c then Some (code c - 48)
               else if 97 \<le> code c \<and> code c \<le> 122 then Some (code c - 87)
               else if 65 \<le> code c \<and> code c \<le> 90 then Some (code c - 55)
               else None)
      in case d of None \<Rightarrow> None | Some n \<Rightarrow> if n < radix then Some n else None)"

fun read_digits :: "nat \<Rightarrow> string \<Rightarrow> nat list \<times> string" where
  "read_digits radix [] = ([], [])"
| "read_digits radix (c # s) =
     (case radix_digit radix c of
        None \<Rightarrow> ([], c # s)
      | Some d \<Rightarrow> (d # fst (read_digits radix s), snd (read_digits radix s)))"

text \<open>
  \<open>read_number\<close>: \<open>limit\<close> is the largest value of the target type, \<open>max_digits\<close> bounds
  the number of digits, and a leading zero may be forbidden.
\<close>

definition read_number ::
  "nat \<Rightarrow> nat option \<Rightarrow> bool \<Rightarrow> nat \<Rightarrow> string \<Rightarrow> (nat \<times> string) option" where
  "read_number radix max_digits allow_zero_prefix limit s =
     (let (ds, rest) = read_digits radix s; v = foldl (\<lambda>a d. radix * a + d) 0 ds
      in if ds = [] then None
         else if (case max_digits of None \<Rightarrow> False | Some m \<Rightarrow> m < length ds) then None
         else if \<not> allow_zero_prefix \<and> hd ds = 0 \<and> 1 < length ds then None
         else if limit < v then None
         else Some (v, rest))"

definition read_given_char :: "char \<Rightarrow> string \<Rightarrow> string option" where
  "read_given_char c s = (case s of [] \<Rightarrow> None | x # xs \<Rightarrow> if x = c then Some xs else None)"

text \<open>\<open>read_separator(sep, index, inner)\<close>: the separator precedes every item but the first.\<close>

definition read_sep :: "char \<Rightarrow> nat \<Rightarrow> string \<Rightarrow> string option" where
  "read_sep c i s = (if i = 0 then Some s else read_given_char c s)"

definition read_octet :: "nat \<Rightarrow> string \<Rightarrow> (nat \<times> string) option" where
  "read_octet i s = Option.bind (read_sep (CHR ''.'') i s) (read_number 10 (Some 3) False 255)"

definition read_ipv4 :: "string \<Rightarrow> ((nat \<times> nat \<times> nat \<times> nat) \<times> string) option" where
  "read_ipv4 s =
     Option.bind (read_octet 0 s) (\<lambda>(a, s1).
     Option.bind (read_octet 1 s1) (\<lambda>(b, s2).
     Option.bind (read_octet 2 s2) (\<lambda>(c, s3).
     Option.bind (read_octet 3 s3) (\<lambda>(d, s4). Some ((a, b, c, d), s4)))))"

text \<open>
  \<open>read_groups\<close>: up to \<open>limit\<close> groups, \<open>i\<close> of them read; a trailing embedded IPv4
  address counts for two and ends the list. Returns the groups, whether it ended in an IPv4
  part, and the rest.
\<close>

function read_groups :: "nat \<Rightarrow> nat \<Rightarrow> string \<Rightarrow> nat list \<times> bool \<times> string" where
  "read_groups limit i s =
     (if limit \<le> i then ([], False, s)
      else case (if i + 1 < limit then Option.bind (read_sep (CHR '':'') i s) read_ipv4 else None) of
        Some ((a, b, c, d), rest) \<Rightarrow> ([256 * a + b, 256 * c + d], True, rest)
      | None \<Rightarrow>
          (case Option.bind (read_sep (CHR '':'') i s) (read_number 16 (Some 4) True 65535) of
             None \<Rightarrow> ([], False, s)
           | Some (g, rest) \<Rightarrow>
               (let r = read_groups limit (Suc i) rest in (g # fst r, snd r))))"
  by pat_completeness auto
termination
  by (relation "measure (\<lambda>(limit, i, s). limit - i)") auto

declare read_groups.simps [simp del]

definition read_ipv6 :: "string \<Rightarrow> (nat list \<times> string) option" where
  "read_ipv6 s =
     (let (hd_groups, hd_v4, s1) = read_groups 8 0 s
      in if length hd_groups = 8 then Some (hd_groups, s1)
         else if hd_v4 then None
         else Option.bind (read_given_char (CHR '':'') s1) (\<lambda>s2.
              Option.bind (read_given_char (CHR '':'') s2) (\<lambda>s3.
                let limit = 8 - (length hd_groups + 1);
                    (tl_groups, _, s4) = read_groups limit 0 s3
                in Some (hd_groups @ replicate (8 - length hd_groups - length tl_groups) 0
                         @ tl_groups, s4))))"

definition read_port :: "string \<Rightarrow> (nat \<times> string) option" where
  "read_port s = Option.bind (read_given_char (CHR '':'') s) (read_number 10 None True 65535)"

definition read_scope_id :: "string \<Rightarrow> nat \<times> string" where
  "read_scope_id s =
     (case Option.bind (read_given_char (CHR ''%'') s) (read_number 10 None True 4294967295) of
        None \<Rightarrow> (0, s) | Some r \<Rightarrow> r)"

definition read_socket_v4 :: "string \<Rightarrow> (socket_addr \<times> string) option" where
  "read_socket_v4 s =
     Option.bind (read_ipv4 s) (\<lambda>((a, b, c, d), s1).
     Option.bind (read_port s1) (\<lambda>(p, s2).
       Some (SocketV4 (V4 (of_nat a) (of_nat b) (of_nat c) (of_nat d)) (of_nat p), s2)))"

definition read_socket_v6 :: "string \<Rightarrow> (socket_addr \<times> string) option" where
  "read_socket_v6 s =
     Option.bind (read_given_char (CHR ''['') s) (\<lambda>s1.
     Option.bind (read_ipv6 s1) (\<lambda>(gs, s2).
     let (sc, s3) = read_scope_id s2 in
     Option.bind (read_given_char (CHR '']'') s3) (\<lambda>s4.
     Option.bind (read_port s4) (\<lambda>(p, s5).
       Some (SocketV6 (V6 (map of_nat gs)) (of_nat p) (of_nat sc), s5)))))"

definition addr_parse_error :: string where
  "addr_parse_error = ''invalid socket address syntax''"

definition parse_socket_addr :: "string \<Rightarrow> string + socket_addr" where
  "parse_socket_addr s =
     (case (case read_socket_v4 s of Some r \<Rightarrow> Some r | None \<Rightarrow> read_socket_v6 s) of
        Some (a, []) \<Rightarrow> Inr a
      | _ \<Rightarrow> Inl addr_parse_error)"

section \<open>Display\<close>

definition show_hex_digit :: "nat \<Rightarrow> char" where
  "show_hex_digit d = char_of (if d < 10 then 48 + d else 87 + d)"

fun show_hex :: "nat \<Rightarrow> string" where
  "show_hex n = (if n < 16 then [show_hex_digit n] else show_hex (n div 16) @ [show_hex_digit (n mod 16)])"

declare show_hex.simps [simp del]

definition show_ipv4 :: "nat \<Rightarrow> nat \<Rightarrow> nat \<Rightarrow> nat \<Rightarrow> string" where
  "show_ipv4 a b c d = show_nat a @ ''.'' @ show_nat b @ ''.'' @ show_nat c @ ''.'' @ show_nat d"

fun join :: "string \<Rightarrow> string list \<Rightarrow> string" where
  "join sep [] = []"
| "join sep [x] = x"
| "join sep (x # xs) = x @ sep @ join sep xs"

text \<open>The first longest run of zero groups, as start and length, as \<open>Ipv6Addr::fmt\<close> finds it.\<close>

fun zero_run :: "nat list \<Rightarrow> nat \<Rightarrow> nat \<times> nat \<Rightarrow> nat \<times> nat \<Rightarrow> nat \<times> nat" where
  "zero_run [] i cur best = best"
| "zero_run (g # gs) i cur best =
     (if g = 0
      then (let cur' = (if snd cur = 0 then i else fst cur, Suc (snd cur))
            in zero_run gs (Suc i) cur' (if snd best < snd cur' then cur' else best))
      else zero_run gs (Suc i) (0, 0) best)"

definition show_ipv6 :: "nat list \<Rightarrow> string" where
  "show_ipv6 gs =
     (if take 6 gs = [0, 0, 0, 0, 0, 65535]
      then ''::ffff:'' @ show_ipv4 (gs ! 6 div 256) (gs ! 6 mod 256) (gs ! 7 div 256) (gs ! 7 mod 256)
      else let (st, len) = zero_run gs 0 (0, 0) (0, 0)
           in if 1 < len
              then join '':'' (map show_hex (take st gs)) @ ''::''
                   @ join '':'' (map show_hex (drop (st + len) gs))
              else join '':'' (map show_hex gs))"

definition show_ip :: "ip_addr \<Rightarrow> string" where
  "show_ip ip =
     (case ip of
        V4 a b c d \<Rightarrow> show_ipv4 (unat a) (unat b) (unat c) (unat d)
      | V6 gs \<Rightarrow> show_ipv6 (map unat gs))"

text \<open>Every printed address is visible ASCII, so it always makes a header value.\<close>

lemma show_nat_visible: "c \<in> set (show_nat n) \<Longrightarrow> is_ascii_graphic c"
  by (simp add: show_nat_digits digit_graphic)

lemma show_hex_visible: "c \<in> set (show_hex n) \<Longrightarrow> is_ascii_graphic c"
proof (induction n rule: show_hex.induct)
  case (1 n)
  have "is_ascii_graphic (show_hex_digit d)" if "d < 16" for d
    using that by (auto simp: show_hex_digit_def is_ascii_graphic_def code_def)
  with "1" show ?case
    by (cases "n < 16") (auto simp: show_hex.simps [of n])
qed

lemma set_join: "c \<in> set (join sep xs) \<Longrightarrow> c \<in> set sep \<or> (\<exists>x\<in>set xs. c \<in> set x)"
  by (induction sep xs rule: join.induct) auto

lemma dot_colon_visible: "is_ascii_graphic (CHR ''.'')" "is_ascii_graphic (CHR '':'')"
    "is_ascii_graphic (CHR ''f'')"
  by (simp_all add: is_ascii_graphic_def code_def)

lemma show_ip_visible: "c \<in> set (show_ip ip) \<Longrightarrow> is_ascii_graphic c"
  by (cases ip)
    (auto simp: show_ip_def show_ipv4_def show_ipv6_def Let_def dot_colon_visible
      split: if_splits prod.splits dest!: set_join dest: show_nat_visible show_hex_visible)

end
