(* ===== verification/Config_Types.thy ===== *)
theory Config_Types
  imports Rust_Net
begin

text \<open>
  The configuration schema of \<open>config.rs\<close>: the defaults, the structs as deserialized from
  the TOML file, and the validated runtime structs. Field names are the source's with a
  prefix per struct. A validated header name is its canonical string; \<open>'uri\<close> and
  \<open>'rx\<close> are the \<open>Uri\<close> and \<open>Regex\<close> types of the crates.
\<close>

section \<open>Defaults\<close>

definition DEFAULT_MAX_BODY_SIZE :: u64 where "DEFAULT_MAX_BODY_SIZE = 10 * 1024 * 1024"
definition DEFAULT_MASK_MAX_BODY_SIZE :: u64 where "DEFAULT_MASK_MAX_BODY_SIZE = 1024 * 1024"
definition DEFAULT_CONNECT_TIMEOUT :: duration where "DEFAULT_CONNECT_TIMEOUT = from_secs 5"
definition DEFAULT_REQUEST_TIMEOUT :: duration where "DEFAULT_REQUEST_TIMEOUT = from_secs 30"
definition DEFAULT_POOL_IDLE_TIMEOUT :: duration where "DEFAULT_POOL_IDLE_TIMEOUT = from_secs 60"
definition DEFAULT_POOL_MAX_IDLE_PER_HOST :: usize where "DEFAULT_POOL_MAX_IDLE_PER_HOST = 32"
definition DEFAULT_MAX_CONCURRENT_REQUESTS :: usize where "DEFAULT_MAX_CONCURRENT_REQUESTS = 1000"
definition DEFAULT_MAX_CONNECTIONS :: usize where "DEFAULT_MAX_CONNECTIONS = 10000"
definition DEFAULT_HEADER_READ_TIMEOUT :: duration where "DEFAULT_HEADER_READ_TIMEOUT = from_secs 10"
definition DEFAULT_UPSTREAM_WEIGHT :: u32 where "DEFAULT_UPSTREAM_WEIGHT = 1"
definition DEFAULT_LISTEN_ADDR :: string where "DEFAULT_LISTEN_ADDR = ''127.0.0.1:8100''"
definition DEFAULT_FAILURE_THRESHOLD :: u32 where "DEFAULT_FAILURE_THRESHOLD = 3"
definition DEFAULT_HEALTHY_THRESHOLD :: u32 where "DEFAULT_HEALTHY_THRESHOLD = 1"
definition DEFAULT_HEALTH_CHECK_COOLDOWN :: duration where "DEFAULT_HEALTH_CHECK_COOLDOWN = from_secs 30"
definition DEFAULT_HEALTH_CHECK_INTERVAL :: duration where "DEFAULT_HEALTH_CHECK_INTERVAL = from_secs 10"
definition DEFAULT_HEALTH_CHECK_PATH :: string where "DEFAULT_HEALTH_CHECK_PATH = ''/health''"
definition DEFAULT_HEALTH_CHECK_TIMEOUT :: duration where "DEFAULT_HEALTH_CHECK_TIMEOUT = from_secs 3"
definition DEFAULT_RATE_LIMIT_RPS :: u32 where "DEFAULT_RATE_LIMIT_RPS = 100"
definition DEFAULT_RATE_LIMIT_BURST :: u32 where "DEFAULT_RATE_LIMIT_BURST = 50"
definition DEFAULT_SHUTDOWN_TIMEOUT :: duration where "DEFAULT_SHUTDOWN_TIMEOUT = from_secs 30"

section \<open>The TOML schema\<close>

record timeouts_config =
  to_connect :: u64
  to_request :: u64

definition default_connect_timeout_secs :: u64 where
  "default_connect_timeout_secs = of_nat (as_secs DEFAULT_CONNECT_TIMEOUT)"

definition default_request_timeout_secs :: u64 where
  "default_request_timeout_secs = of_nat (as_secs DEFAULT_REQUEST_TIMEOUT)"

definition default_timeouts_config :: timeouts_config where
  "default_timeouts_config =
     \<lparr>to_connect = default_connect_timeout_secs, to_request = default_request_timeout_secs\<rparr>"

record pool_config =
  po_idle_timeout :: u64
  po_max_idle_per_host :: usize

definition default_pool_idle_timeout_secs :: u64 where
  "default_pool_idle_timeout_secs = of_nat (as_secs DEFAULT_POOL_IDLE_TIMEOUT)"

definition default_pool_max_idle_per_host :: usize where
  "default_pool_max_idle_per_host = DEFAULT_POOL_MAX_IDLE_PER_HOST"

definition default_pool_config :: pool_config where
  "default_pool_config =
     \<lparr>po_idle_timeout = default_pool_idle_timeout_secs,
      po_max_idle_per_host = default_pool_max_idle_per_host\<rparr>"

record upstream_config =
  uc_address :: string
  uc_weight :: u32

definition default_weight :: u32 where
  "default_weight = DEFAULT_UPSTREAM_WEIGHT"

record health_check_config =
  hc_path :: string
  hc_interval :: u64
  hc_unhealthy_threshold :: u32
  hc_healthy_threshold :: u32
  hc_cooldown :: u64
  hc_timeout :: u64

definition default_health_path :: string where
  "default_health_path = DEFAULT_HEALTH_CHECK_PATH"

definition default_health_interval_secs :: u64 where
  "default_health_interval_secs = of_nat (as_secs DEFAULT_HEALTH_CHECK_INTERVAL)"

definition default_failure_threshold :: u32 where
  "default_failure_threshold = DEFAULT_FAILURE_THRESHOLD"

definition default_healthy_threshold :: u32 where
  "default_healthy_threshold = DEFAULT_HEALTHY_THRESHOLD"

definition default_cooldown_secs :: u64 where
  "default_cooldown_secs = of_nat (as_secs DEFAULT_HEALTH_CHECK_COOLDOWN)"

definition default_health_timeout_secs :: u64 where
  "default_health_timeout_secs = of_nat (as_secs DEFAULT_HEALTH_CHECK_TIMEOUT)"

definition default_health_check_config :: health_check_config where
  "default_health_check_config =
     \<lparr>hc_path = default_health_path,
      hc_interval = default_health_interval_secs,
      hc_unhealthy_threshold = default_failure_threshold,
      hc_healthy_threshold = default_healthy_threshold,
      hc_cooldown = default_cooldown_secs,
      hc_timeout = default_health_timeout_secs\<rparr>"

record rate_limit_config =
  rl_requests_per_second :: u32
  rl_burst :: u32

definition default_rate_limit_rps :: u32 where
  "default_rate_limit_rps = DEFAULT_RATE_LIMIT_RPS"

definition default_rate_limit_burst :: u32 where
  "default_rate_limit_burst = DEFAULT_RATE_LIMIT_BURST"

definition default_rate_limit_config :: rate_limit_config where
  "default_rate_limit_config =
     \<lparr>rl_requests_per_second = default_rate_limit_rps, rl_burst = default_rate_limit_burst\<rparr>"

record tls_config =
  tls_cert_path :: string
  tls_key_path :: string

record admin_config =
  ad_listen :: string

record config =
  cfg_listen :: "string option"
  cfg_upstreams :: "upstream_config list"
  cfg_blocked_headers :: "string list"
  cfg_blocked_params :: "string list"
  cfg_masked_params :: "string list"
  cfg_max_body_size :: "u64 option"
  cfg_mask_max_body_size :: "u64 option"
  cfg_strip_response_headers :: "string list"
  cfg_trust_forwarded_headers :: bool
  cfg_max_concurrent_requests :: "usize option"
  cfg_max_connections :: "usize option"
  cfg_header_read_timeout :: "u64 option"
  cfg_timeouts :: timeouts_config
  cfg_pool :: pool_config
  cfg_tls :: "tls_config option"
  cfg_health_check :: "health_check_config option"
  cfg_rate_limit :: "rate_limit_config option"
  cfg_admin :: "admin_config option"
  cfg_shutdown_timeout :: "u64 option"

text \<open>\<open>#[derive(Default)] for Config\<close>, also what an absent key deserializes to.\<close>

definition default_config :: config where
  "default_config =
     \<lparr>cfg_listen = None, cfg_upstreams = [], cfg_blocked_headers = [], cfg_blocked_params = [],
      cfg_masked_params = [], cfg_max_body_size = None, cfg_mask_max_body_size = None,
      cfg_strip_response_headers = [], cfg_trust_forwarded_headers = False,
      cfg_max_concurrent_requests = None, cfg_max_connections = None,
      cfg_header_read_timeout = None, cfg_timeouts = default_timeouts_config,
      cfg_pool = default_pool_config, cfg_tls = None, cfg_health_check = None,
      cfg_rate_limit = None, cfg_admin = None, cfg_shutdown_timeout = None\<rparr>"

section \<open>The validated configuration\<close>

record 'uri validated_upstream =
  vu_uri :: 'uri
  vu_weight :: u32

record 'rx mask_rule =
  mr_param :: string
  mr_pattern :: 'rx

record ('uri, 'rx) runtime_config =
  rt_listen :: socket_addr
  rt_upstreams :: "'uri validated_upstream list"
  rt_blocked_headers :: "string list"
  rt_blocked_params :: "string list"
  rt_mask_rules :: "'rx mask_rule list"
  rt_max_body_size :: u64
  rt_mask_max_body_size :: u64
  rt_strip_response_headers :: "string list"
  rt_trust_forwarded_headers :: bool
  rt_connect_timeout :: duration
  rt_request_timeout :: duration
  rt_pool_idle_timeout :: duration
  rt_pool_max_idle_per_host :: usize
  rt_max_concurrent_requests :: usize
  rt_max_connections :: usize
  rt_header_read_timeout :: duration
  rt_tls :: "tls_config option"
  rt_health_check :: "health_check_config option"
  rt_failure_threshold :: u32
  rt_healthy_threshold :: u32
  rt_health_check_cooldown :: duration
  rt_rate_limit :: "rate_limit_config option"
  rt_admin_listen :: "socket_addr option"
  rt_shutdown_timeout :: duration

end
