(* ===== verification/Upstream.thy ===== *)
theory Upstream
  imports Config_Types
begin

text \<open>
  Per-backend health state (\<open>upstream.rs\<close>). \<open>inner_state\<close> is the struct behind the
  \<open>Arc\<close>, with the value of each atomic as a field of its width; every method is a function
  on it, and the methods that read the clock take the instant they read. Atomic counters
  wrap (\<open>fetch_add\<close>), the local copies saturate. The theory proves the health automaton
  correct against an abstract specification.
\<close>

section \<open>State and operations\<close>

record 'uri inner_state =
  us_uri :: 'uri
  us_weight :: u32
  us_consecutive_failures :: u32
  us_consecutive_successes :: u32
  us_healthy :: bool
  us_created :: instant
  us_cooldown_ms :: u64
  us_cooldown_until_ms :: u64

definition upstream_new :: "'uri validated_upstream \<Rightarrow> duration \<Rightarrow> instant \<Rightarrow> 'uri inner_state" where
  "upstream_new backend cooldown now =
     \<lparr>us_uri = vu_uri backend,
      us_weight = vu_weight backend,
      us_consecutive_failures = 0,
      us_consecutive_successes = 0,
      us_healthy = True,
      us_created = now,
      us_cooldown_ms = try_from_or_max (as_millis cooldown),
      us_cooldown_until_ms = 0\<rparr>"

text \<open>\<open>clk i\<close> is the instant at which the \<open>i\<close>-th backend is created.\<close>

definition from_validated ::
  "'uri validated_upstream list \<Rightarrow> duration \<Rightarrow> (nat \<Rightarrow> instant) \<Rightarrow> 'uri inner_state list" where
  "from_validated upstreams cooldown clk =
     map (\<lambda>(i, u). upstream_new u cooldown (clk i)) (enumerate 0 upstreams)"

definition is_healthy :: "'uri inner_state \<Rightarrow> bool" where
  "is_healthy s = us_healthy s"

definition now_ms :: "'uri inner_state \<Rightarrow> instant \<Rightarrow> u64" where
  "now_ms s now = try_from_or_max (as_millis (elapsed now (us_created s)))"

definition trial_ready :: "'uri inner_state \<Rightarrow> instant \<Rightarrow> bool" where
  "trial_ready s now \<longleftrightarrow> \<not> is_healthy s \<and> us_cooldown_until_ms s \<le> now_ms s now"

definition is_eligible :: "'uri inner_state \<Rightarrow> instant \<Rightarrow> bool" where
  "is_eligible s now \<longleftrightarrow> is_healthy s \<or> trial_ready s now"

definition arm_cooldown :: "'uri inner_state \<Rightarrow> instant \<Rightarrow> 'uri inner_state" where
  "arm_cooldown s now = s\<lparr>us_cooldown_until_ms := sat_add (now_ms s now) (us_cooldown_ms s)\<rparr>"

definition record_success :: "'uri inner_state \<Rightarrow> u32 \<Rightarrow> bool \<times> 'uri inner_state" where
  "record_success s healthy_threshold =
     (let s1 = s\<lparr>us_consecutive_failures := 0\<rparr> in
      if is_healthy s1 then (False, s1\<lparr>us_consecutive_successes := 0\<rparr>)
      else
        let prev = us_consecutive_successes s1;
            s2 = s1\<lparr>us_consecutive_successes := prev + 1\<rparr>;
            new_count = sat_add prev 1
        in if healthy_threshold \<le> new_count
           then (True, s2\<lparr>us_consecutive_successes := 0, us_cooldown_until_ms := 0,
                         us_healthy := True\<rparr>)
           else (False, s2))"

definition record_failure :: "'uri inner_state \<Rightarrow> u32 \<Rightarrow> instant \<Rightarrow> bool \<times> 'uri inner_state" where
  "record_failure s threshold now =
     (let s1 = s\<lparr>us_consecutive_successes := 0\<rparr>;
          prev = us_consecutive_failures s1;
          s2 = s1\<lparr>us_consecutive_failures := prev + 1\<rparr>;
          new_count = sat_add prev 1
      in if threshold \<le> new_count
         then (let was = us_healthy s2; s3 = s2\<lparr>us_healthy := False\<rparr>
               in if was then (True, arm_cooldown s3 now) else (False, s3))
         else (False, s2))"

definition mark_healthy :: "'uri inner_state \<Rightarrow> 'uri inner_state" where
  "mark_healthy s =
     s\<lparr>us_consecutive_failures := 0, us_consecutive_successes := 0,
       us_cooldown_until_ms := 0, us_healthy := True\<rparr>"

definition mark_unhealthy :: "'uri inner_state \<Rightarrow> instant \<Rightarrow> 'uri inner_state" where
  "mark_unhealthy s now =
     arm_cooldown (s\<lparr>us_consecutive_successes := 0, us_healthy := False\<rparr>) now"

lemmas upstream_defs = is_healthy_def trial_ready_def is_eligible_def arm_cooldown_def
  record_success_def record_failure_def mark_healthy_def mark_unhealthy_def Let_def

section \<open>Frame and clock facts\<close>

text \<open>No operation changes the identity of a backend.\<close>

definition same_backend :: "'uri inner_state \<Rightarrow> 'uri inner_state \<Rightarrow> bool" where
  "same_backend s t \<longleftrightarrow> us_uri t = us_uri s \<and> us_weight t = us_weight s
     \<and> us_created t = us_created s \<and> us_cooldown_ms t = us_cooldown_ms s"

lemma now_ms_update [simp]:
  "now_ms (s\<lparr>us_consecutive_failures := a\<rparr>) = now_ms s"
  "now_ms (s\<lparr>us_consecutive_successes := a\<rparr>) = now_ms s"
  "now_ms (s\<lparr>us_healthy := b\<rparr>) = now_ms s"
  "now_ms (s\<lparr>us_cooldown_until_ms := c\<rparr>) = now_ms s"
  by (simp_all add: now_ms_def fun_eq_iff)

lemma now_ms_same: "same_backend s t \<Longrightarrow> now_ms t = now_ms s"
  by (simp add: now_ms_def fun_eq_iff same_backend_def)

lemma unat_now_ms: "unat (now_ms s now) = min ((now - us_created s) div 10 ^ 6) (2 ^ 64 - 1)"
  by (simp add: now_ms_def unat_try_from_or_max as_millis_def elapsed_def)

lemma now_ms_mono: "t \<le> t' \<Longrightarrow> now_ms s t \<le> now_ms s t'"
  unfolding word_le_nat_alt unat_now_ms by (intro min.mono div_le_mono diff_le_mono order_refl)

lemma same_backend_refl [simp]: "same_backend s s"
  by (simp add: same_backend_def)

lemma same_backend_trans: "same_backend s t \<Longrightarrow> same_backend t u \<Longrightarrow> same_backend s u"
  by (simp add: same_backend_def)

lemma same_backend_ops [simp]:
  "same_backend s (arm_cooldown s now)"
  "same_backend s (snd (record_success s h))"
  "same_backend s (snd (record_failure s f now))"
  "same_backend s (mark_healthy s)"
  "same_backend s (mark_unhealthy s now)"
  by (auto simp: same_backend_def upstream_defs)

lemma weight_ops [simp]:
  "us_weight (arm_cooldown s now) = us_weight s"
  "us_weight (snd (record_success s h)) = us_weight s"
  "us_weight (snd (record_failure s f now)) = us_weight s"
  by (auto simp: upstream_defs)

section \<open>The health automaton and its specification\<close>

text \<open>
  The operations on one backend as events: a recorded success or failure (from a proxied
  request or an active probe), the balancer arming the cooldown, and the two explicit marks.
\<close>

datatype health_event =
    EvSuccess
  | EvFailure instant
  | EvArm instant
  | EvMarkHealthy
  | EvMarkUnhealthy instant

fun health_step :: "u32 \<Rightarrow> u32 \<Rightarrow> 'uri inner_state \<Rightarrow> health_event \<Rightarrow> 'uri inner_state" where
  "health_step ft ht s EvSuccess = snd (record_success s ht)"
| "health_step ft ht s (EvFailure t) = snd (record_failure s ft t)"
| "health_step ft ht s (EvArm t) = arm_cooldown s t"
| "health_step ft ht s EvMarkHealthy = mark_healthy s"
| "health_step ft ht s (EvMarkUnhealthy t) = mark_unhealthy s t"

text \<open>A healthy backend is below the failure threshold and counts no successes; an ejected
  one is below the recovery threshold.\<close>

definition health_inv :: "u32 \<Rightarrow> u32 \<Rightarrow> 'uri inner_state \<Rightarrow> bool" where
  "health_inv ft ht s \<longleftrightarrow>
     (us_healthy s \<longrightarrow> us_consecutive_failures s < ft \<and> us_consecutive_successes s = 0)
     \<and> (\<not> us_healthy s \<longrightarrow> us_consecutive_successes s < ht)"

text \<open>
  The specification: \<open>Up k\<close> after \<open>k\<close> consecutive failures, \<open>Down k u\<close> after ejection
  with \<open>k\<close> consecutive successes and no trial before \<open>u\<close> (milliseconds). \<open>dl t\<close> is the
  end of a cooldown that starts at \<open>t\<close>.
\<close>

datatype health = Up nat | Down nat nat

fun spec_step :: "nat \<Rightarrow> nat \<Rightarrow> (instant \<Rightarrow> nat) \<Rightarrow> health \<Rightarrow> health_event \<Rightarrow> health" where
  "spec_step ft ht dl (Up k) EvSuccess = Up 0"
| "spec_step ft ht dl (Down k u) EvSuccess = (if ht \<le> Suc k then Up 0 else Down (Suc k) u)"
| "spec_step ft ht dl (Up k) (EvFailure t) = (if ft \<le> Suc k then Down 0 (dl t) else Up (Suc k))"
| "spec_step ft ht dl (Down k u) (EvFailure t) = Down 0 u"
| "spec_step ft ht dl (Up k) (EvArm t) = Up k"
| "spec_step ft ht dl (Down k u) (EvArm t) = Down k (dl t)"
| "spec_step ft ht dl h EvMarkHealthy = Up 0"
| "spec_step ft ht dl h (EvMarkUnhealthy t) = Down 0 (dl t)"

definition abs_health :: "'uri inner_state \<Rightarrow> health" where
  "abs_health s =
     (if us_healthy s then Up (unat (us_consecutive_failures s))
      else Down (unat (us_consecutive_successes s)) (unat (us_cooldown_until_ms s)))"

definition deadline :: "'uri inner_state \<Rightarrow> instant \<Rightarrow> nat" where
  "deadline s t = min (unat (now_ms s t) + unat (us_cooldown_ms s)) (2 ^ 64 - 1)"

lemma unat_arm_until: "unat (us_cooldown_until_ms (arm_cooldown s t)) = deadline s t"
  by (simp add: arm_cooldown_def deadline_def unat_sat_add)

lemma sat_add_1: "x < y \<Longrightarrow> sat_add x 1 = x + 1 \<and> unat (x + 1) = Suc (unat x)" for x y :: u32
proof -
  assume "x < y"
  then have "unat x < unat y" and "unat y < 2 ^ 32"
    using unsigned_less [of y] by (simp_all add: word_less_nat_alt)
  then have "unat x + 1 < 2 ^ 32" by simp
  then show ?thesis by (simp add: sat_add_def unat_word_ariths)
qed

lemma le_sat_add_1: "x < y \<Longrightarrow> z \<le> sat_add x 1 \<longleftrightarrow> unat z \<le> Suc (unat x)" for x y z :: u32
  using sat_add_1 [of x y] by (simp add: word_le_nat_alt)

lemma health_step_same [simp]: "same_backend s (health_step ft ht s e)"
  by (cases e) simp_all

lemma deadline_same: "same_backend s t \<Longrightarrow> deadline t = deadline s"
  using now_ms_same [of s t] by (simp add: deadline_def fun_eq_iff same_backend_def)

lemma sat_add_1_below: "x < y \<Longrightarrow> \<not> y \<le> sat_add x 1 \<Longrightarrow> x + 1 < y" for x y :: u32
  using sat_add_1 [of x y] by simp

lemma health_step_inv:
  assumes "ft \<noteq> 0" "ht \<noteq> 0" "health_inv ft ht s"
  shows "health_inv ft ht (health_step ft ht s e)"
proof -
  have pos: "0 < ft" "0 < ht" using assms by (simp_all add: word_neq_0_conv)
  show ?thesis
  proof (cases e)
    case EvSuccess
    with assms(3) pos show ?thesis
      by (simp add: health_inv_def record_success_def is_healthy_def Let_def sat_add_1_below)
  next
    case (EvFailure t)
    with assms(3) pos show ?thesis
      by (simp add: health_inv_def record_failure_def arm_cooldown_def Let_def sat_add_1_below)
  qed (use assms(3) pos in \<open>simp_all add: health_inv_def arm_cooldown_def mark_healthy_def
      mark_unhealthy_def\<close>)
qed

lemma health_step_refines:
  assumes "health_inv ft ht s"
  shows "abs_health (health_step ft ht s e)
       = spec_step (unat ft) (unat ht) (deadline s) (abs_health s) e"
proof (cases e)
  case EvSuccess
  then show ?thesis
    using assms sat_add_1 [of "us_consecutive_successes s" ht]
      le_sat_add_1 [of "us_consecutive_successes s" ht ht]
    by (auto simp: abs_health_def record_success_def is_healthy_def Let_def health_inv_def)
next
  case (EvFailure t)
  have arm: "unat (us_cooldown_until_ms (arm_cooldown (s\<lparr>us_consecutive_successes := a,
      us_consecutive_failures := b, us_healthy := c\<rparr>) t)) = deadline s t" for a b c
    by (simp add: unat_arm_until) (rule deadline_same [THEN fun_cong], simp add: same_backend_def)
  show ?thesis
    using assms EvFailure sat_add_1 [of "us_consecutive_failures s" ft]
      le_sat_add_1 [of "us_consecutive_failures s" ft ft] arm
    by (auto simp: abs_health_def record_failure_def Let_def health_inv_def arm_cooldown_def)
next
  case (EvMarkUnhealthy t)
  have "deadline (s\<lparr>us_consecutive_successes := 0, us_healthy := False\<rparr>) t = deadline s t"
    by (rule deadline_same [THEN fun_cong]) (simp add: same_backend_def)
  with EvMarkUnhealthy show ?thesis
    by (cases "abs_health s") (simp_all add: abs_health_def mark_unhealthy_def unat_arm_until,
      simp_all add: arm_cooldown_def)
next
  case EvMarkHealthy
  then show ?thesis by (cases "abs_health s") (simp_all add: abs_health_def mark_healthy_def)
next
  case (EvArm t)
  then show ?thesis
    using unat_arm_until [of s t] by (auto simp: abs_health_def arm_cooldown_def)
qed

text \<open>The automaton keeps its invariant from a fresh backend on, for any positive thresholds.\<close>

definition fresh_upstream :: "'uri inner_state \<Rightarrow> bool" where
  "fresh_upstream s \<longleftrightarrow> (\<exists>u cd now. s = upstream_new u cd now)"

interpretation health_machine: invariant_machine fresh_upstream "fun_step (health_step ft ht)"
    "\<lambda>s. ft \<noteq> 0 \<longrightarrow> ht \<noteq> 0 \<longrightarrow> health_inv ft ht s" for ft ht
proof (unfold_locales, goal_cases)
  case (1 s)
  then show ?case
    by (auto simp: fresh_upstream_def upstream_new_def health_inv_def word_neq_0_conv)
next
  case (2 s e t)
  then show ?case by (auto simp: fun_step_def intro: health_step_inv)
qed

lemma abs_health_foldl:
  assumes "ft \<noteq> 0" "ht \<noteq> 0" "health_inv ft ht s"
  shows "abs_health (foldl (health_step ft ht) s es)
       = foldl (spec_step (unat ft) (unat ht) (deadline s)) (abs_health s) es"
  using assms(3)
proof (induction es arbitrary: s)
  case (Cons e es)
  have "deadline (health_step ft ht s e) = deadline s"
    by (rule deadline_same) simp
  with Cons show ?case
    using assms(1,2) health_step_inv [of ft ht s e] by (simp add: health_step_refines)
qed simp

text \<open>
  C7. Under any sequence of recorded successes and failures, armings and marks, with any
  positive thresholds, the counters and flags of a backend implement the abstract automaton
  exactly: the wrapping of the 32-bit counters and the saturation of the clock never show.
\<close>

theorem upstream_refines_automaton:
  assumes "ft \<noteq> 0" and "ht \<noteq> 0"
  shows "abs_health (foldl (health_step ft ht) (upstream_new u cd now) es)
       = foldl (spec_step (unat ft) (unat ht) (deadline (upstream_new u cd now))) (Up 0) es"
proof -
  have "fresh_upstream (upstream_new u cd now)" by (auto simp: fresh_upstream_def)
  with assms have "health_inv ft ht (upstream_new u cd now)"
    using health_machine.start_inv by blast
  with assms show ?thesis
    by (simp add: abs_health_foldl) (simp add: abs_health_def upstream_new_def)
qed

text \<open>A concrete backend: three failures eject it, a fourth changes nothing, two successes
  promote it.\<close>

definition demo_backend :: "string inner_state" where
  "demo_backend = upstream_new \<lparr>vu_uri = ''http://b1:3000'', vu_weight = 2\<rparr> (from_secs 30) 0"

theorem upstream_refines_automaton_witness:
  "abs_health (foldl (health_step 3 2) demo_backend
      [EvFailure 1000000, EvFailure 2000000, EvFailure 3000000, EvFailure 4000000, EvSuccess]) =
    Down 1 30003
   \<and> abs_health (foldl (health_step 3 2) demo_backend
      [EvFailure 1000000, EvFailure 2000000, EvFailure 3000000, EvSuccess, EvSuccess]) = Up 0"
  unfolding demo_backend_def
  by (subst (1 2) upstream_refines_automaton) (simp, simp, code_simp)

subsection \<open>Thresholds\<close>

lemma spec_failures:
  "k < ft \<Longrightarrow>
   (case foldl (spec_step ft ht dl) (Up k) (map EvFailure ts) of Up _ \<Rightarrow> True | Down _ _ \<Rightarrow> False)
     \<longleftrightarrow> k + length ts < ft"
proof (induction ts arbitrary: k)
  case (Cons t ts)
  have "(case foldl (spec_step ft ht dl) (Down 0 d) (map EvFailure ts) of
      Up _ \<Rightarrow> True | Down _ _ \<Rightarrow> False) = False" for d
    by (induction ts) simp_all
  with Cons show ?case by auto
qed simp

lemma spec_successes:
  "k < ht \<Longrightarrow>
   (case foldl (spec_step ft ht dl) (Down k d) (replicate n EvSuccess) of
      Up _ \<Rightarrow> True | Down _ _ \<Rightarrow> False)
     \<longleftrightarrow> ht \<le> k + n"
proof (induction n arbitrary: k)
  case (Suc n)
  have "foldl (spec_step ft ht dl) (Up 0) (replicate n EvSuccess) = Up 0"
    by (induction n) simp_all
  with Suc show ?case by auto
qed simp

lemma is_healthy_abs: "is_healthy s = (case abs_health s of Up _ \<Rightarrow> True | Down _ _ \<Rightarrow> False)"
  by (simp add: is_healthy_def abs_health_def)

text \<open>
  A backend is ejected exactly when the number of consecutive failures reaches the
  threshold: after a success or a fresh start (failure counter zero), \<open>n\<close> failures leave
  it healthy if and only if \<open>n\<close> is below the threshold, for every \<open>n\<close>.
\<close>

lemma ejected_exactly_at_threshold:
  assumes "ft \<noteq> 0" and "is_healthy s"
    and "us_consecutive_failures s = 0" and "us_consecutive_successes s = 0"
  shows "is_healthy (foldl (\<lambda>s t. snd (record_failure s ft t)) s ts) \<longleftrightarrow> length ts < unat ft"
proof -
  have run: "foldl (\<lambda>s t. snd (record_failure s ft t)) s ts = foldl (health_step ft 1) s (map EvFailure ts)"
    by (simp add: foldl_map)
  have inv: "health_inv ft 1 s"
    using assms by (simp add: health_inv_def is_healthy_def word_neq_0_conv)
  have "abs_health s = Up 0" using assms by (simp add: abs_health_def is_healthy_def)
  with inv assms(1) show ?thesis
    by (simp add: run is_healthy_abs abs_health_foldl spec_failures unat_gt_0)
qed

text \<open>
  An ejected backend is promoted exactly when the number of consecutive successes
  reaches the recovery threshold.
\<close>

theorem promoted_exactly_at_threshold:
  assumes "ht \<noteq> 0" and "\<not> is_healthy s" and "us_consecutive_successes s = 0"
  shows "is_healthy (((\<lambda>s. snd (record_success s ht)) ^^ n) s) \<longleftrightarrow> unat ht \<le> n"
proof -
  have run: "((\<lambda>s. snd (record_success s ht)) ^^ n) s = foldl (health_step 1 ht) s (replicate n EvSuccess)"
    by (induction n arbitrary: s) (simp_all add: funpow_Suc_right del: funpow.simps(2))
  have inv: "health_inv 1 ht s"
    using assms by (simp add: health_inv_def is_healthy_def word_neq_0_conv)
  have "abs_health s = Down 0 (unat (us_cooldown_until_ms s))"
    using assms by (simp add: abs_health_def is_healthy_def)
  with inv assms(1) show ?thesis
    by (simp add: run is_healthy_abs abs_health_foldl spec_successes unat_gt_0)
qed

text \<open>
  The flag each recording method returns is exactly "this call changed the health
  state", and a promotion leaves exactly the state that \<open>mark_healthy\<close> would: both counters
  zero and no cooldown.
\<close>

theorem transition_flags:
  "(fst (record_failure s ft t) \<longleftrightarrow> is_healthy s \<and> \<not> is_healthy (snd (record_failure s ft t)))
   \<and> (fst (record_success s ht) \<longleftrightarrow> \<not> is_healthy s \<and> is_healthy (snd (record_success s ht)))
   \<and> (fst (record_success s ht) \<longleftrightarrow> \<not> is_healthy s \<and> snd (record_success s ht) = mark_healthy s)"
  by (auto simp: upstream_defs dest: arg_cong [where f = us_healthy])

section \<open>The half-open gate\<close>

text \<open>
  What the balancer relies on of a backend: eligibility, and an arming operation that closes
  the gate for a window. A client that routes a trial only to an eligible backend and arms
  it as it does so spaces the trials by the window.
\<close>

fun trial_run :: "('s \<Rightarrow> instant \<Rightarrow> bool) \<Rightarrow> ('s \<Rightarrow> instant \<Rightarrow> 's) \<Rightarrow> 's \<Rightarrow> instant list \<Rightarrow> bool" where
  "trial_run elig arm s [] = True"
| "trial_run elig arm s (t # ts) = (elig s t \<and> trial_run elig arm (arm s t) ts)"

locale trial_gate =
  fixes elig :: "'s \<Rightarrow> instant \<Rightarrow> bool"
    and hl :: "'s \<Rightarrow> bool"
    and arm :: "'s \<Rightarrow> instant \<Rightarrow> 's"
    and clock :: "'s \<Rightarrow> instant \<Rightarrow> nat"
    and window :: "'s \<Rightarrow> nat"
    and top :: nat
  assumes hl_elig: "hl s \<Longrightarrow> elig s t"
    and arm_hl: "hl (arm s t) = hl s"
    and arm_clock: "clock (arm s t) = clock s"
    and arm_window: "window (arm s t) = window s"
    and arm_elig: "\<not> hl s \<Longrightarrow> elig (arm s t) t' \<longleftrightarrow> min (clock s t + window s) top \<le> clock s t'"
begin

lemma trial_spaced:
  assumes "\<not> hl s" "trial_run elig arm s (t # t' # ts)"
  shows "min (clock s t + window s) top \<le> clock s t'"
  using assms by (simp add: arm_elig)

lemma trial_times:
  assumes "\<not> hl s" "trial_run elig arm s (t # ts)" "i < length ts"
  shows "min (clock s t + Suc i * window s) top \<le> clock s (ts ! i)"
  using assms
proof (induction ts arbitrary: s t i)
  case (Cons t' ts)
  have step: "min (clock s t + window s) top \<le> clock s t'"
    using Cons.prems by (simp add: arm_elig)
  show ?case
  proof (cases i)
    case 0
    with step show ?thesis by simp
  next
    case (Suc j)
    have "min (clock s t' + Suc j * window s) top \<le> clock s (ts ! j)"
      using Cons.IH [of "arm s t" t' j] Cons.prems Suc
      by (simp add: arm_hl arm_clock arm_window)
    with step Suc show ?thesis by auto
  qed
qed simp

end

interpretation half_open: trial_gate is_eligible is_healthy arm_cooldown
  "\<lambda>s t. unat (now_ms s t)" "\<lambda>s. unat (us_cooldown_ms s)" "2 ^ 64 - 1"
proof (unfold_locales, goal_cases)
  case (5 s t t')
  then have "is_eligible (arm_cooldown s t) t' \<longleftrightarrow> deadline s t \<le> unat (now_ms s t')"
    using unat_arm_until [of s t]
    by (simp add: is_eligible_def trial_ready_def is_healthy_def arm_cooldown_def word_le_nat_alt)
  then show ?case by (simp add: deadline_def)
qed (auto simp: is_eligible_def arm_cooldown_def is_healthy_def fun_eq_iff)



end
