(* ===== verification/Http_Api.thy ===== *)
theory Http_Api
  imports Rust_Std
begin

text \<open>
  The crates the proxy is written against (\<open>http\<close>/\<open>hyper\<close>, \<open>regex\<close>) are parameters of
  the model: a record of the operations the source calls, taken as an argument by the
  definitions that use them. What the proofs rely on of their documented behaviour is a
  locale per crate interface. Each locale is interpreted on an executable reference
  instance, which is also what the concrete examples of the development run on.
\<close>

section \<open>Header maps, names and values (crate http)\<close>

text \<open>
  A header name is its canonical lower-case string (\<open>HeaderName::as_str\<close>); \<open>hm_get\<close>
  returns the first value of a name, \<open>hm_insert\<close> replaces all values, \<open>hm_remove\<close>
  deletes them. \<open>rb_headers\<close> is the header map a \<open>Response::builder()\<close> with the given
  \<open>header\<close> calls ends with, or None when the builder holds an error.
\<close>

record ('hm, 'hv) header_api =
  hm_get :: "'hm \<Rightarrow> string \<Rightarrow> 'hv option"
  hm_contains_key :: "'hm \<Rightarrow> string \<Rightarrow> bool"
  hm_insert :: "'hm \<Rightarrow> string \<Rightarrow> 'hv \<Rightarrow> 'hm"
  hm_remove :: "'hm \<Rightarrow> string \<Rightarrow> 'hm"
  hv_to_str :: "'hv \<Rightarrow> string option"
  hv_from_str :: "string \<Rightarrow> 'hv option"
  hv_from_num :: "nat \<Rightarrow> 'hv"
  hn_from_bytes :: "string \<Rightarrow> string + string"
  rb_headers :: "(string \<times> string) list \<Rightarrow> 'hm option"

text \<open>Visible ASCII, space and tab: the values \<open>from_str\<close> takes and \<open>to_str\<close> gives.\<close>

definition visible_ascii :: "string \<Rightarrow> bool" where
  "visible_ascii s \<longleftrightarrow> (\<forall>c\<in>set s. (32 \<le> code c \<and> code c < 127) \<or> code c = 9)"

text \<open>The token characters of a header name (RFC 9110), and names the crate accepts.\<close>

definition is_tchar :: "char \<Rightarrow> bool" where
  "is_tchar c \<longleftrightarrow> is_ascii_digit c \<or> (65 \<le> code c \<and> code c \<le> 90) \<or> (97 \<le> code c \<and> code c \<le> 122)
     \<or> c \<in> set ''!#$%&*+-.^_`|~'' \<or> code c = 39"

definition is_header_token :: "string \<Rightarrow> bool" where
  "is_header_token s \<longleftrightarrow> s \<noteq> [] \<and> length s < 65536 \<and> list_all is_tchar s"

locale header_laws =
  fixes A :: "('hm, 'hv) header_api"
  assumes get_insert:
      "hm_get A (hm_insert A m k v) k' = (if k' = k then Some v else hm_get A m k')"
    and get_remove: "hm_get A (hm_remove A m k) k' = (if k' = k then None else hm_get A m k')"
    and contains_get: "hm_contains_key A m k \<longleftrightarrow> hm_get A m k \<noteq> None"
    and from_str_visible:
      "visible_ascii s \<Longrightarrow> \<exists>v. hv_from_str A s = Some v \<and> hv_to_str A v = Some s"
    and to_str_visible: "hv_to_str A v = Some s \<Longrightarrow> visible_ascii s"
    and from_num_to_str: "hv_to_str A (hv_from_num A n) = Some (show_nat n)"
    and from_bytes_lower: "hn_from_bytes A s = Inr nm \<Longrightarrow> nm = to_ascii_lowercase s"
    and from_bytes_token: "is_header_token s \<Longrightarrow> hn_from_bytes A s = Inr (to_ascii_lowercase s)"
    and rb_headers_Some:
      "\<forall>(k, s)\<in>set kvs. hn_from_bytes A k = Inr k \<and> hv_from_str A s \<noteq> None \<Longrightarrow>
       \<exists>m. rb_headers A kvs = Some m
         \<and> (\<forall>k. hm_get A m k = Option.bind (map_of kvs k) (hv_from_str A))"
begin

lemma contains_insert:
  "hm_contains_key A (hm_insert A m k v) k' \<longleftrightarrow> k' = k \<or> hm_contains_key A m k'"
  by (simp add: contains_get get_insert)

lemma contains_remove:
  "hm_contains_key A (hm_remove A m k) k' \<longleftrightarrow> k' \<noteq> k \<and> hm_contains_key A m k'"
  by (simp add: contains_get get_remove)

lemma get_fold_remove:
  "hm_get A (fold (\<lambda>k m. hm_remove A m k) ks m) k' =
     (if k' \<in> set ks then None else hm_get A m k')"
  by (induction ks arbitrary: m) (auto simp: get_remove)

end

text \<open>
  The reference instance: a header map is the list of its name/value pairs, so a name can
  carry several values, as in the crate.
\<close>

definition ref_from_bytes :: "string \<Rightarrow> string + string" where
  "ref_from_bytes s =
     (if is_header_token s then Inr (to_ascii_lowercase s)
      else Inl ''invalid HTTP header name'')"

definition ref_from_str :: "string \<Rightarrow> string option" where
  "ref_from_str s =
     (if list_all (\<lambda>c. (32 \<le> code c \<and> code c \<noteq> 127) \<or> code c = 9) s then Some s else None)"

definition ref_to_str :: "string \<Rightarrow> string option" where
  "ref_to_str s =
     (if list_all (\<lambda>c. (32 \<le> code c \<and> code c < 127) \<or> code c = 9) s then Some s else None)"

definition ref_rb_headers :: "(string \<times> string) list \<Rightarrow> (string \<times> string) list option" where
  "ref_rb_headers kvs =
     (if list_all (\<lambda>(k, s). ref_from_bytes k \<noteq> Inl ''invalid HTTP header name''
                            \<and> ref_from_str s \<noteq> None) kvs
      then Some (map (\<lambda>(k, s). (to_ascii_lowercase k, s)) kvs) else None)"

definition ref_headers :: "((string \<times> string) list, string) header_api" where
  "ref_headers =
     \<lparr>hm_get = map_of,
      hm_contains_key = (\<lambda>m k. map_of m k \<noteq> None),
      hm_insert = (\<lambda>m k v. (k, v) # filter (\<lambda>(k', _). k' \<noteq> k) m),
      hm_remove = (\<lambda>m k. filter (\<lambda>(k', _). k' \<noteq> k) m),
      hv_to_str = ref_to_str,
      hv_from_str = ref_from_str,
      hv_from_num = show_nat,
      hn_from_bytes = ref_from_bytes,
      rb_headers = ref_rb_headers\<rparr>"

lemma map_of_filter_neq:
  "map_of (filter (\<lambda>(k', _). k' \<noteq> k) m) k' = (if k' = k then None else map_of m k')"
  by (induction m) auto

lemma list_all_digits_visible:
  "list_all (\<lambda>c. (32 \<le> code c \<and> code c < 127) \<or> code c = 9) (show_nat n)"
  by (auto simp: list_all_iff is_ascii_digit_def dest!: show_nat_digits)

lemma map_of_bind_lower:
  assumes "\<forall>(k, s)\<in>set kvs. to_ascii_lowercase k = k \<and> f s = Some s"
  shows "map_of (map (\<lambda>(k, s). (to_ascii_lowercase k, s)) kvs) k = Option.bind (map_of kvs k) f"
  using assms by (induction kvs) auto

lemma ref_rb_headers_ok:
  assumes "\<forall>(k, s)\<in>set kvs. ref_from_bytes k = Inr k \<and> ref_from_str s \<noteq> None"
  shows "\<exists>m. ref_rb_headers kvs = Some m
    \<and> (\<forall>k. map_of m k = Option.bind (map_of kvs k) ref_from_str)"
proof -
  have ok: "list_all (\<lambda>(k, s). ref_from_bytes k \<noteq> Inl ''invalid HTTP header name''
      \<and> ref_from_str s \<noteq> None) kvs"
    using assms by (fastforce simp: list_all_iff)
  have "\<forall>(k, s)\<in>set kvs. to_ascii_lowercase k = k \<and> ref_from_str s = Some s"
    using assms by (fastforce simp: ref_from_bytes_def ref_from_str_def split: if_splits)
  with ok show ?thesis by (simp add: ref_rb_headers_def map_of_bind_lower)
qed

interpretation ref_http: header_laws ref_headers
proof (unfold_locales, goal_cases)
  case (4 s)
  then show ?case
    by (auto simp: ref_headers_def ref_from_str_def ref_to_str_def visible_ascii_def list_all_iff)
next
  case (9 kvs)
  then show ?case using ref_rb_headers_ok [of kvs] by (simp add: ref_headers_def)
qed (auto simp: ref_headers_def map_of_filter_neq ref_to_str_def list_all_iff visible_ascii_def
    ref_from_bytes_def list_all_digits_visible [unfolded list_all_iff, rule_format]
    split: if_splits)

section \<open>URIs (crate http)\<close>

text \<open>
  \<open>uri_parse\<close> is \<open>str::parse::<Uri>\<close> (the error is its display text); authority, scheme
  and path-and-query are given by their \<open>as_str\<close>; \<open>uri_build\<close> is the
  \<open>Uri::builder()\<close> chain with scheme, authority and path-and-query; \<open>uri_eq\<close> is
  \<open>PartialEq for Uri\<close>.
\<close>

record 'uri uri_api =
  uri_parse :: "string \<Rightarrow> string + 'uri"
  uri_authority :: "'uri \<Rightarrow> string option"
  uri_scheme :: "'uri \<Rightarrow> string option"
  uri_path_and_query :: "'uri \<Rightarrow> string option"
  uri_path :: "'uri \<Rightarrow> string"
  uri_query :: "'uri \<Rightarrow> string option"
  uri_build :: "string \<Rightarrow> string \<Rightarrow> string \<Rightarrow> string + 'uri"
  uri_eq :: "'uri \<Rightarrow> 'uri \<Rightarrow> bool"
  uri_show :: "'uri \<Rightarrow> string"

locale uri_laws =
  fixes U :: "'uri uri_api"
  assumes build_scheme: "uri_build U sc au pq = Inr u \<Longrightarrow> uri_scheme U u = Some sc"
    and build_authority: "uri_build U sc au pq = Inr u \<Longrightarrow> uri_authority U u = Some au"
    and build_path_and_query:
      "uri_build U sc au pq = Inr u \<Longrightarrow> pq \<noteq> [] \<Longrightarrow> uri_path_and_query U u = Some pq"
    and eq_equiv: "equivp (uri_eq U)"
begin

lemma eq_refl: "uri_eq U u u"
  using eq_equiv by (rule equivp_reflp)

lemma eq_sym: "uri_eq U u v \<Longrightarrow> uri_eq U v u"
  using eq_equiv by (rule equivp_symp)

lemma eq_trans: "uri_eq U u v \<Longrightarrow> uri_eq U v w \<Longrightarrow> uri_eq U u w"
  using eq_equiv by (rule equivp_transp)

end

text \<open>
  The reference instance keeps the three parts. \<open>scheme://authority[path]\<close> is the
  absolute form, a leading slash the origin form, and anything else without a slash the
  authority form, which has an authority and no scheme.
\<close>

record ref_uri =
  ru_scheme :: "string option"
  ru_authority :: "string option"
  ru_pq :: "string option"

fun split_scheme :: "string \<Rightarrow> (string \<times> string) option" where
  "split_scheme [] = None"
| "split_scheme (c # s) =
     (if starts_with (c # s) ''://'' then Some ([], drop 2 s)
      else map_option (\<lambda>(a, b). (c # a, b)) (split_scheme s))"

definition uri_chars_ok :: "string \<Rightarrow> bool" where
  "uri_chars_ok s \<longleftrightarrow> s \<noteq> [] \<and> list_all is_ascii_graphic s"

definition ref_uri_parse :: "string \<Rightarrow> string + ref_uri" where
  "ref_uri_parse s =
     (if \<not> uri_chars_ok s then Inl ''invalid uri character''
      else case split_scheme s of
             Some (sc, rest) \<Rightarrow>
               (let au = takeWhile (\<lambda>c. c \<noteq> CHR ''/'') rest;
                    pq = dropWhile (\<lambda>c. c \<noteq> CHR ''/'') rest
                in if au = [] then Inl ''invalid format''
                   else Inr \<lparr>ru_scheme = Some sc, ru_authority = Some au,
                             ru_pq = Some (if pq = [] then ''/'' else pq)\<rparr>)
           | None \<Rightarrow>
               (if hd s = CHR ''/''
                then Inr \<lparr>ru_scheme = None, ru_authority = None, ru_pq = Some s\<rparr>
                else if CHR ''/'' \<in> set s then Inl ''invalid format''
                else Inr \<lparr>ru_scheme = None, ru_authority = Some s, ru_pq = None\<rparr>))"

definition ref_uri_query :: "ref_uri \<Rightarrow> string option" where
  "ref_uri_query u =
     (case ru_pq u of None \<Rightarrow> None
      | Some pq \<Rightarrow> (case dropWhile (\<lambda>c. c \<noteq> CHR ''?'') pq of [] \<Rightarrow> None | _ # q \<Rightarrow> Some q))"

definition ref_uri_show :: "ref_uri \<Rightarrow> string" where
  "ref_uri_show u =
     (case ru_scheme u of None \<Rightarrow> [] | Some sc \<Rightarrow> sc @ ''://'')
     @ (case ru_authority u of None \<Rightarrow> [] | Some au \<Rightarrow> au)
     @ (case ru_pq u of None \<Rightarrow> [] | Some pq \<Rightarrow> pq)"

definition ref_uris :: "ref_uri uri_api" where
  "ref_uris =
     \<lparr>uri_parse = ref_uri_parse,
      uri_authority = ru_authority,
      uri_scheme = ru_scheme,
      uri_path_and_query = ru_pq,
      uri_path = (\<lambda>u. case ru_pq u of None \<Rightarrow> [] | Some pq \<Rightarrow> takeWhile (\<lambda>c. c \<noteq> CHR ''?'') pq),
      uri_query = ref_uri_query,
      uri_build = (\<lambda>sc au pq.
        if uri_chars_ok sc \<and> uri_chars_ok au
        then Inr \<lparr>ru_scheme = Some sc, ru_authority = Some au,
                  ru_pq = Some (if pq = [] then ''/'' else pq)\<rparr>
        else Inl ''invalid uri''),
      uri_eq = (=),
      uri_show = ref_uri_show\<rparr>"

interpretation ref_uri_http: uri_laws ref_uris
  by unfold_locales (auto simp: ref_uris_def identity_equivp split: if_splits)

section \<open>Messages\<close>

datatype http_version = HTTP_09 | HTTP_10 | HTTP_11 | HTTP_2 | HTTP_3

text \<open>A response: status code, version, headers and a body.\<close>

record ('hm, 'b) response =
  rs_status :: u16
  rs_version :: http_version
  rs_headers :: 'hm
  rs_body :: 'b

end
