(* ===== verification/Proxy_Error.thy ===== *)
theory Proxy_Error
  imports Http_Api
begin

text \<open>
  \<open>error.rs\<close>: every failure of the proxy, its HTTP status, its machine-readable tag, its
  display text and the JSON response it becomes. The errors of other crates are carried as
  \<open>dyn_error\<close>. \<open>json\<close> is \<open>serde_json::json!({..}).to_string()\<close> on an object of strings.
\<close>

datatype proxy_error =
    Config string
  | InvalidUpstream string
  | BlockedHeader string
  | BlockedParam string
  | BodyTooLarge u64
  | RequestSmuggling
  | Upstream dyn_error
  | Http dyn_error
  | InvalidHeaderValue dyn_error
  | InvalidHeaderName dyn_error
  | Timeout duration
  | ServiceUnavailable usize
  | Tls string
  | RateLimited u64
  | NoHealthyUpstream
  | Internal string

text \<open>The \<open>#[error(...)]\<close> texts.\<close>

fun error_display :: "proxy_error \<Rightarrow> string" where
  "error_display (Config m) = ''configuration error: '' @ m"
| "error_display (InvalidUpstream m) = ''invalid upstream: '' @ m"
| "error_display (BlockedHeader h) = ''blocked header: '' @ h"
| "error_display (BlockedParam p) = ''blocked parameter: '' @ p"
| "error_display (BodyTooLarge limit) =
     ''request body exceeds '' @ show_nat (unat limit) @ '' byte limit''"
| "error_display RequestSmuggling =
     ''ambiguous request framing: both Content-Length and Transfer-Encoding present''"
| "error_display (Upstream e) = ''upstream error: '' @ err_display e"
| "error_display (Http e) = ''http error: '' @ err_display e"
| "error_display (InvalidHeaderValue e) = ''invalid header value: '' @ err_display e"
| "error_display (InvalidHeaderName e) = ''invalid header name: '' @ err_display e"
| "error_display (Timeout d) = ''upstream request timed out after '' @ duration_debug d"
| "error_display (ServiceUnavailable limit) =
     ''service at capacity: '' @ show_nat (unat limit) @ '' concurrent requests''"
| "error_display (Tls m) = ''tls error: '' @ m"
| "error_display (RateLimited ms) =
     ''rate limit exceeded, retry after '' @ show_nat (unat ms) @ ''ms''"
| "error_display NoHealthyUpstream = ''no healthy upstream backend available''"
| "error_display (Internal m) = ''internal error: '' @ m"

fun status_code :: "proxy_error \<Rightarrow> u16" where
  "status_code (Config _) = 500"
| "status_code (Internal _) = 500"
| "status_code (InvalidUpstream _) = 500"
| "status_code (Http _) = 500"
| "status_code (InvalidHeaderValue _) = 500"
| "status_code (InvalidHeaderName _) = 500"
| "status_code (Tls _) = 500"
| "status_code NoHealthyUpstream = 503"
| "status_code (RateLimited _) = 429"
| "status_code (BlockedHeader _) = 403"
| "status_code (BlockedParam _) = 403"
| "status_code (BodyTooLarge _) = 413"
| "status_code RequestSmuggling = 400"
| "status_code (Upstream _) = 502"
| "status_code (Timeout _) = 504"
| "status_code (ServiceUnavailable _) = 503"

fun error_tag :: "proxy_error \<Rightarrow> string" where
  "error_tag (Config _) = ''config_error''"
| "error_tag (InvalidUpstream _) = ''invalid_upstream''"
| "error_tag (BlockedHeader _) = ''blocked_header''"
| "error_tag (BlockedParam _) = ''blocked_param''"
| "error_tag (BodyTooLarge _) = ''body_too_large''"
| "error_tag RequestSmuggling = ''request_smuggling''"
| "error_tag (Upstream _) = ''upstream_error''"
| "error_tag (Timeout _) = ''gateway_timeout''"
| "error_tag (ServiceUnavailable _) = ''service_unavailable''"
| "error_tag (Http _) = ''http_error''"
| "error_tag (InvalidHeaderValue _) = ''http_error''"
| "error_tag (InvalidHeaderName _) = ''http_error''"
| "error_tag (Tls _) = ''tls_error''"
| "error_tag (RateLimited _) = ''rate_limited''"
| "error_tag NoHealthyUpstream = ''no_healthy_upstream''"
| "error_tag (Internal _) = ''internal_error''"

text \<open>\<open>u64::div_ceil\<close>.\<close>

definition div_ceil :: "u64 \<Rightarrow> u64 \<Rightarrow> u64" where
  "div_ceil a b = (if 0 < a mod b then a div b + 1 else a div b)"

definition retry_after_ms :: "proxy_error \<Rightarrow> u64 option" where
  "retry_after_ms e = (case e of RateLimited ms \<Rightarrow> Some ms | _ \<Rightarrow> None)"

text \<open>
  \<open>into_response\<close>. When the builder fails, a bare 500 is built instead; None is the panic
  of the final \<open>expect\<close>.
\<close>

definition into_response ::
  "('hm, 'hv) header_api \<Rightarrow> ((string \<times> string) list \<Rightarrow> string) \<Rightarrow> proxy_error
     \<Rightarrow> ('hm, string) response option" where
  "into_response A json e =
     (let body = json [(''error'', error_tag e), (''message'', error_display e)];
          hdrs = [(''content-type'', ''application/json'')]
            @ (case retry_after_ms e of
                 None \<Rightarrow> []
               | Some ms \<Rightarrow> [(''retry-after'', show_nat (unat (div_ceil ms 1000)))])
      in case rb_headers A hdrs of
           Some m \<Rightarrow> Some \<lparr>rs_status = status_code e, rs_version = HTTP_11,
                           rs_headers = m, rs_body = body\<rparr>
         | None \<Rightarrow>
             (case rb_headers A [] of
                Some m \<Rightarrow> Some \<lparr>rs_status = 500, rs_version = HTTP_11, rs_headers = m, rs_body = []\<rparr>
              | None \<Rightarrow> None))"

lemma unat_div_ceil_1000:
  "1000 * unat (div_ceil ms 1000) = unat ms + (if unat ms mod 1000 = 0 then 0 else 1000 - unat ms mod 1000)"
proof -
  have lt: "unat ms < 2 ^ 64" using unsigned_less [of ms] by simp
  have d: "unat (ms div 1000) = unat ms div 1000" and m: "unat (ms mod 1000) = unat ms mod 1000"
    by (simp_all add: unat_div unat_mod)
  have "unat (ms div 1000 + 1) = unat ms div 1000 + 1"
    using lt d by (simp add: unat_word_ariths)
  moreover have "0 < ms mod 1000 \<longleftrightarrow> 0 < unat ms mod 1000"
    using m by (simp add: word_less_nat_alt)
  ultimately show ?thesis
    using d by (auto simp: div_ceil_def minus_mod_eq_mult_div [symmetric] algebra_simps)
qed

section \<open>Error responses\<close>

lemma retry_header_visible: "visible_ascii (show_nat n)"
  by (auto simp: visible_ascii_def is_ascii_digit_def dest!: show_nat_digits)

lemma error_header_tokens:
  "is_header_token ''content-type''" "to_ascii_lowercase ''content-type'' = ''content-type''"
  "is_header_token ''retry-after''" "to_ascii_lowercase ''retry-after'' = ''retry-after''"
  "visible_ascii ''application/json''"
  by code_simp+

lemma into_response_headers:
  assumes "header_laws A"
  shows "\<exists>m. into_response A json e =
      Some \<lparr>rs_status = status_code e, rs_version = HTTP_11, rs_headers = m,
            rs_body = json [(''error'', error_tag e), (''message'', error_display e)]\<rparr>
    \<and> (\<forall>k. hm_get A m k =
         (if k = ''content-type'' then hv_from_str A ''application/json''
          else if k = ''retry-after''
            then Option.bind (retry_after_ms e) (\<lambda>ms. hv_from_str A (show_nat (unat (div_ceil ms 1000))))
          else None))"
proof -
  let ?h = "[(''content-type'', ''application/json'')]
    @ (case retry_after_ms e of None \<Rightarrow> []
       | Some ms \<Rightarrow> [(''retry-after'', show_nat (unat (div_ceil ms 1000)))])"
  have ok: "hn_from_bytes A ''content-type'' = Inr ''content-type''"
      "hn_from_bytes A ''retry-after'' = Inr ''retry-after''"
      "hv_from_str A ''application/json'' \<noteq> None"
      "hv_from_str A (show_nat n) \<noteq> None" for n
    using header_laws.from_bytes_token [OF assms] header_laws.from_str_visible [OF assms]
      error_header_tokens retry_header_visible by fastforce+
  have "\<forall>(k, s)\<in>set ?h. hn_from_bytes A k = Inr k \<and> hv_from_str A s \<noteq> None"
    using ok by (auto split: option.splits)
  from header_laws.rb_headers_Some [OF assms this]
  obtain m where m: "rb_headers A ?h = Some m"
      "\<forall>k. hm_get A m k = Option.bind (map_of ?h k) (hv_from_str A)" by blast
  then show ?thesis
    by (auto simp: into_response_def Let_def split: option.splits)
qed

text \<open>
  C34. Every failure becomes a response: building it never panics, its status is the one of
  the failure and lies in 400..599, it is JSON, and it carries \<open>Retry-After\<close> exactly when the
  failure is a rate-limit rejection, in whole seconds that cover the wait and exceed it by
  less than a second.
\<close>

theorem error_response_wellformed:
  assumes "header_laws A"
  shows "\<exists>r. into_response A json e = Some r \<and> rs_status r = status_code e
    \<and> 400 \<le> status_code e \<and> status_code e < 600
    \<and> Option.bind (hm_get A (rs_headers r) ''content-type'') (hv_to_str A) = Some ''application/json''
    \<and> (case e of
         RateLimited ms \<Rightarrow>
           (\<exists>k. Option.bind (hm_get A (rs_headers r) ''retry-after'') (hv_to_str A) = Some (show_nat k)
             \<and> unat ms \<le> 1000 * k \<and> 1000 * k < unat ms + 1000)
       | _ \<Rightarrow> hm_get A (rs_headers r) ''retry-after'' = None)"
proof -
  obtain m where m: "into_response A json e =
      Some \<lparr>rs_status = status_code e, rs_version = HTTP_11, rs_headers = m,
            rs_body = json [(''error'', error_tag e), (''message'', error_display e)]\<rparr>"
    and g: "\<forall>k. hm_get A m k =
         (if k = ''content-type'' then hv_from_str A ''application/json''
          else if k = ''retry-after''
            then Option.bind (retry_after_ms e) (\<lambda>ms. hv_from_str A (show_nat (unat (div_ceil ms 1000))))
          else None)"
    using into_response_headers [OF assms] by blast
  obtain v where ct: "hv_from_str A ''application/json'' = Some v" "hv_to_str A v = Some ''application/json''"
    using header_laws.from_str_visible [OF assms] error_header_tokens(5) by blast
  have retry: "\<exists>k. Option.bind (hv_from_str A (show_nat (unat (div_ceil ms 1000)))) (hv_to_str A) = Some (show_nat k)
      \<and> unat ms \<le> 1000 * k \<and> 1000 * k < unat ms + 1000" for ms
  proof -
    obtain w where "hv_from_str A (show_nat (unat (div_ceil ms 1000))) = Some w"
        "hv_to_str A w = Some (show_nat (unat (div_ceil ms 1000)))"
      using header_laws.from_str_visible [OF assms] retry_header_visible by blast
    then show ?thesis
      using unat_div_ceil_1000 [of ms] by (intro exI [of _ "unat (div_ceil ms 1000)"]) (simp split: if_splits)
  qed
  have "400 \<le> status_code e \<and> status_code e < 600"
    by (cases e) simp_all
  then show ?thesis
    using m g ct retry by (cases e) (simp_all add: retry_after_ms_def)
qed

theorem error_response_wellformed_witness:
  "\<exists>r. into_response ref_headers (\<lambda>kvs. snd (hd kvs)) (RateLimited 1500) = Some r
     \<and> rs_status r = 429 \<and> map_of (rs_headers r) ''retry-after'' = Some ''2''"
proof -
  have "into_response ref_headers (\<lambda>kvs. snd (hd kvs)) (RateLimited 1500) =
      Some \<lparr>rs_status = 429, rs_version = HTTP_11,
        rs_headers = [(''content-type'', ''application/json''), (''retry-after'', ''2'')],
        rs_body = ''rate_limited''\<rparr>"
    by code_simp
  then show ?thesis
    using error_response_wellformed [OF ref_http.header_laws_axioms, of "\<lambda>kvs. snd (hd kvs)" "RateLimited 1500"]
    by auto
qed

text \<open>
  An error response never carries \<open>X-Request-Id\<close>: the only headers it has are
  \<open>Content-Type\<close> and \<open>Retry-After\<close>.
\<close>

theorem error_response_has_no_request_id:
  assumes "header_laws A" and "into_response A json e = Some r"
  shows "\<not> hm_contains_key A (rs_headers r) ''x-request-id''"
proof -
  from into_response_headers [OF assms(1), of json e] assms(2)
  have "hm_get A (rs_headers r) ''x-request-id'' = None" by auto
  then show ?thesis by (simp add: header_laws.contains_get [OF assms(1)])
qed

theorem error_response_has_no_request_id_witness:
  "\<exists>r. into_response ref_headers (\<lambda>kvs. snd (hd kvs)) NoHealthyUpstream = Some r
     \<and> \<not> hm_contains_key ref_headers (rs_headers r) ''x-request-id''"
proof -
  obtain r where "into_response ref_headers (\<lambda>kvs. snd (hd kvs)) NoHealthyUpstream = Some r"
    using into_response_headers [OF ref_http.header_laws_axioms] by blast
  then show ?thesis
    using error_response_has_no_request_id [OF ref_http.header_laws_axioms] by blast
qed

end
