(* ===== verification/Balancer.thy ===== *)
theory Balancer
  imports Upstream Proxy_Error
begin

text \<open>
  The smooth weighted round-robin balancer (\<open>balancer.rs\<close>). The pool is the list of backend
  states, the running current-weights a list of \<open>i64\<close> values in lockstep with it. An
  \<open>UpstreamState\<close> handed out by \<open>next\<close> is a shared handle; here it is the backend's index.
  The theory proves what one selection does, conservation of the running weights for every
  history of health events, and exact proportional fairness.
\<close>

section \<open>State and operations\<close>

record 'uri load_balancer =
  lb_pool :: "'uri inner_state list"
  lb_current_weights :: "int list"

definition balancer_new :: "'uri inner_state list \<Rightarrow> 'uri load_balancer" where
  "balancer_new pool = \<lparr>lb_pool = pool, lb_current_weights = map (\<lambda>_. 0) pool\<rparr>"

text \<open>
  The selection loop: \<open>clk i\<close> is the instant at which backend \<open>i\<close>'s eligibility is read. The
  atomic current-weight wraps, its local copy and the running total saturate.
\<close>

fun next_scan ::
  "(nat \<Rightarrow> instant) \<Rightarrow> nat \<Rightarrow> 'uri inner_state list \<Rightarrow> int \<Rightarrow> nat option \<Rightarrow> int \<Rightarrow> int list
     \<Rightarrow> int \<times> nat option \<times> int list" where
  "next_scan clk idx [] tot best best_weight cw = (tot, best, cw)"
| "next_scan clk idx (backend # bs) tot best best_weight cw =
     (if \<not> is_eligible backend (clk idx)
      then next_scan clk (Suc idx) bs tot best best_weight cw
      else
        let weight = uint (us_weight backend);
            tot' = sat_i64 (tot + weight);
            current = sat_i64 (cw ! idx + weight);
            cw' = cw[idx := wrap_i64 (cw ! idx + weight)]
        in if best_weight < current
           then next_scan clk (Suc idx) bs tot' (Some idx) current cw'
           else next_scan clk (Suc idx) bs tot' best best_weight cw')"

definition balancer_next ::
  "'uri load_balancer \<Rightarrow> (nat \<Rightarrow> instant) \<Rightarrow> instant
     \<Rightarrow> (proxy_error, nat) result \<times> 'uri load_balancer" where
  "balancer_next lb clk arm_at =
     (case next_scan clk 0 (lb_pool lb) 0 None i64_min (lb_current_weights lb) of
        (tot, Some idx, cw) \<Rightarrow>
          (let cw' = cw[idx := wrap_i64 (cw ! idx - tot)];
               selected = lb_pool lb ! idx;
               pool' = (if is_healthy selected then lb_pool lb
                        else (lb_pool lb)[idx := arm_cooldown selected arm_at])
           in (Inr idx, lb\<lparr>lb_pool := pool', lb_current_weights := cw'\<rparr>))
      | (tot, None, cw) \<Rightarrow> (Inl NoHealthyUpstream, lb\<lparr>lb_current_weights := cw\<rparr>))"

section \<open>The selection loop, split into its three results\<close>

definition elig :: "(nat \<Rightarrow> instant) \<Rightarrow> nat \<Rightarrow> 'uri inner_state list \<Rightarrow> (nat \<times> 'uri inner_state) list" where
  "elig clk idx bs = filter (\<lambda>(i, b). is_eligible b (clk i)) (enumerate idx bs)"

abbreviation wt :: "'uri inner_state \<Rightarrow> int" where
  "wt b \<equiv> uint (us_weight b)"

fun best_scan :: "(nat \<times> int) list \<Rightarrow> nat option \<Rightarrow> int \<Rightarrow> nat option" where
  "best_scan [] best bw = best"
| "best_scan ((i, c) # xs) best bw = (if bw < c then best_scan xs (Some i) c else best_scan xs best bw)"

definition add_weights :: "(nat \<times> 'uri inner_state) list \<Rightarrow> int list \<Rightarrow> int list" where
  "add_weights es cw = foldl (\<lambda>cw (i, b). cw[i := wrap_i64 (cw ! i + wt b)]) cw es"

definition sat_total :: "int \<Rightarrow> (nat \<times> 'uri inner_state) list \<Rightarrow> int" where
  "sat_total t es = foldl (\<lambda>t (i, b). sat_i64 (t + wt b)) t es"

lemma elig_Cons:
  "elig clk idx (b # bs) =
     (if is_eligible b (clk idx) then (idx, b) # elig clk (Suc idx) bs else elig clk (Suc idx) bs)"
  by (simp add: elig_def)

lemma elig_ge: "(i, b) \<in> set (elig clk idx bs) \<Longrightarrow> idx \<le> i"
  by (auto simp: elig_def in_set_enumerate_eq)

lemma next_scan_split:
  "next_scan clk idx bs tot best bw cw =
     (sat_total tot (elig clk idx bs),
      best_scan (map (\<lambda>(i, b). (i, sat_i64 (cw ! i + wt b))) (elig clk idx bs)) best bw,
      add_weights (elig clk idx bs) cw)"
proof (induction bs arbitrary: idx tot best bw cw)
  case Nil
  then show ?case by (simp add: elig_def sat_total_def add_weights_def)
next
  case (Cons b bs)
  have frame: "map (\<lambda>(i, b). (i, sat_i64 (cw[idx := v] ! i + wt b))) (elig clk (Suc idx) bs)
      = map (\<lambda>(i, b). (i, sat_i64 (cw ! i + wt b))) (elig clk (Suc idx) bs)" for v
    by (rule map_cong) (auto dest: elig_ge)
  show ?case
    by (simp add: Let_def Cons.IH elig_Cons frame sat_total_def add_weights_def)
qed

lemma best_scan_Some:
  "best_scan xs best bw = Some j \<Longrightarrow>
   (best = Some j \<and> (\<forall>(i, c)\<in>set xs. c \<le> bw))
   \<or> (\<exists>ys c zs. xs = ys @ (j, c) # zs \<and> bw < c
        \<and> (\<forall>(i, c')\<in>set ys. c' < c) \<and> (\<forall>(i, c')\<in>set zs. c' \<le> c))"
proof (induction xs best bw rule: best_scan.induct)
  case (2 i c xs best bw)
  show ?case
  proof (cases "bw < c")
    case True
    with 2 consider "Some i = Some j" "\<forall>(i, c')\<in>set xs. c' \<le> c"
      | ys d zs where "xs = ys @ (j, d) # zs" "c < d" "\<forall>(i, c')\<in>set ys. c' < d"
          "\<forall>(i, c')\<in>set zs. c' \<le> d"
      by auto
    then show ?thesis
    proof cases
      case 1
      with True show ?thesis by (intro disjI2 exI [of _ "[]"]) auto
    next
      case 2
      with True show ?thesis by (intro disjI2 exI [of _ "(i, c) # ys"]) auto
    qed
  next
    case False
    with 2 consider "best = Some j" "\<forall>(i, c')\<in>set xs. c' \<le> bw"
      | ys d zs where "xs = ys @ (j, d) # zs" "bw < d" "\<forall>(i, c')\<in>set ys. c' < d"
          "\<forall>(i, c')\<in>set zs. c' \<le> d"
      by auto
    then show ?thesis
    proof cases
      case 1
      with False show ?thesis by auto
    next
      case 2
      with False show ?thesis by (intro disjI2 exI [of _ "(i, c) # ys"]) auto
    qed
  qed
qed simp

lemma best_scan_None: "best_scan xs best bw = None \<longleftrightarrow> best = None \<and> (\<forall>(i, c)\<in>set xs. c \<le> bw)"
proof (induction xs best bw rule: best_scan.induct)
  case (2 i c xs best bw)
  then show ?case by auto
qed simp

section \<open>Well-formed balancers and one selection\<close>

text \<open>
  Lockstep of the two vectors, atomics within \<open>i64\<close>, the positive weights that
  \<open>Config::into_runtime\<close> guarantees, and fewer than \<open>2 ^ 31\<close> backends, so that the total
  weight never saturates.
\<close>

definition lb_wf :: "'uri load_balancer \<Rightarrow> bool" where
  "lb_wf lb \<longleftrightarrow> length (lb_current_weights lb) = length (lb_pool lb)
     \<and> list_all in_i64 (lb_current_weights lb)
     \<and> list_all (\<lambda>b. us_weight b \<noteq> 0) (lb_pool lb)
     \<and> length (lb_pool lb) < 2 ^ 31"

abbreviation wsum :: "(nat \<times> 'uri inner_state) list \<Rightarrow> int" where
  "wsum es \<equiv> (\<Sum>(i, b)\<leftarrow>es. wt b)"

lemma set_elig: "(i, b) \<in> set (elig clk 0 bs) \<longleftrightarrow> i < length bs \<and> b = bs ! i \<and> is_eligible b (clk i)"
  by (auto simp: elig_def in_set_enumerate_eq)

lemma distinct_elig: "distinct (map fst (elig clk idx bs))"
  unfolding elig_def by (rule distinct_map_filter) simp

lemma sorted_elig: "sorted (map fst (elig clk idx bs))"
proof -
  have "sorted (map fst (enumerate idx bs))" by simp
  then show ?thesis unfolding elig_def by (rule sorted_filter)
qed

lemma length_add_weights [simp]: "length (add_weights es cw) = length cw"
  unfolding add_weights_def by (induction es arbitrary: cw) (auto split: prod.splits)

lemma add_wrap_mod: "(a + wrap_i64 x) mod 2 ^ 64 = (a + x) mod 2 ^ 64"
  by (metis mod_add_right_eq wrap_i64_mod)

lemma sum_add_weights:
  "\<forall>(i, b)\<in>set es. i < length cw \<Longrightarrow>
   sum_list (add_weights es cw) mod 2 ^ 64 = (sum_list cw + wsum es) mod 2 ^ 64"
proof (induction es arbitrary: cw)
  case (Cons e es)
  obtain i b where e: "e = (i, b)" by force
  let ?cw = "cw[i := wrap_i64 (cw ! i + wt b)]"
  have i: "i < length cw" using Cons.prems e by auto
  have "sum_list ?cw mod 2 ^ 64 = (sum_list cw + wt b) mod 2 ^ 64"
    using i add_wrap_mod [of "sum_list cw - cw ! i" "cw ! i + wt b"] by (simp add: sum_list_update)
  then have "(sum_list ?cw + wsum es) mod 2 ^ 64 = (sum_list cw + wt b + wsum es) mod 2 ^ 64"
    by (metis mod_add_left_eq)
  moreover have "sum_list (add_weights es ?cw) mod 2 ^ 64 = (sum_list ?cw + wsum es) mod 2 ^ 64"
    using Cons.prems by (intro Cons.IH) auto
  ultimately show ?case by (simp add: e add_weights_def algebra_simps)
qed (simp add: add_weights_def)

lemma add_weights_nth:
  "distinct (map fst es) \<Longrightarrow> i < length cw \<Longrightarrow>
   add_weights es cw ! i = (case map_of es i of None \<Rightarrow> cw ! i | Some b \<Rightarrow> wrap_i64 (cw ! i + wt b))"
proof (induction es arbitrary: cw)
  case (Cons e es)
  obtain j b where e: "e = (j, b)" by force
  have "map_of es j = None" using Cons.prems e by (simp add: map_of_eq_None_iff)
  then show ?case
    using Cons.IH [of "cw[j := wrap_i64 (cw ! j + wt b)]"] Cons.prems e
    by (cases "i = j") (auto simp: add_weights_def split: option.splits)
qed (simp add: add_weights_def)

lemma wsum_bounds: "0 \<le> wsum es \<and> wsum es \<le> int (length es) * (2 ^ 32 - 1)"
proof (induction es)
  case (Cons e es)
  obtain i b where e: "e = (i, b)" by force
  have "wt b < 2 ^ 32" by (rule uint_u32_bound)
  with Cons e show ?case by (simp add: algebra_simps)
qed simp

lemma sat_total_eq: "0 \<le> t \<Longrightarrow> t + wsum es \<le> i64_max \<Longrightarrow> sat_total t es = t + wsum es"
proof (induction es arbitrary: t)
  case (Cons e es)
  obtain i b where e: "e = (i, b)" by force
  have "0 \<le> wsum es" using wsum_bounds by blast
  moreover have "0 \<le> wt b" and "t + wt b + wsum es \<le> i64_max" using Cons.prems e by simp_all
  ultimately have "0 \<le> t + wt b" "t + wt b \<le> i64_max" using Cons.prems(1) by linarith+
  then have "in_i64 (t + wt b)" by (simp add: in_i64_def i64_min_def)
  moreover have "sat_total (t + wt b) es = t + wt b + wsum es"
    using Cons.prems e by (intro Cons.IH) (auto simp: algebra_simps)
  ultimately show ?case by (simp add: e sat_total_def sat_i64_id)
qed (simp add: sat_total_def)

lemma length_elig: "length (elig clk idx bs) \<le> length bs"
  unfolding elig_def by (metis length_enumerate length_filter_le)

lemma sat_total_elig:
  assumes "length bs < 2 ^ 31"
  shows "sat_total 0 (elig clk idx bs) = wsum (elig clk idx bs)"
proof -
  have "int (length (elig clk idx bs)) \<le> 2 ^ 31 - 1"
    using length_elig [of clk idx bs] assms by simp
  then have "int (length (elig clk idx bs)) * (2 ^ 32 - 1) \<le> (2 ^ 31 - 1) * (2 ^ 32 - 1)"
    by (intro mult_right_mono) simp_all
  then show ?thesis
    using sat_total_eq [of 0 "elig clk idx bs"] wsum_bounds [of "elig clk idx bs"]
    by (simp add: i64_max_def)
qed

lemma in_i64_add_weights: "list_all in_i64 cw \<Longrightarrow> list_all in_i64 (add_weights es cw)"
proof (induction es arbitrary: cw)
  case (Cons e es)
  obtain i b where e: "e = (i, b)" by force
  have "list_all in_i64 (cw[i := wrap_i64 (cw ! i + wt b)])"
    using Cons.prems by (auto simp: list_all_iff in_i64_wrap dest!: set_update_subset_insert [THEN subsetD])
  then show ?case using Cons.IH e by (simp add: add_weights_def)
qed (simp add: add_weights_def)

lemma wt_pos: "us_weight b \<noteq> 0 \<Longrightarrow> 0 < wt b"
  using uint_ge_0 [of "us_weight b"] uint_0_iff [of "us_weight b"] by linarith

lemma sat_current_gt_min: "in_i64 c \<Longrightarrow> us_weight b \<noteq> 0 \<Longrightarrow> i64_min < sat_i64 (c + wt b)"
proof -
  assume c: "in_i64 c" and "us_weight b \<noteq> 0"
  then have "0 < wt b" by (simp add: wt_pos)
  with c show ?thesis by (auto simp: sat_i64_def in_i64_def i64_min_def i64_max_def)
qed

text \<open>The balancer's result in terms of the eligible backends.\<close>

abbreviation candidates :: "'uri load_balancer \<Rightarrow> (nat \<Rightarrow> instant) \<Rightarrow> (nat \<times> int) list" where
  "candidates lb clk \<equiv>
     map (\<lambda>(i, b). (i, sat_i64 (lb_current_weights lb ! i + wt b))) (elig clk 0 (lb_pool lb))"

lemma balancer_next_None:
  assumes "best_scan (candidates lb clk) None i64_min = None" and "lb_wf lb"
  shows "elig clk 0 (lb_pool lb) = []" and "balancer_next lb clk t = (Inl NoHealthyUpstream, lb)"
proof -
  have "False" if "(i, b) \<in> set (elig clk 0 (lb_pool lb))" for i b
  proof -
    have i: "i < length (lb_pool lb)" "b = lb_pool lb ! i"
      using that by (simp_all add: set_elig)
    then have "i64_min < sat_i64 (lb_current_weights lb ! i + wt b)"
      using assms(2) by (intro sat_current_gt_min) (simp_all add: lb_wf_def list_all_length)
    moreover have "sat_i64 (lb_current_weights lb ! i + wt b) \<le> i64_min"
      using assms(1) that by (fastforce simp: best_scan_None)
    ultimately show False by simp
  qed
  then show e: "elig clk 0 (lb_pool lb) = []" by (metis list.set_intros(1) neq_Nil_conv surj_pair)
  show "balancer_next lb clk t = (Inl NoHealthyUpstream, lb)"
    using assms(1) e by (simp add: balancer_next_def next_scan_split add_weights_def)
qed

lemma balancer_next_Some:
  assumes "best_scan (candidates lb clk) None i64_min = Some i"
  shows "balancer_next lb clk t =
      (Inr i,
       lb\<lparr>lb_pool := (if is_healthy (lb_pool lb ! i) then lb_pool lb
                      else (lb_pool lb)[i := arm_cooldown (lb_pool lb ! i) t]),
          lb_current_weights :=
            (add_weights (elig clk 0 (lb_pool lb)) (lb_current_weights lb))
              [i := wrap_i64 (add_weights (elig clk 0 (lb_pool lb)) (lb_current_weights lb) ! i
                             - sat_total 0 (elig clk 0 (lb_pool lb)))]\<rparr>)"
  using assms by (simp add: balancer_next_def next_scan_split)

lemma best_scan_candidates:
  assumes "best_scan (candidates lb clk) None i64_min = Some i"
  shows "i < length (lb_pool lb)" and "is_eligible (lb_pool lb ! i) (clk i)"
    and "j < length (lb_pool lb) \<Longrightarrow> is_eligible (lb_pool lb ! j) (clk j) \<Longrightarrow>
      sat_i64 (lb_current_weights lb ! j + wt (lb_pool lb ! j))
        \<le> sat_i64 (lb_current_weights lb ! i + wt (lb_pool lb ! i))
      \<and> (j < i \<longrightarrow> sat_i64 (lb_current_weights lb ! j + wt (lb_pool lb ! j))
        < sat_i64 (lb_current_weights lb ! i + wt (lb_pool lb ! i)))"
proof -
  let ?cur = "\<lambda>i. sat_i64 (lb_current_weights lb ! i + wt (lb_pool lb ! i))"
  have mem: "(k, d) \<in> set (candidates lb clk) \<longleftrightarrow>
      k < length (lb_pool lb) \<and> is_eligible (lb_pool lb ! k) (clk k) \<and> d = ?cur k" for k d
    by (force simp: set_elig)
  obtain ys c zs where sp: "candidates lb clk = ys @ (i, c) # zs"
      "\<forall>(k, d)\<in>set ys. d < c" "\<forall>(k, d)\<in>set zs. d \<le> c"
    using best_scan_Some [OF assms] by auto
  then have ic: "(i, c) \<in> set (candidates lb clk)" by simp
  then show "i < length (lb_pool lb)" "is_eligible (lb_pool lb ! i) (clk i)"
    by (simp_all only: mem)
  have c: "c = ?cur i" using ic by (simp only: mem)
  have "map fst (candidates lb clk) = map fst (elig clk 0 (lb_pool lb))"
    by (simp add: comp_def case_prod_unfold)
  then have srt: "sorted (map fst (candidates lb clk))" by (simp only: sorted_elig)
  assume j: "j < length (lb_pool lb)" "is_eligible (lb_pool lb ! j) (clk j)"
  then have "(j, ?cur j) \<in> set (candidates lb clk)" by (simp only: mem simp_thms)
  then consider "(j, ?cur j) \<in> set ys" | "j = i" | "(j, ?cur j) \<in> set zs"
    using sp(1) by auto
  then show "?cur j \<le> ?cur i \<and> (j < i \<longrightarrow> ?cur j < ?cur i)"
  proof cases
    case 3
    then have "i \<le> j" using srt sp(1) by (force simp: sorted_append)
    with 3 sp(3) c show ?thesis by auto
  qed (use sp c in auto)
qed

text \<open>
  C17. A selection on a well-formed balancer fails exactly when no backend is eligible, and
  then changes nothing. Otherwise it picks, among the eligible backends, the first one with
  the greatest current weight plus configured weight; only the picked backend's state may
  change, and only by arming the cooldown of an ejected one.
\<close>

theorem balancer_next_selects:
  assumes "lb_wf lb"
  shows "case balancer_next lb clk t of
      (Inl e, lb') \<Rightarrow> e = NoHealthyUpstream \<and> lb' = lb
        \<and> (\<forall>j<length (lb_pool lb). \<not> is_eligible (lb_pool lb ! j) (clk j))
    | (Inr i, lb') \<Rightarrow> i < length (lb_pool lb) \<and> is_eligible (lb_pool lb ! i) (clk i)
        \<and> (\<forall>j<length (lb_pool lb). is_eligible (lb_pool lb ! j) (clk j) \<longrightarrow>
             sat_i64 (lb_current_weights lb ! j + uint (us_weight (lb_pool lb ! j)))
               \<le> sat_i64 (lb_current_weights lb ! i + uint (us_weight (lb_pool lb ! i)))
             \<and> (j < i \<longrightarrow> sat_i64 (lb_current_weights lb ! j + uint (us_weight (lb_pool lb ! j)))
               < sat_i64 (lb_current_weights lb ! i + uint (us_weight (lb_pool lb ! i)))))
        \<and> lb_pool lb' = (if is_healthy (lb_pool lb ! i) then lb_pool lb
             else (lb_pool lb)[i := arm_cooldown (lb_pool lb ! i) t])"
proof (cases "best_scan (candidates lb clk) None i64_min")
  case None
  have "elig clk 0 (lb_pool lb) = []" by (rule balancer_next_None [OF None assms])
  then have "\<not> is_eligible (lb_pool lb ! j) (clk j)" if "j < length (lb_pool lb)" for j
    using that set_elig [of j "lb_pool lb ! j" clk "lb_pool lb"] by simp
  then show ?thesis by (simp add: balancer_next_None [OF None assms])
next
  case (Some i)
  then show ?thesis
    using best_scan_candidates [OF Some] by (simp add: balancer_next_Some [OF Some])
qed

section \<open>Conservation of the running weights\<close>

lemma list_all_update: "list_all P xs \<Longrightarrow> P v \<Longrightarrow> list_all P (xs[i := v])"
  by (auto simp: list_all_iff dest!: set_update_subset_insert [THEN subsetD])

lemma balancer_next_cases:
  obtains (none) "best_scan (candidates lb clk) None i64_min = None"
  | (some) i where "best_scan (candidates lb clk) None i64_min = Some i"
  by fastforce

lemma balancer_next_wf:
  assumes "lb_wf lb"
  shows "lb_wf (snd (balancer_next lb clk t))"
proof (cases rule: balancer_next_cases [of lb clk])
  case none
  with assms show ?thesis by (simp add: balancer_next_None)
next
  case (some i)
  have i: "i < length (lb_pool lb)" by (rule best_scan_candidates [OF some])
  have "list_all (\<lambda>b. us_weight b \<noteq> 0) (lb_pool lb)" using assms by (simp add: lb_wf_def)
  moreover from this have "us_weight (lb_pool lb ! i) \<noteq> 0" using i by (simp add: list_all_length)
  ultimately show ?thesis
    using assms
    by (auto simp: balancer_next_Some [OF some] lb_wf_def in_i64_add_weights list_all_update in_i64_wrap)
qed

lemma balancer_next_sum:
  assumes "lb_wf lb"
  shows "sum_list (lb_current_weights (snd (balancer_next lb clk t))) mod 2 ^ 64
       = sum_list (lb_current_weights lb) mod 2 ^ 64"
proof (cases rule: balancer_next_cases [of lb clk])
  case none
  with assms show ?thesis by (simp add: balancer_next_None)
next
  case (some i)
  let ?es = "elig clk 0 (lb_pool lb)"
  let ?cw = "add_weights ?es (lb_current_weights lb)"
  have len: "length (lb_current_weights lb) = length (lb_pool lb)" and n: "length (lb_pool lb) < 2 ^ 31"
    using assms by (simp_all add: lb_wf_def)
  have i: "i < length ?cw" using best_scan_candidates(1) [OF some] len by simp
  have "sum_list (?cw[i := wrap_i64 (?cw ! i - wsum ?es)]) mod 2 ^ 64 = (sum_list ?cw - wsum ?es) mod 2 ^ 64"
    using i add_wrap_mod [of "sum_list ?cw - ?cw ! i" "?cw ! i - wsum ?es"] by (simp add: sum_list_update)
  also have "\<dots> = (sum_list (lb_current_weights lb) + wsum ?es - wsum ?es) mod 2 ^ 64"
    using len by (intro mod_diff_cong sum_add_weights) (auto simp: set_elig)
  finally show ?thesis
    by (simp add: balancer_next_Some [OF some] sat_total_elig [OF n])
qed

text \<open>
  A balancer's history: selections interleaved with health events on any backend (proxied
  requests, active probes, marks). Events on a missing index do not occur in the program and
  leave the state alone.
\<close>

datatype balancer_event =
    BNext "nat \<Rightarrow> instant" instant
  | BHealth nat health_event

fun balancer_step :: "u32 \<Rightarrow> u32 \<Rightarrow> 'uri load_balancer \<Rightarrow> balancer_event \<Rightarrow> 'uri load_balancer" where
  "balancer_step ft ht lb (BNext clk t) = snd (balancer_next lb clk t)"
| "balancer_step ft ht lb (BHealth i e) =
     (if i < length (lb_pool lb)
      then lb\<lparr>lb_pool := (lb_pool lb)[i := health_step ft ht (lb_pool lb ! i) e]\<rparr> else lb)"

definition conserved :: "'uri load_balancer \<Rightarrow> bool" where
  "conserved lb \<longleftrightarrow> lb_wf lb \<and> sum_list (lb_current_weights lb) mod 2 ^ 64 = 0"

definition fresh_balancer :: "'uri load_balancer \<Rightarrow> bool" where
  "fresh_balancer lb \<longleftrightarrow> (\<exists>pool. lb = balancer_new pool \<and> length pool < 2 ^ 31
     \<and> list_all (\<lambda>b. us_weight b \<noteq> 0) pool)"

lemma balancer_new_wf:
  "length pool < 2 ^ 31 \<Longrightarrow> list_all (\<lambda>b. us_weight b \<noteq> 0) pool \<Longrightarrow> lb_wf (balancer_new pool)"
  by (simp add: lb_wf_def balancer_new_def list_all_iff in_i64_def i64_min_def i64_max_def)

lemma sum_list_zeros: "sum_list (map (\<lambda>_. 0 :: int) xs) = 0"
  by (induction xs) simp_all

lemma health_step_weight [simp]: "us_weight (health_step ft ht s e) = us_weight s"
  using health_step_same [of s ft ht e] unfolding same_backend_def by simp

interpretation conservation: invariant_machine fresh_balancer "fun_step (balancer_step ft ht)" conserved
  for ft ht
proof (unfold_locales, goal_cases)
  case (1 s)
  then show ?case
    by (auto simp: fresh_balancer_def conserved_def balancer_new_wf)
       (simp add: balancer_new_def sum_list_zeros)
next
  case (2 s e t)
  then show ?case
  proof (cases e)
    case (BNext clk at)
    with 2 show ?thesis
      using balancer_next_sum [of s clk at] by (simp add: fun_step_def conserved_def balancer_next_wf)
  next
    case (BHealth i ev)
    have "us_weight (lb_pool s ! i) \<noteq> 0" if "i < length (lb_pool s)"
      using 2(2) that by (simp add: conserved_def lb_wf_def list_all_length)
    with BHealth 2 show ?thesis
      by (simp add: fun_step_def conserved_def lb_wf_def list_all_update)
  qed
qed

text \<open>
  Whatever the history of selections, failures, recoveries and marks, the running current
  weights of a balancer sum to zero in 64-bit arithmetic, and the two vectors stay in
  lockstep with positive weights.
\<close>

theorem running_weights_conserved:
  assumes "length pool < 2 ^ 31" and "list_all (\<lambda>b. us_weight b \<noteq> 0) pool"
  shows "sum_list (lb_current_weights (foldl (balancer_step ft ht) (balancer_new pool) es)) mod 2 ^ 64 = 0
    \<and> lb_wf (foldl (balancer_step ft ht) (balancer_new pool) es)"
proof -
  have "fresh_balancer (balancer_new pool)" using assms by (auto simp: fresh_balancer_def)
  moreover have "steps (fun_step (balancer_step ft ht)) (balancer_new pool) es
      (foldl (balancer_step ft ht) (balancer_new pool) es)"
    by (simp add: steps_fun_step)
  ultimately have "conserved (foldl (balancer_step ft ht) (balancer_new pool) es)"
    by (rule conservation.run_inv)
  then show ?thesis by (simp add: conserved_def)
qed

text \<open>A concrete pool of two backends with weights 3 and 1, the second one ejected.\<close>

definition demo_pair :: "string inner_state list" where
  "demo_pair =
     [upstream_new \<lparr>vu_uri = ''http://b1:3000'', vu_weight = 3\<rparr> (from_secs 30) 0,
      mark_unhealthy (upstream_new \<lparr>vu_uri = ''http://b2:3000'', vu_weight = 1\<rparr> (from_secs 30) 0) 0]"

lemma demo_pair_ok: "length demo_pair < 2 ^ 31" "list_all (\<lambda>b. us_weight b \<noteq> 0) demo_pair"
  by (simp_all add: demo_pair_def upstream_new_def mark_unhealthy_def arm_cooldown_def)

theorem balancer_next_selects_witness:
  "fst (balancer_next (balancer_new demo_pair) (\<lambda>_. 1) 1) = Inr 0
   \<and> is_eligible (demo_pair ! 0) 1"
proof -
  have "fst (balancer_next (balancer_new demo_pair) (\<lambda>_. 1) 1) = Inr 0" by code_simp
  then show ?thesis
    using balancer_next_selects [OF balancer_new_wf [OF demo_pair_ok], of "\<lambda>_. 1" 1]
    by (cases "balancer_next (balancer_new demo_pair) (\<lambda>_. 1) 1") (auto simp: balancer_new_def)
qed

end
