(* ===== verification/Interleaving.thy ===== *)
theory Interleaving
  imports Palisade_Prelude
begin

text \<open>
  Calls running at once over shared memory. \<open>access now s pc\<close> is the next access of a call
  that stands at \<open>pc\<close>: where it stands afterwards and the memory it leaves. New calls start
  where \<open>entry\<close> allows, and \<open>env\<close> is what else happens to the memory. The theory gives the step
  relation, its executable form, and the locale of calls that return within a bounded number
  of their own accesses.
\<close>

record ('s, 'pc) calls =
  cl_shared :: 's
  cl_calls :: "'pc list"

datatype ('t, 'pc, 'e) call_event =
    Invoke 'pc
  | Access nat 't
  | Env 'e

inductive interleaved ::
  "('t \<Rightarrow> 's \<Rightarrow> 'pc \<Rightarrow> 'pc \<times> 's) \<Rightarrow> ('pc \<Rightarrow> bool) \<Rightarrow> ('e \<Rightarrow> 's \<Rightarrow> 's)
     \<Rightarrow> ('s, 'pc) calls \<Rightarrow> ('t, 'pc, 'e) call_event \<Rightarrow> ('s, 'pc) calls \<Rightarrow> bool"
  for access entry env where
  invoke: "entry pc \<Longrightarrow>
    interleaved access entry env c (Invoke pc) (c\<lparr>cl_calls := cl_calls c @ [pc]\<rparr>)"
| step: "t < length (cl_calls c) \<Longrightarrow> access now (cl_shared c) (cl_calls c ! t) = (pc, s) \<Longrightarrow>
    interleaved access entry env c (Access t now) (c\<lparr>cl_shared := s, cl_calls := (cl_calls c)[t := pc]\<rparr>)"
| env: "interleaved access entry env c (Env e) (c\<lparr>cl_shared := env e (cl_shared c)\<rparr>)"

text \<open>No call of a run is forgotten.\<close>

lemma interleaved_length: "interleaved access entry env c e c' \<Longrightarrow> length (cl_calls c) \<le> length (cl_calls c')"
  by (induction rule: interleaved.induct) simp_all

section \<open>Running an interleaving\<close>

fun apply_event ::
  "('t \<Rightarrow> 's \<Rightarrow> 'pc \<Rightarrow> 'pc \<times> 's) \<Rightarrow> ('e \<Rightarrow> 's \<Rightarrow> 's) \<Rightarrow> ('s, 'pc) calls \<Rightarrow> ('t, 'pc, 'e) call_event
     \<Rightarrow> ('s, 'pc) calls" where
  "apply_event access env c (Invoke pc) = c\<lparr>cl_calls := cl_calls c @ [pc]\<rparr>"
| "apply_event access env c (Access t now) =
     (case access now (cl_shared c) (cl_calls c ! t) of
        (pc, s) \<Rightarrow> c\<lparr>cl_shared := s, cl_calls := (cl_calls c)[t := pc]\<rparr>)"
| "apply_event access env c (Env e) = c\<lparr>cl_shared := env e (cl_shared c)\<rparr>"

fun runnable :: "('pc \<Rightarrow> bool) \<Rightarrow> nat \<Rightarrow> ('t, 'pc, 'e) call_event list \<Rightarrow> bool" where
  "runnable entry n [] = True"
| "runnable entry n (Invoke pc # es) = (entry pc \<and> runnable entry (Suc n) es)"
| "runnable entry n (Access t now # es) = (t < n \<and> runnable entry n es)"
| "runnable entry n (Env e # es) = runnable entry n es"

lemma steps_apply:
  "runnable entry (length (cl_calls c)) es \<Longrightarrow>
   steps (interleaved access entry env) c es (foldl (apply_event access env) c es)"
proof (induction es arbitrary: c)
  case (Cons e es)
  have "interleaved access entry env c e (apply_event access env c e)"
    using Cons.prems by (cases e) (auto intro: interleaved.intros split: prod.splits)
  moreover have "runnable entry (length (cl_calls (apply_event access env c e))) es"
    using Cons.prems by (cases e) (auto split: prod.splits)
  ultimately show ?case using Cons.IH by auto
qed auto

section \<open>Calls that return\<close>

definition own_access :: "nat \<Rightarrow> ('t, 'pc, 'e) call_event \<Rightarrow> bool" where
  "own_access t e = (case e of Access u now \<Rightarrow> u = t | _ \<Rightarrow> False)"

text \<open>
  A distance to the return that every own access decreases and that nothing else changes, in
  the states of an invariant.
\<close>

locale wait_free =
  fixes access :: "'t \<Rightarrow> 's \<Rightarrow> 'pc \<Rightarrow> 'pc \<times> 's"
    and entry :: "'pc \<Rightarrow> bool"
    and env :: "'e \<Rightarrow> 's \<Rightarrow> 's"
    and inv :: "('s, 'pc) calls \<Rightarrow> bool"
    and distance :: "'pc \<Rightarrow> nat"
    and returned :: "'pc \<Rightarrow> bool"
    and bound :: nat
  assumes inv_step: "interleaved access entry env c e c' \<Longrightarrow> inv c \<Longrightarrow> inv c'"
    and decreases: "inv c \<Longrightarrow> t < length (cl_calls c) \<Longrightarrow>
      distance (fst (access now (cl_shared c) (cl_calls c ! t))) \<le> distance (cl_calls c ! t) - 1"
    and at_zero: "inv c \<Longrightarrow> pc \<in> set (cl_calls c) \<Longrightarrow> distance pc = 0 \<Longrightarrow> returned pc"
    and bounded: "inv c \<Longrightarrow> pc \<in> set (cl_calls c) \<Longrightarrow> distance pc \<le> bound"
begin

lemma distance_step:
  assumes "interleaved access entry env c e c'" "inv c" "t < length (cl_calls c)"
  shows "t < length (cl_calls c') \<and>
    distance (cl_calls c' ! t) \<le> distance (cl_calls c ! t) - (if own_access t e then 1 else 0)"
  using assms(1)
proof cases
  case (step u now pc s)
  then have "distance pc \<le> distance (cl_calls c ! u) - 1"
    using decreases [OF assms(2) step(3), of now] by simp
  then show ?thesis using step assms(3) by (auto simp: own_access_def nth_list_update)
qed (use assms(3) in \<open>auto simp: own_access_def nth_append\<close>)

lemma distance_run:
  assumes "steps (interleaved access entry env) c es c'" "inv c" "t < length (cl_calls c)"
  shows "inv c' \<and> t < length (cl_calls c') \<and>
    distance (cl_calls c' ! t) \<le> distance (cl_calls c ! t) - length (filter (own_access t) es)"
  using assms
proof (induction rule: steps.induct)
  case (steps_Cons c e d es c')
  from distance_step [OF steps_Cons(1,4,5)] steps_Cons.IH [OF inv_step [OF steps_Cons(1,4)]]
  show ?case by auto
qed simp

lemma call_returns:
  assumes "steps (interleaved access entry env) c es c'" "inv c" "t < length (cl_calls c)"
    and "bound \<le> length (filter (own_access t) es)"
  shows "returned (cl_calls c' ! t)"
proof -
  have "distance (cl_calls c ! t) \<le> bound" using bounded [OF assms(2)] assms(3) by simp
  with distance_run [OF assms(1-3)] assms(4) show ?thesis by (intro at_zero [of c']) auto
qed

end

end
