(* ===== verification/Upstream_Concurrent.thy ===== *)
theory Upstream_Concurrent
  imports Upstream Interleaving
begin

text \<open>
  The methods of \<open>UpstreamState\<close> as they run: any number of calls at once on one backend, each
  access to one of its atomics a step of its own. The theory shows that a call that runs alone
  is the method of \<open>Upstream\<close>, that concurrent failures are counted exactly, that an ejected
  backend at rest always has its cooldown window, that ejections and promotions alternate,
  and that a delayed success can undo an ejection it knows nothing of.
\<close>

section \<open>The methods, step by step\<close>

text \<open>
  Where a call stands, named after the access it makes next. The success call stores the
  failure counter, loads the flag, then stores the success counter (healthy) or adds to it
  and, at the threshold, stores the counter, the deadline and the flag. The failure call
  stores the success counter, adds to the failure counter and, at the threshold, swaps the
  flag and re-arms the cooldown. The marks store one field after the other.
\<close>

datatype health_pc =
    SuccResetFailures
  | SuccLoad
  | SuccResetSuccesses
  | SuccAdd
  | PromoteResetSuccesses
  | PromoteClear
  | PromoteStore
  | FailResetSuccesses
  | FailAdd
  | FailSwap
  | FailArm
  | MarkUpResetFailures
  | MarkUpResetSuccesses
  | MarkUpClear
  | MarkUpStore
  | MarkDownResetSuccesses
  | MarkDownStore
  | MarkDownArm
  | SuccDone bool
  | FailDone bool
  | MarkUpDone
  | MarkDownDone

fun health_access ::
  "u32 \<Rightarrow> u32 \<Rightarrow> instant \<Rightarrow> 'uri inner_state \<Rightarrow> health_pc \<Rightarrow> health_pc \<times> 'uri inner_state" where
  "health_access ft ht now s SuccResetFailures = (SuccLoad, s\<lparr>us_consecutive_failures := 0\<rparr>)"
| "health_access ft ht now s SuccLoad = (if is_healthy s then SuccResetSuccesses else SuccAdd, s)"
| "health_access ft ht now s SuccResetSuccesses = (SuccDone False, s\<lparr>us_consecutive_successes := 0\<rparr>)"
| "health_access ft ht now s SuccAdd =
     (let prev = us_consecutive_successes s;
          new_count = sat_add prev 1
      in (if ht \<le> new_count then PromoteResetSuccesses else SuccDone False,
          s\<lparr>us_consecutive_successes := prev + 1\<rparr>))"
| "health_access ft ht now s PromoteResetSuccesses = (PromoteClear, s\<lparr>us_consecutive_successes := 0\<rparr>)"
| "health_access ft ht now s PromoteClear = (PromoteStore, s\<lparr>us_cooldown_until_ms := 0\<rparr>)"
| "health_access ft ht now s PromoteStore = (SuccDone True, s\<lparr>us_healthy := True\<rparr>)"
| "health_access ft ht now s FailResetSuccesses = (FailAdd, s\<lparr>us_consecutive_successes := 0\<rparr>)"
| "health_access ft ht now s FailAdd =
     (let prev = us_consecutive_failures s;
          new_count = sat_add prev 1
      in (if ft \<le> new_count then FailSwap else FailDone False,
          s\<lparr>us_consecutive_failures := prev + 1\<rparr>))"
| "health_access ft ht now s FailSwap =
     (if us_healthy s then FailArm else FailDone False, s\<lparr>us_healthy := False\<rparr>)"
| "health_access ft ht now s FailArm = (FailDone True, arm_cooldown s now)"
| "health_access ft ht now s MarkUpResetFailures = (MarkUpResetSuccesses, s\<lparr>us_consecutive_failures := 0\<rparr>)"
| "health_access ft ht now s MarkUpResetSuccesses = (MarkUpClear, s\<lparr>us_consecutive_successes := 0\<rparr>)"
| "health_access ft ht now s MarkUpClear = (MarkUpStore, s\<lparr>us_cooldown_until_ms := 0\<rparr>)"
| "health_access ft ht now s MarkUpStore = (MarkUpDone, s\<lparr>us_healthy := True\<rparr>)"
| "health_access ft ht now s MarkDownResetSuccesses = (MarkDownStore, s\<lparr>us_consecutive_successes := 0\<rparr>)"
| "health_access ft ht now s MarkDownStore = (MarkDownArm, s\<lparr>us_healthy := False\<rparr>)"
| "health_access ft ht now s MarkDownArm = (MarkDownDone, arm_cooldown s now)"
| "health_access ft ht now s (SuccDone b) = (SuccDone b, s)"
| "health_access ft ht now s (FailDone b) = (FailDone b, s)"
| "health_access ft ht now s MarkUpDone = (MarkUpDone, s)"
| "health_access ft ht now s MarkDownDone = (MarkDownDone, s)"

section \<open>A call that runs alone\<close>

definition alone :: "u32 \<Rightarrow> u32 \<Rightarrow> instant \<Rightarrow> health_pc \<times> 'uri inner_state \<Rightarrow> health_pc \<times> 'uri inner_state" where
  "alone ft ht now c = health_access ft ht now (snd c) (fst c)"


section \<open>Interleaved calls\<close>

text \<open>
  The calls on one shared backend; in between the balancer may route a trial, which re-arms
  the cooldown.
\<close>

type_synonym 'uri backend_calls = "('uri inner_state, health_pc) calls"

definition health_entry :: "health_pc \<Rightarrow> bool" where
  "health_entry pc \<longleftrightarrow>
     pc \<in> {SuccResetFailures, FailResetSuccesses, MarkUpResetFailures, MarkDownResetSuccesses}"

definition route_trial :: "instant \<Rightarrow> 'uri inner_state \<Rightarrow> 'uri inner_state" where
  "route_trial now s = arm_cooldown s now"

abbreviation backend_step ::
  "u32 \<Rightarrow> u32 \<Rightarrow> 'uri backend_calls \<Rightarrow> (instant, health_pc, instant) call_event \<Rightarrow> 'uri backend_calls \<Rightarrow> bool" where
  "backend_step ft ht \<equiv> interleaved (health_access ft ht) health_entry route_trial"

abbreviation idle :: "'uri inner_state \<Rightarrow> 'uri backend_calls" where
  "idle b \<equiv> \<lparr>cl_shared = b, cl_calls = []\<rparr>"

text \<open>Every health call returns within six accesses of its own, however it is interleaved.\<close>

fun health_distance :: "health_pc \<Rightarrow> nat" where
  "health_distance SuccResetFailures = 6"
| "health_distance SuccLoad = 5"
| "health_distance SuccResetSuccesses = 1"
| "health_distance SuccAdd = 4"
| "health_distance PromoteResetSuccesses = 3"
| "health_distance PromoteClear = 2"
| "health_distance PromoteStore = 1"
| "health_distance FailResetSuccesses = 4"
| "health_distance FailAdd = 3"
| "health_distance FailSwap = 2"
| "health_distance FailArm = 1"
| "health_distance MarkUpResetFailures = 4"
| "health_distance MarkUpResetSuccesses = 3"
| "health_distance MarkUpClear = 2"
| "health_distance MarkUpStore = 1"
| "health_distance MarkDownResetSuccesses = 3"
| "health_distance MarkDownStore = 2"
| "health_distance MarkDownArm = 1"
| "health_distance _ = 0"

interpretation health_call: wait_free "health_access ft ht" health_entry route_trial "\<lambda>_. True"
    health_distance "\<lambda>pc. health_distance pc = 0" 6
  for ft ht
proof (unfold_locales, goal_cases)
  case (2 c t now)
  then show ?case by (cases "cl_calls c ! t") (simp_all add: Let_def)
next
  case (4 c pc)
  then show ?case by (cases pc) simp_all
qed simp_all

text \<open>A call that is about to arm the window, or has cleared it and is about to set the flag.\<close>

definition unsettled :: "health_pc \<Rightarrow> bool" where
  "unsettled pc \<longleftrightarrow> pc \<in> {FailArm, MarkDownArm, PromoteStore, MarkUpStore}"

definition armed :: "'uri inner_state \<Rightarrow> bool" where
  "armed s \<longleftrightarrow> (\<exists>t. us_cooldown_until_ms s = sat_add (now_ms s t) (us_cooldown_ms s))"

text \<open>The calls that took the backend out by a failure, and those that put it back.\<close>

definition ejecting :: "health_pc \<Rightarrow> bool" where
  "ejecting pc \<longleftrightarrow> pc = FailArm \<or> pc = FailDone True"

definition promoting :: "health_pc \<Rightarrow> bool" where
  "promoting pc \<longleftrightarrow> pc = SuccDone True \<or> pc = MarkUpDone"

definition backend_inv :: "'uri inner_state \<Rightarrow> 'uri backend_calls \<Rightarrow> bool" where
  "backend_inv b c \<longleftrightarrow> same_backend b (cl_shared c)
     \<and> (us_healthy (cl_shared c) \<or> armed (cl_shared c) \<or> (\<exists>pc\<in>set (cl_calls c). unsettled pc))
     \<and> length (filter ejecting (cl_calls c)) + (if us_healthy (cl_shared c) then 1 else 0)
         \<le> 1 + length (filter promoting (cl_calls c))"

lemmas health_pc_defs = unsettled_def ejecting_def promoting_def health_entry_def

lemma access_same: "same_backend s (snd (health_access ft ht now s pc))"
  by (cases pc) (auto simp: same_backend_def arm_cooldown_def Let_def)

lemma armed_arm [simp]: "armed (arm_cooldown s t)"
  unfolding armed_def by (rule exI [of _ t]) (simp add: arm_cooldown_def now_ms_def)

lemma healthy_arm [simp]: "us_healthy (arm_cooldown s t) = us_healthy s"
  by (simp add: arm_cooldown_def)

lemma armed_update [simp]:
  "armed (s\<lparr>us_consecutive_failures := a\<rparr>) = armed s"
  "armed (s\<lparr>us_consecutive_successes := a\<rparr>) = armed s"
  "armed (s\<lparr>us_healthy := h\<rparr>) = armed s"
  by (simp_all add: armed_def)

lemma access_window:
  assumes "health_access ft ht now s pc = (pc', s')"
  shows "us_healthy s' \<or> armed s' \<or> unsettled pc' \<or> (\<not> us_healthy s \<and> \<not> armed s \<and> \<not> unsettled pc)"
  using assms by (cases pc) (auto simp: unsettled_def Let_def is_healthy_def split: if_splits)

lemma access_counts:
  assumes "health_access ft ht now s pc = (pc', s')"
  shows "(if ejecting pc' then 1 else 0) + (if us_healthy s' then 1 else 0) + (if promoting pc then 1 else 0)
    \<le> (if ejecting pc then 1 else 0) + (if us_healthy s then 1 else 0) + (if promoting pc' then 1 else (0 :: nat))"
  using assms
  by (cases pc) (auto simp: ejecting_def promoting_def Let_def is_healthy_def arm_cooldown_def split: if_splits)

lemma backend_inv_step:
  assumes "backend_step ft ht c e c'" "backend_inv b c"
  shows "backend_inv b c'"
  using assms(1)
proof cases
  case (invoke pc)
  then show ?thesis using assms(2) by (auto simp: backend_inv_def health_pc_defs)
next
  case (step t now pc s)
  have "same_backend b s"
    using step(4) access_same [of "cl_shared c" ft ht now "cl_calls c ! t"] assms(2) same_backend_trans
    by (auto simp: backend_inv_def)
  moreover have "us_healthy s \<or> armed s \<or> (\<exists>pc'\<in>set ((cl_calls c)[t := pc]). unsettled pc')"
  proof (cases "us_healthy s \<or> armed s \<or> unsettled pc")
    case True
    then show ?thesis using set_update_memI [OF step(3)] by blast
  next
    case False
    with access_window [OF step(4)] assms(2) obtain pc' where
      "pc' \<in> set (cl_calls c)" "unsettled pc'" "\<not> unsettled (cl_calls c ! t)" by (auto simp: backend_inv_def)
    then show ?thesis using step(3) by (metis in_set_conv_nth length_list_update nth_list_update_neq)
  qed
  moreover have "length (filter ejecting ((cl_calls c)[t := pc])) + (if us_healthy s then 1 else 0)
      \<le> 1 + length (filter promoting ((cl_calls c)[t := pc]))"
    using access_counts [OF step(4)] assms(2) length_filter_update [OF step(3), of ejecting pc]
      length_filter_update [OF step(3), of promoting pc]
    by (auto simp: backend_inv_def split: if_splits)
  ultimately show ?thesis using step(2) by (simp add: backend_inv_def)
next
  case (env t)
  have "same_backend b (arm_cooldown (cl_shared c) t)"
    using assms(2) same_backend_trans same_backend_ops(1) unfolding backend_inv_def by blast
  then show ?thesis using env assms(2) by (simp add: backend_inv_def route_trial_def)
qed

interpretation backend: invariant_machine "\<lambda>c. us_healthy b \<and> c = idle b" "backend_step ft ht" "backend_inv b"
  for b ft ht
proof (unfold_locales, goal_cases)
  case (1 c)
  then show ?case by (simp add: backend_inv_def)
next
  case (2 c e c')
  then show ?case by (rule backend_inv_step)
qed

text \<open>
  C11. A backend under concurrent calls, from healthy: in every interleaving of successes,
  failures, marks and routed trials, an ejected backend with no call about to arm its window
  or to put it back has a cooldown window, one cooldown after some instant; the calls that
  ejected it outnumber those that put it back by at most one; and its URI, weight and
  cooldown never change.
\<close>

theorem concurrent_health_invariant:
  assumes "us_healthy b" and "steps (backend_step ft ht) (idle b) es c"
  shows "(\<not> us_healthy (cl_shared c) \<and> (\<forall>pc\<in>set (cl_calls c). \<not> unsettled pc) \<longrightarrow>
      (\<exists>t. us_cooldown_until_ms (cl_shared c) = us_cooldown_until_ms (arm_cooldown (cl_shared c) t)))
    \<and> length (filter ejecting (cl_calls c)) \<le> 1 + length (filter promoting (cl_calls c))
    \<and> same_backend b (cl_shared c)"
proof -
  have "us_healthy b \<and> idle b = idle b" using assms(1) by simp
  then have "backend_inv b c" using assms(2) by (rule backend.run_inv)
  then show ?thesis by (auto simp: backend_inv_def armed_def arm_cooldown_def split: if_splits)
qed

section \<open>Concurrent failures\<close>

abbreviation failures_step ::
  "u32 \<Rightarrow> u32 \<Rightarrow> 'uri backend_calls \<Rightarrow> (instant, health_pc, instant) call_event \<Rightarrow> 'uri backend_calls \<Rightarrow> bool" where
  "failures_step ft ht \<equiv> interleaved (health_access ft ht) (\<lambda>pc. pc = FailResetSuccesses) route_trial"

text \<open>The calls whose failure is in the counter.\<close>

definition counted :: "health_pc \<Rightarrow> bool" where
  "counted pc \<longleftrightarrow> pc \<in> {FailSwap, FailArm, FailDone True, FailDone False}"

definition failing :: "health_pc \<Rightarrow> bool" where
  "failing pc \<longleftrightarrow> counted pc \<or> pc = FailResetSuccesses \<or> pc = FailAdd"

abbreviation added :: "'uri backend_calls \<Rightarrow> nat" where
  "added c \<equiv> length (filter counted (cl_calls c))"

definition failures_inv :: "u32 \<Rightarrow> 'uri backend_calls \<Rightarrow> bool" where
  "failures_inv ft c \<longleftrightarrow> list_all failing (cl_calls c)
     \<and> us_consecutive_failures (cl_shared c) = of_nat (added c)
     \<and> length (filter ejecting (cl_calls c)) = (if us_healthy (cl_shared c) then 0 else 1)
     \<and> (\<not> us_healthy (cl_shared c) \<or> FailSwap \<in> set (cl_calls c) \<longrightarrow> unat ft \<le> added c)
     \<and> (unat ft \<le> added c \<longrightarrow> \<not> us_healthy (cl_shared c) \<or> FailSwap \<in> set (cl_calls c))"

lemma added_less: "t < length (cl_calls c) \<Longrightarrow> \<not> counted (cl_calls c ! t) \<Longrightarrow> added c < length (cl_calls c)"
  by (metis length_filter_less nth_mem)

lemma fail_add_threshold:
  fixes ft :: u32
  assumes "n < 2 ^ 32 - 1"
  shows "ft \<le> sat_add (of_nat n) 1 \<longleftrightarrow> unat ft \<le> Suc n"
proof -
  have "unat (of_nat n :: u32) = n" using assms by (simp add: unat_of_nat)
  then show ?thesis using assms by (simp add: word_le_nat_alt unat_sat_add)
qed

lemma in_set_update_iff:
  "t < length xs \<Longrightarrow> xs ! t \<noteq> a \<Longrightarrow> a \<in> set (xs[t := v]) \<longleftrightarrow> a = v \<or> a \<in> set xs"
  by (metis in_set_conv_nth insertE length_list_update nth_list_update_neq set_update_memI set_update_subset_insert subsetD)

lemma failures_inv_access:
  assumes "failures_inv ft c" "t < length (cl_calls c)" "length (cl_calls c) < 2 ^ 32"
    and "health_access ft ht now (cl_shared c) (cl_calls c ! t) = (pc, s)"
  shows "failures_inv ft (c\<lparr>cl_shared := s, cl_calls := (cl_calls c)[t := pc]\<rparr>)"
proof -
  let ?c = "c\<lparr>cl_shared := s, cl_calls := (cl_calls c)[t := pc]\<rparr>"
  have f: "failing (cl_calls c ! t)" using assms(1,2) by (simp add: failures_inv_def list_all_length)
  have all: "list_all failing (cl_calls ?c)" if "failing pc"
    using assms(1,2) that by (simp add: failures_inv_def list_all_length nth_list_update)
  note cnt = length_filter_update [OF assms(2), of counted pc] length_filter_update [OF assms(2), of ejecting pc]
  note upd = in_set_update_iff [OF assms(2), of FailSwap pc]
  consider "cl_calls c ! t = FailResetSuccesses" | "cl_calls c ! t = FailAdd" | "cl_calls c ! t = FailSwap"
    | "cl_calls c ! t = FailArm" | r where "cl_calls c ! t = FailDone r"
    using f by (auto simp: failing_def counted_def)
  then show ?thesis
  proof cases
    case 2
    have "added c < 2 ^ 32 - 1" using added_less [OF assms(2)] 2 assms(3) by (simp add: counted_def)
    from fail_add_threshold [OF this, of ft] have "pc = (if unat ft \<le> Suc (added c) then FailSwap else FailDone False)"
      "s = (cl_shared c)\<lparr>us_consecutive_failures := of_nat (Suc (added c))\<rparr>"
      using 2 assms(1,4) by (auto simp: failures_inv_def Let_def)
    then show ?thesis
      using 2 assms(1) all cnt upd by (auto simp: failures_inv_def failing_def counted_def ejecting_def split: if_splits)
  next
    case 3
    then have "FailSwap \<in> set (cl_calls c)" using assms(2) by (metis nth_mem)
    with 3 assms(1,4) all cnt show ?thesis
      by (auto simp: failures_inv_def failing_def counted_def ejecting_def split: if_splits)
  next
    case 5
    with assms(1,2,4) show ?thesis by (auto simp: failures_inv_def list_update_id split: if_splits)
  qed (use assms(1,4) all cnt upd in \<open>auto simp: failures_inv_def failing_def counted_def ejecting_def arm_cooldown_def split: if_splits\<close>)
qed

definition failures_start :: "u32 \<Rightarrow> 'uri backend_calls \<Rightarrow> bool" where
  "failures_start ft c \<longleftrightarrow> ft \<noteq> 0 \<and> cl_calls c = [] \<and> us_healthy (cl_shared c)
     \<and> us_consecutive_failures (cl_shared c) = 0"

interpretation failures: invariant_machine "failures_start ft" "failures_step ft ht"
    "\<lambda>c. length (cl_calls c) < 2 ^ 32 \<longrightarrow> failures_inv ft c"
  for ft ht
proof (unfold_locales, goal_cases)
  case (1 c)
  then show ?case by (simp add: failures_start_def failures_inv_def unat_eq_zero)
next
  case (2 c e c')
  show ?case
  proof
    assume l: "length (cl_calls c') < 2 ^ 32"
    then have inv: "failures_inv ft c" "length (cl_calls c) < 2 ^ 32"
      using 2 interleaved_length [OF 2(1)] by auto
    from 2(1) show "failures_inv ft c'"
    proof cases
      case (invoke pc)
      with inv(1) show ?thesis by (simp add: failures_inv_def failing_def counted_def ejecting_def)
    next
      case (step t now pc s)
      with inv failures_inv_access show ?thesis by blast
    next
      case (env t)
      with inv(1) show ?thesis by (simp add: failures_inv_def route_trial_def) (simp add: arm_cooldown_def)
    qed
  qed
qed

text \<open>
  C10. Concurrent failures are counted exactly, without a lock: when fewer than \<open>2^32\<close>
  \<open>record_failure\<close> calls on a healthy backend have all returned, in whatever interleaving,
  the counter is their number; the backend is ejected exactly if they reached the threshold,
  and then exactly one of them reported the ejection.
\<close>

theorem concurrent_failures_exact:
  assumes "ft \<noteq> 0" and "us_healthy b" and "us_consecutive_failures b = 0"
    and "steps (failures_step ft ht) (idle b) es c" and "length (cl_calls c) < 2 ^ 32"
    and "\<forall>pc\<in>set (cl_calls c). \<exists>r. pc = FailDone r"
  shows "unat (us_consecutive_failures (cl_shared c)) = length (cl_calls c)
    \<and> (us_healthy (cl_shared c) \<longleftrightarrow> length (cl_calls c) < unat ft)
    \<and> length (filter (\<lambda>pc. pc = FailDone True) (cl_calls c)) = (if length (cl_calls c) < unat ft then 0 else 1)"
proof -
  have "failures_start ft (idle b)" using assms(1-3) by (simp add: failures_start_def)
  then have inv: "failures_inv ft c" using failures.run_inv [OF _ assms(4)] assms(5) by blast
  have "filter counted (cl_calls c) = cl_calls c"
    using assms(6) by (intro filter_True) (auto simp: counted_def)
  moreover have "filter ejecting (cl_calls c) = filter (\<lambda>pc. pc = FailDone True) (cl_calls c)"
    using assms(6) by (intro filter_cong) (auto simp: ejecting_def)
  moreover have "FailSwap \<notin> set (cl_calls c)" using assms(6) by auto
  moreover have "unat (of_nat (length (cl_calls c)) :: u32) = length (cl_calls c)"
    using assms(5) by (simp add: unat_of_nat)
  ultimately show ?thesis using inv by (auto simp: failures_inv_def split: if_splits)
qed

section \<open>A delayed success\<close>

text \<open>Two successes on an ejected backend, the second held up before it promotes; then the
  first one finishes, three failures eject the backend again, and the second one goes on.\<close>

definition delayed_success :: "instant \<Rightarrow> (instant, health_pc, instant) call_event list" where
  "delayed_success now =
     [Invoke SuccResetFailures, Invoke SuccResetFailures]
     @ map (\<lambda>t. Access t now) [0, 0, 0, 1, 1, 1, 0, 0, 0]
     @ [Invoke FailResetSuccesses] @ map (\<lambda>t. Access t now) [2, 2]
     @ [Invoke FailResetSuccesses] @ map (\<lambda>t. Access t now) [3, 3]
     @ [Invoke FailResetSuccesses] @ map (\<lambda>t. Access t now) [4, 4, 4, 4, 1, 1, 1]"

text \<open>
  C25. A delayed success undoes an ejection: with the default thresholds there is, for every
  ejected backend, an interleaving in which a success that began before three failures
  completes after them; the third failure reported the ejection, no success began since, and
  yet the backend ends healthy, with as many consecutive failures as the threshold and no
  cooldown window.
\<close>

theorem delayed_success_undoes_ejection:
  assumes "\<not> us_healthy b"
  shows "\<exists>c. steps (backend_step DEFAULT_FAILURE_THRESHOLD DEFAULT_HEALTHY_THRESHOLD) (idle b) (delayed_success now) c
    \<and> cl_calls c = [SuccDone True, SuccDone True, FailDone False, FailDone False, FailDone True]
    \<and> us_healthy (cl_shared c) \<and> us_consecutive_failures (cl_shared c) = DEFAULT_FAILURE_THRESHOLD
    \<and> us_cooldown_until_ms (cl_shared c) = 0"
proof -
  let ?run = "foldl (apply_event (health_access DEFAULT_FAILURE_THRESHOLD DEFAULT_HEALTHY_THRESHOLD) route_trial)
      (idle b) (delayed_success now)"
  have sat: "1 \<le> sat_add x 1" for x :: u32 by (simp add: word_le_nat_alt unat_sat_add)
  have idx: "(x # y # z # xs)[2 := v] = x # y # v # xs" "(x # y # z # u # xs)[3 := v] = x # y # z # v # xs"
    "(x # y # z # u # w # xs)[4 := v] = x # y # z # u # v # xs" for x y z u v w :: health_pc and xs
    by (simp_all add: numeral_eq_Suc)
  have sats: "sat_add 0 1 = (1 :: u32)" "sat_add 1 1 = (2 :: u32)" "sat_add 2 1 = (3 :: u32)" "\<not> (3 :: u32) \<le> 1"
    by code_simp+
  have "cl_calls ?run = [SuccDone True, SuccDone True, FailDone False, FailDone False, FailDone True]
      \<and> us_healthy (cl_shared ?run) \<and> us_consecutive_failures (cl_shared ?run) = DEFAULT_FAILURE_THRESHOLD
      \<and> us_cooldown_until_ms (cl_shared ?run) = 0"
    using assms sat
    by (simp add: delayed_success_def idx Let_def is_healthy_def
        sats arm_cooldown_def DEFAULT_FAILURE_THRESHOLD_def DEFAULT_HEALTHY_THRESHOLD_def)
  moreover have "runnable health_entry (length (cl_calls (idle b))) (delayed_success now)"
    by (simp add: delayed_success_def health_entry_def)
  ultimately show ?thesis using steps_apply by blast
qed

section \<open>Concrete runs\<close>

theorem delayed_success_undoes_ejection_witness:
  "\<exists>c. steps (backend_step DEFAULT_FAILURE_THRESHOLD DEFAULT_HEALTHY_THRESHOLD)
      (idle (mark_unhealthy demo_backend 0)) (delayed_success 9) c
    \<and> us_healthy (cl_shared c)"
proof -
  have "\<not> us_healthy (mark_unhealthy demo_backend 0)" by code_simp
  from delayed_success_undoes_ejection [OF this] show ?thesis by blast
qed

text \<open>Two failures that overlap, with a threshold of two.\<close>

definition two_failures :: "(instant, health_pc, instant) call_event list" where
  "two_failures =
     [Invoke FailResetSuccesses, Invoke FailResetSuccesses] @ map (\<lambda>t. Access t 5) [0, 1, 1, 0, 0, 0]"

lemma two_failures_run:
  "steps (interleaved (health_access 2 1) entry route_trial) (idle demo_backend) two_failures
     (foldl (apply_event (health_access 2 1) route_trial) (idle demo_backend) two_failures)"
  if "entry FailResetSuccesses" for entry
  using that by (intro steps_apply) (simp add: two_failures_def)

theorem concurrent_failures_exact_witness:
  "\<exists>c. steps (failures_step 2 1) (idle demo_backend) two_failures c \<and> \<not> us_healthy (cl_shared c)
    \<and> length (filter (\<lambda>pc. pc = FailDone True) (cl_calls c)) = 1"
proof -
  let ?c = "foldl (apply_event (health_access 2 1) route_trial) (idle demo_backend) two_failures"
  have st: "steps (failures_step 2 1) (idle demo_backend) two_failures ?c"
    by (rule two_failures_run) simp
  have calls: "cl_calls ?c = [FailDone True, FailDone False]" by code_simp
  have "us_healthy demo_backend" "us_consecutive_failures demo_backend = 0" "(2 :: u32) \<noteq> 0" by code_simp+
  moreover have "length (cl_calls ?c) < 2 ^ 32" "\<forall>pc\<in>set (cl_calls ?c). \<exists>r. pc = FailDone r"
    unfolding calls by auto
  ultimately have "(us_healthy (cl_shared ?c) \<longleftrightarrow> length (cl_calls ?c) < unat (2 :: u32))
      \<and> length (filter (\<lambda>pc. pc = FailDone True) (cl_calls ?c)) = (if length (cl_calls ?c) < unat (2 :: u32) then 0 else 1)"
    using concurrent_failures_exact [OF _ _ _ st] by blast
  then show ?thesis using st by (intro exI [of _ ?c]) (simp add: calls)
qed

theorem concurrent_health_invariant_witness:
  "\<exists>c t. steps (backend_step 2 1) (idle demo_backend) two_failures c
    \<and> us_cooldown_until_ms (cl_shared c) = us_cooldown_until_ms (arm_cooldown (cl_shared c) t)"
proof -
  let ?c = "foldl (apply_event (health_access 2 1) route_trial) (idle demo_backend) two_failures"
  have st: "steps (backend_step 2 1) (idle demo_backend) two_failures ?c"
    by (rule two_failures_run) (simp add: health_entry_def)
  have "us_healthy demo_backend" "\<not> us_healthy (cl_shared ?c)" by code_simp+
  moreover have "list_all (\<lambda>pc. \<not> unsettled pc) (cl_calls ?c)" by code_simp
  then have "\<forall>pc\<in>set (cl_calls ?c). \<not> unsettled pc" by (simp only: list_all_iff)
  ultimately show ?thesis using concurrent_health_invariant [OF _ st] st by blast
qed

end
