(* ===== verification/Balancer_Concurrent.thy ===== *)
theory Balancer_Concurrent
  imports Balancer Upstream_Concurrent
begin

text \<open>
  \<open>LoadBalancer::next\<close> as it runs: many calls at once over shared atomics, without a lock.
  Each access to a shared atomic (the health flag, the cooldown deadline, a current weight) is
  one step, and the steps of different calls and of health calls interleave freely. The
  theory shows that a call that runs alone is \<open>balancer_next\<close>, that every interleaving
  conserves the current weights, that every call returns after a bounded number of its own
  steps, and that two calls can be given the same half-open trial.
\<close>

section \<open>One call, step by step\<close>

record scan =
  sc_idx :: nat
  sc_total :: int
  sc_best :: "nat option"
  sc_best_weight :: int

text \<open>
  Where a call stands: at the loop head (where the health flag is loaded, or after the last
  backend the total is subtracted), at the second load of the flag in \<open>trial_ready\<close>, at the
  load of the cooldown deadline, at the \<open>fetch_add\<close>, at the final health check, at the store
  of a new deadline, or done.
\<close>

datatype next_pc =
    Scan scan
  | Trial scan
  | Cooldown scan
  | Add scan
  | Arm nat
  | Store nat
  | Returned "(proxy_error, nat) result"

definition scan_start :: scan where
  "scan_start = \<lparr>sc_idx = 0, sc_total = 0, sc_best = None, sc_best_weight = i64_min\<rparr>"

definition skip :: "scan \<Rightarrow> next_pc" where
  "skip r = Scan (r\<lparr>sc_idx := Suc (sc_idx r)\<rparr>)"

fun next_step :: "instant \<Rightarrow> 'uri load_balancer \<Rightarrow> next_pc \<Rightarrow> next_pc \<times> 'uri load_balancer" where
  "next_step now lb (Scan r) =
     (if sc_idx r < length (lb_pool lb)
      then (if is_healthy (lb_pool lb ! sc_idx r) then Add r else Trial r, lb)
      else case sc_best r of
        None \<Rightarrow> (Returned (Inl NoHealthyUpstream), lb)
      | Some idx \<Rightarrow>
          (Arm idx, lb\<lparr>lb_current_weights := (lb_current_weights lb)
             [idx := wrap_i64 (lb_current_weights lb ! idx - sc_total r)]\<rparr>))"
| "next_step now lb (Trial r) = (if is_healthy (lb_pool lb ! sc_idx r) then skip r else Cooldown r, lb)"
| "next_step now lb (Cooldown r) =
     (let backend = lb_pool lb ! sc_idx r
      in (if us_cooldown_until_ms backend \<le> now_ms backend now then Add r else skip r, lb))"
| "next_step now lb (Add r) =
     (let idx = sc_idx r;
          weight = uint (us_weight (lb_pool lb ! idx));
          tot = sat_i64 (sc_total r + weight);
          current = sat_i64 (lb_current_weights lb ! idx + weight)
      in (if sc_best_weight r < current
          then Scan \<lparr>sc_idx = Suc idx, sc_total = tot, sc_best = Some idx, sc_best_weight = current\<rparr>
          else Scan \<lparr>sc_idx = Suc idx, sc_total = tot, sc_best = sc_best r, sc_best_weight = sc_best_weight r\<rparr>,
          lb\<lparr>lb_current_weights := (lb_current_weights lb)
            [idx := wrap_i64 (lb_current_weights lb ! idx + weight)]\<rparr>))"
| "next_step now lb (Arm idx) =
     (if is_healthy (lb_pool lb ! idx) then Returned (Inr idx) else Store idx, lb)"
| "next_step now lb (Store idx) =
     (Returned (Inr idx), lb\<lparr>lb_pool := (lb_pool lb)[idx := arm_cooldown (lb_pool lb ! idx) now]\<rparr>)"
| "next_step now lb (Returned r) = (Returned r, lb)"

section \<open>A call that runs alone\<close>

definition solo ::
  "(nat \<Rightarrow> instant) \<Rightarrow> instant \<Rightarrow> next_pc \<times> 'uri load_balancer \<Rightarrow> next_pc \<times> 'uri load_balancer" where
  "solo clk arm_at s =
     next_step (case fst s of Cooldown r \<Rightarrow> clk (sc_idx r) | _ \<Rightarrow> arm_at) (snd s) (fst s)"

definition reaches :: "('s \<Rightarrow> 's) \<Rightarrow> 's \<Rightarrow> 's \<Rightarrow> bool" where
  "reaches f s t \<longleftrightarrow> (\<exists>k. (f ^^ k) s = t)"

lemma reaches_refl [simp, intro]: "reaches f s s"
  unfolding reaches_def by (rule exI [of _ 0]) simp

lemma reaches_step: "reaches f (f s) t \<Longrightarrow> reaches f s t"
  unfolding reaches_def by (metis funpow_Suc_right comp_apply)

lemma reaches_trans: "reaches f s t \<Longrightarrow> reaches f t u \<Longrightarrow> reaches f s u"
  unfolding reaches_def by (metis funpow_add comp_apply)

lemma solo_skips:
  assumes "sc_idx r < length (lb_pool lb)" "\<not> is_eligible (lb_pool lb ! sc_idx r) (clk (sc_idx r))"
  shows "reaches (solo clk t) (Scan r, lb) (skip r, lb)"
  using assms
  by (auto simp: is_eligible_def trial_ready_def solo_def Let_def intro!: reaches_step [of _ "(_, lb)"])

lemma solo_adds:
  assumes "sc_idx r < length (lb_pool lb)" "is_eligible (lb_pool lb ! sc_idx r) (clk (sc_idx r))"
  shows "reaches (solo clk t) (Scan r, lb) (next_step t lb (Add r))"
proof -
  have a: "reaches (solo clk t) (Add r, lb) (next_step t lb (Add r))"
    by (rule reaches_step) (simp add: solo_def)
  show ?thesis
  proof (cases "is_healthy (lb_pool lb ! sc_idx r)")
    case True
    with assms(1) a show ?thesis by (intro reaches_step [of _ "(Scan r, lb)"]) (simp add: solo_def)
  next
    case False
    then have "solo clk t (Scan r, lb) = (Trial r, lb)" "solo clk t (Trial r, lb) = (Cooldown r, lb)"
      "solo clk t (Cooldown r, lb) = (Add r, lb)"
      using assms by (simp_all add: solo_def is_eligible_def trial_ready_def Let_def)
    with a show ?thesis by (metis reaches_step)
  qed
qed

lemma update_swap:
  "lb\<lparr>lb_pool := p, lb_current_weights := c\<rparr> = lb\<lparr>lb_current_weights := c, lb_pool := p\<rparr>"
  by (cases lb) simp

lemma solo_scan:
  assumes "drop (sc_idx r) (lb_pool lb) = bs" "sc_idx r \<le> length (lb_pool lb)"
  shows "\<exists>bw. reaches (solo clk t) (Scan r, lb)
    (case next_scan clk (sc_idx r) bs (sc_total r) (sc_best r) (sc_best_weight r) (lb_current_weights lb) of
       (tot, best, cw) \<Rightarrow>
         (Scan \<lparr>sc_idx = length (lb_pool lb), sc_total = tot, sc_best = best, sc_best_weight = bw\<rparr>,
          lb\<lparr>lb_current_weights := cw\<rparr>))"
  using assms
proof (induction bs arbitrary: r lb)
  case Nil
  then show ?case by (intro exI [of _ "sc_best_weight r"]) (cases r; cases lb; simp)
next
  case (Cons b bs)
  have i: "sc_idx r < length (lb_pool lb)" "lb_pool lb ! sc_idx r = b"
    "drop (Suc (sc_idx r)) (lb_pool lb) = bs"
    using Cons.prems by (metis drop_eq_Nil leI list.distinct(1), metis nth_via_drop, metis drop_Suc list.sel(3) tl_drop)
  show ?case
  proof (cases "is_eligible b (clk (sc_idx r))")
    case False
    have "reaches (solo clk t) (Scan r, lb) (Scan (r\<lparr>sc_idx := Suc (sc_idx r)\<rparr>), lb)"
      using solo_skips [of r lb clk t] i False by (simp add: skip_def)
    with Cons.IH [of "r\<lparr>sc_idx := Suc (sc_idx r)\<rparr>" lb] i False show ?thesis
      by (fastforce intro: reaches_trans)
  next
    case True
    let ?cur = "sat_i64 (lb_current_weights lb ! sc_idx r + wt b)"
    let ?tot = "sat_i64 (sc_total r + wt b)"
    define lb' where "lb' = snd (next_step t lb (Add r))"
    define r' where "r' = (if sc_best_weight r < ?cur
      then \<lparr>sc_idx = Suc (sc_idx r), sc_total = ?tot, sc_best = Some (sc_idx r), sc_best_weight = ?cur\<rparr>
      else \<lparr>sc_idx = Suc (sc_idx r), sc_total = ?tot, sc_best = sc_best r, sc_best_weight = sc_best_weight r\<rparr>)"
    have a: "next_step t lb (Add r) = (Scan r', lb')" "sc_idx r' = Suc (sc_idx r)"
      "lb_pool lb' = lb_pool lb" "\<And>cw. lb'\<lparr>lb_current_weights := cw\<rparr> = lb\<lparr>lb_current_weights := cw\<rparr>"
      "next_scan clk (sc_idx r) (b # bs) (sc_total r) (sc_best r) (sc_best_weight r) (lb_current_weights lb)
       = next_scan clk (sc_idx r') bs (sc_total r') (sc_best r') (sc_best_weight r') (lb_current_weights lb')"
      using i(2) True by (simp_all add: Let_def r'_def lb'_def)
    have "reaches (solo clk t) (Scan r, lb) (Scan r', lb')"
      using solo_adds [of r lb clk t] i True a(1) by simp
    moreover have "drop (sc_idx r') (lb_pool lb') = bs" "sc_idx r' \<le> length (lb_pool lb')"
      using i by (simp_all add: a(2,3))
    note Cons.IH [OF this, unfolded a(3,4) a(5) [symmetric]]
    ultimately show ?thesis using reaches_trans by meson
  qed
qed

text \<open>
  C18. The step-by-step call is the sequential one: a call that is not interleaved with
  anything returns the result of \<open>balancer_next\<close> and leaves the balancer as \<open>balancer_next\<close>
  does, whatever instants its clock reads show.
\<close>

theorem solo_call_is_balancer_next:
  "\<exists>k. (solo clk arm_at ^^ k) (Scan scan_start, lb)
     = (Returned (fst (balancer_next lb clk arm_at)), snd (balancer_next lb clk arm_at))"
proof -
  let ?n = "length (lb_pool lb)"
  obtain tot best cw where ns: "next_scan clk 0 (lb_pool lb) 0 None i64_min (lb_current_weights lb) = (tot, best, cw)"
    by (metis prod_cases3)
  obtain bw where "reaches (solo clk arm_at) (Scan scan_start, lb)
      (Scan \<lparr>sc_idx = ?n, sc_total = tot, sc_best = best, sc_best_weight = bw\<rparr>, lb\<lparr>lb_current_weights := cw\<rparr>)"
    using solo_scan [of scan_start lb "lb_pool lb" clk arm_at] ns by (auto simp: scan_start_def)
  moreover have "reaches (solo clk arm_at)
      (Scan \<lparr>sc_idx = ?n, sc_total = tot, sc_best = best, sc_best_weight = bw\<rparr>, lb\<lparr>lb_current_weights := cw\<rparr>)
      (Returned (fst (balancer_next lb clk arm_at)), snd (balancer_next lb clk arm_at))"
  proof (cases best)
    case None
    with ns show ?thesis by (intro reaches_step [of _ "(Scan _, _)"]) (simp add: solo_def balancer_next_def)
  next
    case (Some idx)
    show ?thesis
    proof (cases "is_healthy (lb_pool lb ! idx)")
      case True
      with Some ns show ?thesis
        by (intro reaches_step [of _ "(Scan _, _)"]) (auto intro!: reaches_step [of _ "(Arm _, _)"] simp: solo_def balancer_next_def Let_def)
    next
      case False
      with Some ns show ?thesis
        by (intro reaches_step [of _ "(Scan _, _)"])
          (auto intro!: reaches_step [of _ "(Arm _, _)"] reaches_step [of _ "(Store _, _)"]
            simp: solo_def balancer_next_def Let_def update_swap)
    qed
  qed
  ultimately show ?thesis using reaches_trans unfolding reaches_def by metis
qed

section \<open>Interleaved calls\<close>

text \<open>
  The calls over the shared balancer. In between, the health calls on any backend make their
  accesses, one at a time: \<open>(i, pc, now)\<close> is the access at \<open>pc\<close> of a call on backend \<open>i\<close>.
\<close>

type_synonym 'uri concurrent = "('uri load_balancer, next_pc) calls"

definition health_env ::
  "u32 \<Rightarrow> u32 \<Rightarrow> nat \<times> health_pc \<times> instant \<Rightarrow> 'uri load_balancer \<Rightarrow> 'uri load_balancer" where
  "health_env ft ht ev lb =
     (case ev of (i, pc, now) \<Rightarrow>
        if i < length (lb_pool lb)
        then lb\<lparr>lb_pool := (lb_pool lb)[i := snd (health_access ft ht now (lb_pool lb ! i) pc)]\<rparr>
        else lb)"

definition next_entry :: "next_pc \<Rightarrow> bool" where
  "next_entry pc \<longleftrightarrow> pc = Scan scan_start"

abbreviation concurrent_step ::
  "u32 \<Rightarrow> u32 \<Rightarrow> 'uri concurrent \<Rightarrow> (instant, next_pc, nat \<times> health_pc \<times> instant) call_event \<Rightarrow> 'uri concurrent \<Rightarrow> bool" where
  "concurrent_step ft ht \<equiv> interleaved next_step next_entry (health_env ft ht)"

text \<open>What a call has added to the current weights and not yet subtracted.\<close>

fun pending :: "next_pc \<Rightarrow> int" where
  "pending (Scan r) = sc_total r"
| "pending (Trial r) = sc_total r"
| "pending (Cooldown r) = sc_total r"
| "pending (Add r) = sc_total r"
| "pending _ = 0"

definition scan_ok :: "nat \<Rightarrow> scan \<Rightarrow> bool" where
  "scan_ok n r \<longleftrightarrow> sc_idx r \<le> n \<and> 0 \<le> sc_total r \<and> sc_total r \<le> int (sc_idx r) * (2 ^ 32 - 1)
     \<and> (case sc_best r of None \<Rightarrow> sc_total r = 0 \<and> sc_best_weight r = i64_min | Some i \<Rightarrow> i < n)"

fun pc_ok :: "nat \<Rightarrow> next_pc \<Rightarrow> bool" where
  "pc_ok n (Scan r) = scan_ok n r"
| "pc_ok n (Trial r) = (scan_ok n r \<and> sc_idx r < n)"
| "pc_ok n (Cooldown r) = (scan_ok n r \<and> sc_idx r < n)"
| "pc_ok n (Add r) = (scan_ok n r \<and> sc_idx r < n)"
| "pc_ok n (Arm i) = (i < n)"
| "pc_ok n (Store i) = (i < n)"
| "pc_ok n (Returned (Inr i)) = (i < n)"
| "pc_ok n (Returned (Inl e)) = (e = NoHealthyUpstream)"

definition concurrent_inv :: "nat \<Rightarrow> 'uri concurrent \<Rightarrow> bool" where
  "concurrent_inv n s \<longleftrightarrow> lb_wf (cl_shared s) \<and> length (lb_pool (cl_shared s)) = n
     \<and> list_all (pc_ok n) (cl_calls s)
     \<and> sum_list (lb_current_weights (cl_shared s)) mod 2 ^ 64 = sum_list (map pending (cl_calls s)) mod 2 ^ 64"

lemma skip_ok: "scan_ok n r \<Longrightarrow> sc_idx r < n \<Longrightarrow> pc_ok n (skip r)"
  by (auto simp: skip_def scan_ok_def algebra_simps split: option.splits)

lemma pending_skip [simp]: "pending (skip r) = sc_total r"
  by (simp add: skip_def)

lemma total_no_saturation:
  assumes "scan_ok n r" "sc_idx r < n" "n < 2 ^ 31"
  shows "sat_i64 (sc_total r + uint (w :: u32)) = sc_total r + uint w"
    "0 \<le> sc_total r + uint w" "sc_total r + uint w \<le> int (Suc (sc_idx r)) * (2 ^ 32 - 1)"
proof -
  have w: "0 \<le> uint w" "uint w \<le> 2 ^ 32 - 1" using uint_u32_bound [of w] by simp_all
  show b: "0 \<le> sc_total r + uint w" "sc_total r + uint w \<le> int (Suc (sc_idx r)) * (2 ^ 32 - 1)"
    using assms(1) w by (simp_all add: scan_ok_def algebra_simps)
  have "int (Suc (sc_idx r)) * (2 ^ 32 - 1) \<le> 2 ^ 31 * (2 ^ 32 - 1)"
    using assms(2,3) by (intro mult_right_mono) simp_all
  with b have "in_i64 (sc_total r + uint w)" by (simp add: in_i64_def i64_min_def i64_max_def)
  then show "sat_i64 (sc_total r + uint w) = sc_total r + uint w" by (rule sat_i64_id)
qed

lemma sum_wrap_update:
  assumes "i < length cw"
  shows "sum_list (cw[i := wrap_i64 (cw ! i + d)]) mod 2 ^ 64 = (sum_list cw + d) mod 2 ^ 64"
  using assms add_wrap_mod [of "sum_list cw - cw ! i" "cw ! i + d"] by (simp add: sum_list_update)

lemma next_step_inv:
  assumes "lb_wf lb" "pc_ok (length (lb_pool lb)) pc" "next_step now lb pc = (pc', lb')"
  shows "lb_wf lb' \<and> length (lb_pool lb') = length (lb_pool lb) \<and> pc_ok (length (lb_pool lb)) pc'
    \<and> (sum_list (lb_current_weights lb') - pending pc') mod 2 ^ 64
        = (sum_list (lb_current_weights lb) - pending pc) mod 2 ^ 64"
proof (cases pc)
  case (Scan r)
  show ?thesis
  proof (cases "sc_idx r < length (lb_pool lb)")
    case False
    show ?thesis
    proof (cases "sc_best r")
      case None
      with Scan False assms show ?thesis by (auto simp: scan_ok_def)
    next
      case (Some i)
      have "i < length (lb_current_weights lb)"
        using Scan Some assms(1,2) by (auto simp: scan_ok_def lb_wf_def)
      from sum_wrap_update [OF this, of "- sc_total r"] Scan Some False assms show ?thesis
        by (auto simp: scan_ok_def lb_wf_def list_all_update in_i64_wrap)
    qed
  qed (use Scan assms in auto)
next
  case (Add r)
  have r: "scan_ok (length (lb_pool lb)) r" "sc_idx r < length (lb_pool lb)" "length (lb_pool lb) < 2 ^ 31"
    "us_weight (lb_pool lb ! sc_idx r) \<noteq> 0" "in_i64 (lb_current_weights lb ! sc_idx r)"
    "sc_idx r < length (lb_current_weights lb)"
    using Add assms(1,2) by (auto simp: lb_wf_def list_all_length)
  note t = total_no_saturation [OF r(1-3)]
  have m: "(sum_list ((lb_current_weights lb)[sc_idx r := wrap_i64 (lb_current_weights lb ! sc_idx r + w)])
      - (tt + w)) mod 2 ^ 64 = (sum_list (lb_current_weights lb) - tt) mod 2 ^ 64" for w tt
    using mod_diff_cong [OF sum_wrap_update [OF r(6), of w] refl, of "tt + w"] by (simp add: algebra_simps)
  show ?thesis
    using Add assms r(1,2) sat_current_gt_min [OF r(5,4)] t(2,3)
    by (auto simp: Let_def t(1) m [simplified] m [where tt = 0, simplified] scan_ok_def lb_wf_def list_all_update in_i64_wrap split: if_splits option.splits)
next
  case (Store i)
  with assms show ?thesis by (auto simp: lb_wf_def list_all_length nth_list_update split: if_splits)
qed (use assms in \<open>auto simp: Let_def skip_ok split: if_splits\<close>)

lemma mod_sum_update:
  fixes xs :: "int list"
  assumes "i < length xs" "(a' - v) mod 2 ^ 64 = (a - xs ! i) mod 2 ^ 64" "a mod 2 ^ 64 = sum_list xs mod 2 ^ 64"
  shows "a' mod 2 ^ 64 = sum_list (xs[i := v]) mod 2 ^ 64"
proof -
  have "a' mod 2 ^ 64 = ((a' - v) + v) mod 2 ^ 64" by simp
  also have "\<dots> = ((a - xs ! i) + v) mod 2 ^ 64" using assms(2) by (rule mod_add_cong) simp
  also have "\<dots> = (a + (v - xs ! i)) mod 2 ^ 64" by (simp add: algebra_simps)
  also have "\<dots> = (sum_list xs + (v - xs ! i)) mod 2 ^ 64" using assms(3) by (rule mod_add_cong) simp
  also have "\<dots> = sum_list (xs[i := v]) mod 2 ^ 64" using assms(1) by (simp add: sum_list_update algebra_simps)
  finally show ?thesis .
qed

lemma access_weight: "us_weight (snd (health_access ft ht now b pc)) = us_weight b"
  using access_same [of b ft ht now pc] by (simp add: same_backend_def)

lemma concurrent_inv_step:
  assumes "concurrent_step ft ht s e s'" "concurrent_inv n s"
  shows "concurrent_inv n s'"
  using assms(1)
proof cases
  case (invoke pc)
  then show ?thesis using assms(2) by (simp add: concurrent_inv_def next_entry_def scan_start_def scan_ok_def)
next
  case (step t now pc lb)
  have "pc_ok n (cl_calls s ! t)" using assms(2) step(3) by (simp add: concurrent_inv_def list_all_length)
  then have i: "lb_wf lb \<and> length (lb_pool lb) = n \<and> pc_ok n pc
      \<and> (sum_list (lb_current_weights lb) - pending pc) mod 2 ^ 64
        = (sum_list (lb_current_weights (cl_shared s)) - map pending (cl_calls s) ! t) mod 2 ^ 64"
    using next_step_inv [OF _ _ step(4)] assms(2) step(3) by (auto simp: concurrent_inv_def)
  then have "sum_list (lb_current_weights lb) mod 2 ^ 64 = sum_list ((map pending (cl_calls s))[t := pending pc]) mod 2 ^ 64"
    using assms(2) step(3)
    by (intro mod_sum_update [where a = "sum_list (lb_current_weights (cl_shared s))"]) (auto simp: concurrent_inv_def)
  with i step assms(2) show ?thesis
    by (simp add: concurrent_inv_def list_all_update map_update)
next
  case (env ie)
  have "us_weight (lb_pool (cl_shared s) ! i) \<noteq> 0" if "i < length (lb_pool (cl_shared s))" for i
    using assms(2) that by (simp add: concurrent_inv_def lb_wf_def list_all_length)
  then show ?thesis
    using env assms(2)
    by (auto simp: concurrent_inv_def health_env_def lb_wf_def list_all_update access_weight split: prod.splits)
qed

definition fresh_concurrent :: "nat \<Rightarrow> 'uri concurrent \<Rightarrow> bool" where
  "fresh_concurrent n s \<longleftrightarrow> (\<exists>pool. cl_shared s = balancer_new pool \<and> length pool = n \<and> n < 2 ^ 31
     \<and> list_all (\<lambda>b. us_weight b \<noteq> 0) pool \<and> cl_calls s = [])"

interpretation concurrent: invariant_machine "fresh_concurrent n" "concurrent_step ft ht" "concurrent_inv n"
  for n ft ht
proof (unfold_locales, goal_cases)
  case (1 s)
  then obtain pool where "cl_shared s = balancer_new pool" "length pool = n" "n < 2 ^ 31"
    "list_all (\<lambda>b. us_weight b \<noteq> 0) pool" "cl_calls s = []" by (auto simp: fresh_concurrent_def)
  moreover from this have "lb_wf (balancer_new pool)" by (simp add: balancer_new_wf)
  ultimately show ?case by (simp add: concurrent_inv_def) (simp add: balancer_new_def sum_list_zeros)
qed (rule concurrent_inv_step)

text \<open>
  C6. Concurrent selection conserves the weights: in every interleaving of any number of
  \<open>next\<close> calls with each other and with the single accesses of health calls, the current weights sum (modulo
  \<open>2^64\<close>) to exactly what the unfinished calls have added and still have to subtract, so to
  zero whenever every call has returned; no total ever saturates; and a call that returned
  a backend returned one of the pool.
\<close>

theorem concurrent_selections_conserved:
  assumes "length pool < 2 ^ 31" and "list_all (\<lambda>b. us_weight b \<noteq> 0) pool"
    and "steps (concurrent_step ft ht) \<lparr>cl_shared = balancer_new pool, cl_calls = []\<rparr> es s"
  shows "sum_list (lb_current_weights (cl_shared s)) mod 2 ^ 64 = sum_list (map pending (cl_calls s)) mod 2 ^ 64
    \<and> lb_wf (cl_shared s)
    \<and> ((\<forall>pc\<in>set (cl_calls s). \<exists>r. pc = Returned r) \<longrightarrow> sum_list (lb_current_weights (cl_shared s)) mod 2 ^ 64 = 0)
    \<and> (\<forall>i. Returned (Inr i) \<in> set (cl_calls s) \<longrightarrow> i < length pool)"
proof -
  have "fresh_concurrent (length pool) \<lparr>cl_shared = balancer_new pool, cl_calls = []\<rparr>"
    using assms(1,2) by (auto simp: fresh_concurrent_def)
  then have inv: "concurrent_inv (length pool) s" using assms(3) by (rule concurrent.run_inv)
  have "sum_list (map pending pcs) = 0" if "\<forall>pc\<in>set pcs. \<exists>r. pc = Returned r" for pcs
    using that by (induction pcs) auto
  then show ?thesis using inv by (fastforce simp: concurrent_inv_def list_all_iff)
qed

section \<open>Every call returns\<close>

fun distance :: "nat \<Rightarrow> next_pc \<Rightarrow> nat" where
  "distance n (Scan r) = 4 * (n - sc_idx r) + 3"
| "distance n (Trial r) = 4 * (n - sc_idx r) + 2"
| "distance n (Cooldown r) = 4 * (n - sc_idx r) + 1"
| "distance n (Add r) = 4 * (n - sc_idx r)"
| "distance n (Arm i) = 2"
| "distance n (Store i) = 1"
| "distance n (Returned r) = 0"

lemma distance_decreases:
  assumes "pc_ok (length (lb_pool lb)) pc" "next_step now lb pc = (pc', lb')"
  shows "distance (length (lb_pool lb)) pc' \<le> distance (length (lb_pool lb)) pc - 1"
  using assms by (cases pc) (auto simp: Let_def skip_def split: if_splits option.splits)

lemma distance_0: "pc_ok n pc \<Longrightarrow> distance n pc = 0 \<Longrightarrow> \<exists>r. pc = Returned r"
  by (cases pc) auto

interpretation next_call: wait_free next_step next_entry "health_env ft ht" "concurrent_inv n"
    "distance n" "\<lambda>pc. \<exists>r. pc = Returned r" "4 * n + 3"
  for ft ht n
proof (unfold_locales, goal_cases)
  case (1 c e c')
  then show ?case by (rule concurrent_inv_step)
next
  case (2 c t now)
  then show ?case
    using distance_decreases [of "cl_shared c" "cl_calls c ! t" now]
    by (cases "next_step now (cl_shared c) (cl_calls c ! t)") (auto simp: concurrent_inv_def list_all_length)
next
  case (3 c pc)
  then show ?case using distance_0 by (auto simp: concurrent_inv_def list_all_iff)
next
  case (4 c pc)
  then show ?case by (cases pc) simp_all
qed

text \<open>
  C16. \<open>next\<close> is wait-free: however its steps are interleaved with other calls and with health
  events, a call over \<open>n\<close> backends has returned once it has made \<open>4 n + 3\<close> steps of its own,
  with \<open>NoHealthyUpstream\<close> or an index of the pool.
\<close>

theorem next_wait_free:
  assumes "length pool < 2 ^ 31" and "list_all (\<lambda>b. us_weight b \<noteq> 0) pool"
    and "steps (concurrent_step ft ht) \<lparr>cl_shared = balancer_new pool, cl_calls = []\<rparr> es s"
    and "steps (concurrent_step ft ht) s fs s'" and "t < length (cl_calls s)"
    and "4 * length pool + 3 \<le> length (filter (own_access t) fs)"
  shows "\<exists>r. cl_calls s' ! t = Returned r
    \<and> (case r of Inl e \<Rightarrow> e = NoHealthyUpstream | Inr i \<Rightarrow> i < length pool)"
proof -
  have "fresh_concurrent (length pool) \<lparr>cl_shared = balancer_new pool, cl_calls = []\<rparr>"
    using assms(1,2) by (auto simp: fresh_concurrent_def)
  then have inv: "concurrent_inv (length pool) s" using assms(3) by (rule concurrent.run_inv)
  have "pc_ok (length pool) (cl_calls s' ! t)"
    using next_call.distance_run [OF assms(4) inv assms(5)] by (simp add: concurrent_inv_def list_all_length)
  with next_call.call_returns [OF assms(4) inv assms(5,6)] show ?thesis by (auto split: sum.splits)
qed

section \<open>A double trial\<close>

text \<open>Two calls at one instant, the second overtaking the first before it re-arms the cooldown.\<close>

definition racing_calls :: "instant \<Rightarrow> (instant, next_pc, nat \<times> health_pc \<times> instant) call_event list" where
  "racing_calls now = [Invoke (Scan scan_start), Invoke (Scan scan_start)] @ map (\<lambda>t. Access t now) [0, 0, 0, 1, 1, 1, 0, 1, 0, 1, 0, 1, 0, 1]"

text \<open>
  C22. The half-open limit is not enforced between concurrent calls: for every ejected backend
  whose cooldown has elapsed there is an interleaving of two calls, all at one instant, in
  which both return that backend while it is still ejected, so it receives two trial requests
  in one cooldown window.
\<close>

theorem concurrent_double_trial:
  assumes "trial_ready b now" and "us_weight b \<noteq> 0"
  shows "\<exists>s. steps (concurrent_step ft ht) \<lparr>cl_shared = balancer_new [b], cl_calls = []\<rparr> (racing_calls now) s
    \<and> cl_calls s = [Returned (Inr 0), Returned (Inr 0)]
    \<and> lb_pool (cl_shared s) = [arm_cooldown b now] \<and> \<not> is_healthy (arm_cooldown b now)"
proof -
  let ?init = "\<lparr>cl_shared = balancer_new [b], cl_calls = []\<rparr>"
  have g: "in_i64 0" "i64_min < sat_i64 (wt b)" "i64_min < sat_i64 (wrap_i64 (wt b) + wt b)"
    using sat_current_gt_min [OF _ assms(2), of 0] sat_current_gt_min [OF in_i64_wrap assms(2), of "wt b"]
    by (simp_all add: in_i64_def i64_min_def i64_max_def)
  have h: "\<not> is_healthy b" "us_cooldown_until_ms b \<le> now_ms b now" "\<not> is_healthy (arm_cooldown b now)"
    "arm_cooldown (arm_cooldown b now) now = arm_cooldown b now"
    using assms(1) by (simp_all add: trial_ready_def is_healthy_def arm_cooldown_def)
  have "cl_calls (foldl (apply_event next_step (health_env ft ht)) ?init (racing_calls now)) = [Returned (Inr 0), Returned (Inr 0)]
      \<and> lb_pool (cl_shared (foldl (apply_event next_step (health_env ft ht)) ?init (racing_calls now))) = [arm_cooldown b now]"
    using g h by (simp add: racing_calls_def scan_start_def balancer_new_def Let_def)
  moreover have "runnable next_entry (length (cl_calls ?init)) (racing_calls now)" by (simp add: racing_calls_def next_entry_def)
  ultimately show ?thesis using steps_apply [of next_entry ?init "racing_calls now" next_step "health_env ft ht"] h(3) by blast
qed

section \<open>Concrete runs\<close>

definition ejected_backend :: "string inner_state" where
  "ejected_backend =
     mark_unhealthy (upstream_new \<lparr>vu_uri = ''http://b2:3000'', vu_weight = 5\<rparr> (from_secs 30) 0) 0"

theorem concurrent_double_trial_witness:
  "\<exists>s. steps (concurrent_step 3 1) \<lparr>cl_shared = balancer_new [ejected_backend], cl_calls = []\<rparr>
      (racing_calls (from_secs 31)) s \<and> cl_calls s = [Returned (Inr 0), Returned (Inr 0)]"
proof -
  have "trial_ready ejected_backend (from_secs 31)" "us_weight ejected_backend \<noteq> 0" by code_simp+
  from concurrent_double_trial [OF this] show ?thesis by blast
qed

theorem concurrent_selections_conserved_witness:
  "\<exists>s. steps (concurrent_step 3 1) \<lparr>cl_shared = balancer_new [ejected_backend], cl_calls = []\<rparr>
      (racing_calls (from_secs 31)) s \<and> sum_list (lb_current_weights (cl_shared s)) mod 2 ^ 64 = 0"
proof -
  let ?init = "\<lparr>cl_shared = balancer_new [ejected_backend], cl_calls = []\<rparr>"
  let ?s = "foldl (apply_event next_step (health_env 3 1)) ?init (racing_calls (from_secs 31))"
  have st: "steps (concurrent_step 3 1) ?init (racing_calls (from_secs 31)) ?s"
    by (rule steps_apply) (simp add: racing_calls_def next_entry_def)
  have ok: "length [ejected_backend] < 2 ^ 31" "list_all (\<lambda>b. us_weight b \<noteq> 0) [ejected_backend]"
    by code_simp+
  have calls: "cl_calls ?s = [Returned (Inr 0), Returned (Inr 0)]" by code_simp
  have "\<forall>pc\<in>set (cl_calls ?s). \<exists>r. pc = Returned r" unfolding calls by simp
  then have "sum_list (lb_current_weights (cl_shared ?s)) mod 2 ^ 64 = 0"
    by (rule concurrent_selections_conserved [OF ok st, THEN conjunct2, THEN conjunct2, THEN conjunct1, THEN mp])
  with st show ?thesis by (intro exI [of _ ?s] conjI)
qed

theorem next_wait_free_witness:
  "\<exists>s' r. steps (concurrent_step 3 1) \<lparr>cl_shared = balancer_new [ejected_backend], cl_calls = [Scan scan_start]\<rparr>
      (replicate 7 (Access 0 (from_secs 31))) s' \<and> cl_calls s' ! 0 = Returned r"
proof -
  let ?init = "\<lparr>cl_shared = balancer_new [ejected_backend], cl_calls = []\<rparr>"
  let ?called = "\<lparr>cl_shared = balancer_new [ejected_backend], cl_calls = [Scan scan_start]\<rparr>"
  let ?fs = "replicate 7 (Access 0 (from_secs 31))"
  have ok: "length [ejected_backend] < 2 ^ 31" "list_all (\<lambda>b. us_weight b \<noteq> 0) [ejected_backend]"
    by code_simp+
  have a: "steps (concurrent_step 3 1) ?init [Invoke (Scan scan_start)] ?called"
    using steps_apply [of next_entry ?init "[Invoke (Scan scan_start)]" next_step "health_env 3 1"]
    by (simp add: next_entry_def)
  have b: "steps (concurrent_step 3 1) ?called ?fs (foldl (apply_event next_step (health_env 3 1)) ?called ?fs)"
    by (rule steps_apply) (simp add: numeral_eq_Suc)
  have "0 < length (cl_calls ?called)" "4 * length [ejected_backend] + 3 \<le> length (filter (own_access 0) ?fs)"
    by (simp_all add: own_access_def)
  from next_wait_free [OF ok a b this] b show ?thesis by blast
qed

end
