(* ===== verification/Headers.thy ===== *)
theory Headers
  imports Rust_Net Http_Api
begin

text \<open>
  \<open>headers.rs\<close>: hop-by-hop removal, forwarding headers, host rewriting, response header
  stripping and the two framing checks, over the header map of the http crate. The theorems
  give the whole resulting map: for every name, the value after the operation.
\<close>

section \<open>Operations\<close>

definition connection_names :: "('hm, 'hv) header_api \<Rightarrow> 'hm \<Rightarrow> string list" where
  "connection_names A headers =
     (case Option.bind (hm_get A headers ''connection'') (hv_to_str A) of
        None \<Rightarrow> []
      | Some val \<Rightarrow>
          List.map_filter (\<lambda>s. case hn_from_bytes A (trim s) of Inl _ \<Rightarrow> None | Inr n \<Rightarrow> Some n)
            (split_char (CHR '','') val))"

definition hop_by_hop :: "string list" where
  "hop_by_hop =
     [''connection'', ''keep-alive'', ''proxy-authenticate'', ''proxy-authorization'',
      ''te'', ''trailers'', ''transfer-encoding'', ''upgrade'']"

definition strip_hop_by_hop :: "('hm, 'hv) header_api \<Rightarrow> 'hm \<Rightarrow> 'hm" where
  "strip_hop_by_hop A headers =
     (let conn = connection_names A headers;
          headers1 = fold (\<lambda>name h. hm_remove A h name) conn headers
      in fold (\<lambda>name h. hm_remove A h name) hop_by_hop headers1)"

text \<open>\<open>headers.insert(k, HeaderValue::from_str(s)?)\<close> where an invalid value is skipped.\<close>

definition insert_str :: "('hm, 'hv) header_api \<Rightarrow> 'hm \<Rightarrow> string \<Rightarrow> string \<Rightarrow> 'hm" where
  "insert_str A h k s = (case hv_from_str A s of None \<Rightarrow> h | Some v \<Rightarrow> hm_insert A h k v)"

text \<open>The static protocol texts are visible ASCII, which \<open>from_static\<close> accepts.\<close>

definition inject_forwarding_headers ::
  "('hm, 'hv) header_api \<Rightarrow> 'hm \<Rightarrow> ip_addr \<Rightarrow> bool \<Rightarrow> bool \<Rightarrow> 'hm" where
  "inject_forwarding_headers A headers client_addr client_tls trust_forwarded =
     (let client_ip = show_ip client_addr;
          xff_value =
            (if trust_forwarded
             then (case Option.bind (hm_get A headers ''x-forwarded-for'') (hv_to_str A) of
                     None \<Rightarrow> client_ip
                   | Some existing \<Rightarrow> existing @ '', '' @ client_ip)
             else client_ip);
          h1 = insert_str A headers ''x-forwarded-for'' xff_value;
          h2 = (if \<not> (trust_forwarded \<and> hm_contains_key A h1 ''x-forwarded-proto'')
                then insert_str A h1 ''x-forwarded-proto'' (if client_tls then ''https'' else ''http'')
                else h1)
      in case hm_get A h2 ''host'' of
           None \<Rightarrow> h2
         | Some host \<Rightarrow> hm_insert A h2 ''x-forwarded-host'' host)"

definition rewrite_host :: "('hm, 'hv) header_api \<Rightarrow> 'hm \<Rightarrow> string \<Rightarrow> 'hm" where
  "rewrite_host A headers upstream_auth = insert_str A headers ''host'' upstream_auth"

definition strip_response_headers :: "('hm, 'hv) header_api \<Rightarrow> 'hm \<Rightarrow> string list \<Rightarrow> 'hm" where
  "strip_response_headers A headers names =
     fold (\<lambda>name h. case hn_from_bytes A name of Inl _ \<Rightarrow> h | Inr n \<Rightarrow> hm_remove A h n) names headers"

definition is_smuggling_attempt :: "('hm, 'hv) header_api \<Rightarrow> 'hm \<Rightarrow> bool" where
  "is_smuggling_attempt A headers \<longleftrightarrow>
     hm_contains_key A headers ''content-length'' \<and> hm_contains_key A headers ''transfer-encoding''"

text \<open>The declared length: the first \<open>Content-Length\<close> when it is a \<open>u64\<close> in decimal.\<close>

definition declared_length :: "('hm, 'hv) header_api \<Rightarrow> 'hm \<Rightarrow> u64 option" where
  "declared_length A headers =
     Option.bind (Option.bind (hm_get A headers ''content-length'') (hv_to_str A)) parse_u64"

definition content_length_exceeds :: "('hm, 'hv) header_api \<Rightarrow> 'hm \<Rightarrow> u64 \<Rightarrow> bool" where
  "content_length_exceeds A headers max_bytes \<longleftrightarrow>
     (case declared_length A headers of None \<Rightarrow> False | Some len \<Rightarrow> max_bytes < len)"

section \<open>What the operations do to every header\<close>

lemma get_strip_hop_by_hop:
  assumes "header_laws A"
  shows "hm_get A (strip_hop_by_hop A h) k =
    (if k \<in> set hop_by_hop \<or> k \<in> set (connection_names A h) then None else hm_get A h k)"
  by (simp add: strip_hop_by_hop_def Let_def header_laws.get_fold_remove [OF assms])

lemma get_strip_response_headers:
  assumes "header_laws A"
  shows "hm_get A (strip_response_headers A h names) k =
    (if \<exists>n\<in>set names. hn_from_bytes A n = Inr k then None else hm_get A h k)"
  unfolding strip_response_headers_def
  by (induction names arbitrary: h) (auto simp: header_laws.get_remove [OF assms] split: sum.splits)

lemma visible_ip: "visible_ascii (show_ip ip)"
  using show_ip_visible by (fastforce simp: visible_ascii_def is_ascii_graphic_def)

lemma visible_append: "visible_ascii (s @ t) \<longleftrightarrow> visible_ascii s \<and> visible_ascii t"
  by (auto simp: visible_ascii_def)

lemma visible_protos: "visible_ascii ''http''" "visible_ascii ''https''" "visible_ascii '', ''"
  by (code_simp)+

lemma insert_str_visible:
  assumes "header_laws A" "visible_ascii s"
  obtains v where "hv_from_str A s = Some v" "hv_to_str A v = Some s"
    "insert_str A h k s = hm_insert A h k v"
  using header_laws.from_str_visible [OF assms] that by (auto simp: insert_str_def)

lemma insert_str_other:
  "header_laws A \<Longrightarrow> k' \<noteq> k \<Longrightarrow> hm_get A (insert_str A h k s) k' = hm_get A h k'"
  by (simp add: insert_str_def header_laws.get_insert split: option.splits)

lemma inject_other:
  assumes "header_laws A" "k \<notin> {''x-forwarded-for'', ''x-forwarded-proto'', ''x-forwarded-host''}"
  shows "hm_get A (inject_forwarding_headers A h ip tls tr) k = hm_get A h k"
  using assms(2) unfolding inject_forwarding_headers_def Let_def
  by (auto simp: insert_str_other [OF assms(1)] header_laws.get_insert [OF assms(1)] split: option.splits)

text \<open>The text of a header, as \<open>get(k).and_then(to_str)\<close> reads it.\<close>

definition hdr_text :: "('hm, 'hv) header_api \<Rightarrow> 'hm \<Rightarrow> string \<Rightarrow> string option" where
  "hdr_text A h k = Option.bind (hm_get A h k) (hv_to_str A)"

lemma get_insert_str:
  assumes "header_laws A" "visible_ascii s"
  shows "hdr_text A (insert_str A h k s) k' = (if k' = k then Some s else hdr_text A h k')"
    and "k' \<noteq> k \<Longrightarrow> hm_get A (insert_str A h k s) k' = hm_get A h k'"
    and "hm_contains_key A (insert_str A h k s) k' \<longleftrightarrow> k' = k \<or> hm_contains_key A h k'"
proof -
  obtain v where "hv_to_str A v = Some s" "insert_str A h k s = hm_insert A h k v"
    using insert_str_visible [OF assms] by metis
  then show "hdr_text A (insert_str A h k s) k' = (if k' = k then Some s else hdr_text A h k')"
    and "k' \<noteq> k \<Longrightarrow> hm_get A (insert_str A h k s) k' = hm_get A h k'"
    and "hm_contains_key A (insert_str A h k s) k' \<longleftrightarrow> k' = k \<or> hm_contains_key A h k'"
    by (simp_all add: hdr_text_def header_laws.get_insert [OF assms(1)]
        header_laws.contains_insert [OF assms(1)])
qed



text \<open>
  Only the first \<open>Connection\<close> header is read: with a second \<open>Connection\<close> line that
  names \<open>x-internal\<close>, the header \<open>x-internal\<close> is still there after \<open>strip_hop_by_hop\<close>.
\<close>

theorem second_connection_line_ignored:
  "hm_get ref_headers (strip_hop_by_hop ref_headers
      [(''connection'', ''close''), (''connection'', ''x-internal''), (''x-internal'', ''1'')]) ''x-internal''
   = Some ''1''"
  by code_simp

section \<open>Forwarding metadata\<close>

lemma forwarded_base:
  fixes A :: "('hm, 'hv) header_api" and h :: 'hm and ip :: ip_addr and tls :: bool
  assumes "header_laws A"
  defines "h' \<equiv> insert_str A (insert_str A h ''x-forwarded-for'' (show_ip ip)) ''x-forwarded-proto''
      (if tls then ''https'' else ''http'')"
  shows "inject_forwarding_headers A h ip tls False =
      (case hm_get A h ''host'' of None \<Rightarrow> h' | Some v \<Rightarrow> hm_insert A h' ''x-forwarded-host'' v)"
proof -
  have vis: "visible_ascii (if tls then ''https'' else ''http'')" using visible_protos by simp
  have "hm_get A h' ''host'' = hm_get A h ''host''"
    unfolding h'_def using get_insert_str(2) [OF assms(1) vis] get_insert_str(2) [OF assms(1) visible_ip]
    by simp
  then show ?thesis
    unfolding inject_forwarding_headers_def Let_def h'_def by (auto split: option.splits)
qed



text \<open>
  Without a \<open>Host\<close> header (as in HTTP/2, which uses \<open>:authority\<close>) a client-supplied
  \<open>X-Forwarded-Host\<close> is passed on unchanged even when forwarding headers are not trusted.
\<close>

lemma forwarded_host_spoofable:
  assumes "header_laws A" and "\<not> hm_contains_key A h ''host''"
  shows "hm_get A (inject_forwarding_headers A h ip tls False) ''x-forwarded-host''
       = hm_get A h ''x-forwarded-host''"
proof -
  have vis: "visible_ascii (if tls then ''https'' else ''http'')" using visible_protos by simp
  have "hm_get A h ''host'' = None" using assms by (simp add: header_laws.contains_get)
  then show ?thesis
    using get_insert_str(2) [OF assms(1) visible_ip] get_insert_str(2) [OF assms(1) vis]
    by (simp add: forwarded_base [OF assms(1)])
qed

lemma trusted_visible:
  assumes "header_laws A" "hdr_text A h k = Some s"
  shows "visible_ascii s"
  using assms by (auto simp: hdr_text_def bind_eq_Some_conv dest: header_laws.to_str_visible)

text \<open>
  With trust enabled, the existing \<open>X-Forwarded-For\<close> text is kept as a prefix and the
  address of the connection is appended, and an existing \<open>X-Forwarded-Proto\<close> is kept.
\<close>

theorem trusted_forwarding_appends:
  assumes "header_laws A" and "hdr_text A h ''x-forwarded-for'' = Some s"
    and "hm_contains_key A h ''x-forwarded-proto''"
  shows "hdr_text A (inject_forwarding_headers A h ip tls True) ''x-forwarded-for''
       = Some (s @ '', '' @ show_ip ip)
    \<and> hdr_text A (inject_forwarding_headers A h ip tls True) ''x-forwarded-proto''
       = hdr_text A h ''x-forwarded-proto''"
proof -
  have vis: "visible_ascii (s @ '', '' @ show_ip ip)"
    unfolding visible_append
    using trusted_visible [OF assms(1,2)] visible_ip visible_protos(3) by blast
  show ?thesis
    using assms(2,3) get_insert_str [OF assms(1) vis]
    by (auto simp: inject_forwarding_headers_def Let_def hdr_text_def
        header_laws.get_insert [OF assms(1)] split: option.splits)
qed

end
