(* ===== verification/Regex_Api.thy ===== *)
theory Regex_Api
  imports Rust_Std
begin

text \<open>
  The part of the \<open>regex\<close> crate the masking rules use, as a record of operations that the
  definitions take as an argument. The locale states the documented behaviour of
  \<open>Regex::replace_all\<close> for the one family of patterns the proxy compiles, an escaped
  literal followed by \<open>=([^&]+)\<close>, with the crate's replacement-string syntax.
\<close>

section \<open>Replacement strings\<close>

text \<open>
  \<open>$name\<close> takes the longest run of \<open>[_0-9A-Za-z]\<close>, \<open>${name}\<close> what is between the
  braces, \<open>$$\<close> is a dollar sign, and a name that is no group of the pattern expands to
  nothing. The group function maps the name of a group to the text it matched.
\<close>

definition is_cap_letter :: "char \<Rightarrow> bool" where
  "is_cap_letter c \<longleftrightarrow> is_ascii_digit c \<or> (65 \<le> code c \<and> code c \<le> 90)
     \<or> (97 \<le> code c \<and> code c \<le> 122) \<or> c = CHR ''_''"

definition cap_ref :: "string \<Rightarrow> (string \<times> string) option" where
  "cap_ref s =
     (case s of
        [] \<Rightarrow> None
      | c # s' \<Rightarrow>
          if c = CHR ''{''
          then (case dropWhile (\<lambda>c. c \<noteq> CHR ''}'') s' of
                  [] \<Rightarrow> None
                | _ # rest \<Rightarrow> Some (takeWhile (\<lambda>c. c \<noteq> CHR ''}'') s', rest))
          else if is_cap_letter c
          then Some (takeWhile is_cap_letter s, dropWhile is_cap_letter s)
          else None)"

lemma cap_ref_length: "cap_ref s = Some (name, rest) \<Longrightarrow> length rest < length s"
proof -
  assume a: "cap_ref s = Some (name, rest)"
  then obtain c s' where s: "s = c # s'" by (cases s) (auto simp: cap_ref_def)
  show ?thesis
  proof (cases "c = CHR ''{''")
    case True
    with a s have "\<exists>d. dropWhile (\<lambda>c. c \<noteq> CHR ''}'') s' = d # rest"
      by (auto simp: cap_ref_def split: list.splits)
    then show ?thesis
      using length_dropWhile_le [of "\<lambda>c. c \<noteq> CHR ''}''" s'] s by auto
  next
    case False
    with a s show ?thesis
      using length_dropWhile_le [of is_cap_letter s']
      by (auto simp: cap_ref_def split: if_splits)
  qed
qed

function expand :: "(string \<Rightarrow> string option) \<Rightarrow> string \<Rightarrow> string" where
  "expand grp [] = []"
| "expand grp (c # s) =
     (if c \<noteq> CHR ''$'' then c # expand grp s
      else if s \<noteq> [] \<and> hd s = CHR ''$'' then CHR ''$'' # expand grp (tl s)
      else case cap_ref s of
             None \<Rightarrow> CHR ''$'' # expand grp s
           | Some (name, rest) \<Rightarrow> (case grp name of None \<Rightarrow> [] | Some t \<Rightarrow> t) @ expand grp rest)"
  by pat_completeness auto
termination
  by (relation "measure (length \<circ> snd)") (auto simp: le_imp_less_Suc dest: cap_ref_length)

lemma expand_no_dollar: "CHR ''$'' \<notin> set t \<Longrightarrow> expand grp t = t"
  by (induction t) auto

section \<open>Leftmost non-overlapping replacement\<close>

text \<open>Where the pattern of a parameter matches, and what it matches.\<close>

definition param_match :: "string \<Rightarrow> string \<Rightarrow> bool" where
  "param_match p s \<longleftrightarrow> starts_with s (p @ ''='')
     \<and> (case drop (Suc (length p)) s of [] \<Rightarrow> False | c # _ \<Rightarrow> c \<noteq> CHR ''&'')"

definition param_value :: "string \<Rightarrow> string \<Rightarrow> string" where
  "param_value p s = takeWhile (\<lambda>c. c \<noteq> CHR ''&'') (drop (Suc (length p)) s)"

definition param_rest :: "string \<Rightarrow> string \<Rightarrow> string" where
  "param_rest p s = dropWhile (\<lambda>c. c \<noteq> CHR ''&'') (drop (Suc (length p)) s)"

definition param_groups :: "string \<Rightarrow> string \<Rightarrow> string \<Rightarrow> string option" where
  "param_groups p s name =
     (case digits_value 0 (strip_plus name) of
        Some n \<Rightarrow>
          if strip_plus name = [] then None
          else if n = 0 then Some (p @ ''='' @ param_value p s)
          else if n = 1 then Some (param_value p s) else None
      | None \<Rightarrow> None)"

lemma length_param_rest: "length (param_rest p (c # s)) < length (c # s)"
  using length_dropWhile_le [of "\<lambda>c. c \<noteq> CHR ''&''" "drop (Suc (length p)) (c # s)"]
  by (simp add: param_rest_def)

function replace_param :: "string \<Rightarrow> string \<Rightarrow> string \<Rightarrow> string" where
  "replace_param p tmpl [] = []"
| "replace_param p tmpl (c # s) =
     (if param_match p (c # s)
      then expand (param_groups p (c # s)) tmpl @ replace_param p tmpl (param_rest p (c # s))
      else c # replace_param p tmpl s)"
  by pat_completeness auto
termination
  using length_param_rest by (relation "measure (length \<circ> snd \<circ> snd)") auto

section \<open>The interface\<close>

record 'rx regex_api =
  rx_escape :: "string \<Rightarrow> string"
  rx_new :: "string \<Rightarrow> string + 'rx"
  rx_replace_all :: "'rx \<Rightarrow> string \<Rightarrow> string \<Rightarrow> string"

definition mask_pattern :: "'rx regex_api \<Rightarrow> string \<Rightarrow> string" where
  "mask_pattern X p = rx_escape X p @ ''=([^&]+)''"

locale regex_laws =
  fixes X :: "'rx regex_api"
  assumes replace_all_mask:
    "rx_new X (mask_pattern X p) = Inr r \<Longrightarrow> rx_replace_all X r h t = replace_param p t h"

text \<open>
  The reference instance escapes as the crate does, compiles patterns of the family only,
  and represents a compiled pattern by its literal.
\<close>

definition is_meta :: "char \<Rightarrow> bool" where
  "is_meta c \<longleftrightarrow> c \<in> set ''.+*?()|[]{}^$#&-~'' \<or> code c = 92"

fun ref_escape :: "string \<Rightarrow> string" where
  "ref_escape [] = []"
| "ref_escape (c # s) = (if is_meta c then [char_of (92::nat), c] else [c]) @ ref_escape s"

fun ref_unescape :: "string \<Rightarrow> string" where
  "ref_unescape [] = []"
| "ref_unescape [c] = [c]"
| "ref_unescape (c # d # s) =
     (if code c = 92 then d # ref_unescape s else c # ref_unescape (d # s))"

definition ref_rx_new :: "string \<Rightarrow> string + string" where
  "ref_rx_new s =
     (if drop (length s - 8) s = ''=([^&]+)'' then Inr (ref_unescape (take (length s - 8) s))
      else Inl ''regex parse error'')"

definition ref_regex :: "string regex_api" where
  "ref_regex =
     \<lparr>rx_escape = ref_escape, rx_new = ref_rx_new, rx_replace_all = (\<lambda>p h t. replace_param p t h)\<rparr>"

lemma is_meta_backslash: "code c = 92 \<Longrightarrow> is_meta c"
  by (simp add: is_meta_def)

lemma ref_unescape_Cons: "code c \<noteq> 92 \<Longrightarrow> ref_unescape (c # s) = c # ref_unescape s"
  by (cases s) auto

lemma ref_unescape_escape: "ref_unescape (ref_escape p) = p"
proof (induction p)
  case (Cons c p)
  have "code (char_of (92::nat)) = 92" by (simp add: code_def)
  with Cons show ?case
    using is_meta_backslash [of c] ref_unescape_Cons [of c "ref_escape p"]
    by (cases "is_meta c") auto
qed simp

lemma ref_rx_new_pattern: "ref_rx_new (ref_escape p @ ''=([^&]+)'') = Inr p"
  by (simp add: ref_rx_new_def ref_unescape_escape)

interpretation ref_rx: regex_laws ref_regex
  by unfold_locales (simp add: ref_regex_def mask_pattern_def ref_rx_new_pattern)

section \<open>Masking a query string segment by segment\<close>

text \<open>
  For a parameter name without \<open>&\<close>, replacing with a literal acts on each
  \<open>&\<close>-separated segment on its own: the first occurrence of \<open>name=\<close> with something
  after it is replaced together with the rest of the segment.
\<close>

fun mask_segment :: "string \<Rightarrow> string \<Rightarrow> string" where
  "mask_segment p [] = []"
| "mask_segment p (c # s) =
     (if starts_with (c # s) (p @ ''='') \<and> drop (length p) s \<noteq> []
      then p @ ''=****'' else c # mask_segment p s)"

lemma starts_with_append_iff: "starts_with s p \<longleftrightarrow> (\<exists>t. s = p @ t)"
  by (induction s p rule: starts_with.induct) auto

lemma split_char_no_sep: "d \<notin> set s \<Longrightarrow> split_char d s = [s]"
  by (induction s) auto

lemma split_char_append: "d \<notin> set s \<Longrightarrow> split_char d (s @ d # t) = s # split_char d t"
  by (induction s) auto

lemma split_char_nonempty [simp]: "split_char d s \<noteq> []"
  by (induction s) (auto split: list.splits)

lemma takeWhile_amp:
  "CHR ''&'' \<notin> set s \<Longrightarrow> t = [] \<or> hd t = CHR ''&'' \<Longrightarrow>
   dropWhile (\<lambda>c. c \<noteq> CHR ''&'') (s @ t) = t"
  by (cases t) (induction s; auto)+

text \<open>Inside one segment (up to an ampersand or the end) the two agree.\<close>

lemma starts_with_app_seg:
  assumes "CHR ''&'' \<notin> set q" "t = [] \<or> hd t = CHR ''&''"
  shows "starts_with (s @ t) q \<longleftrightarrow> starts_with s q"
proof
  assume "starts_with (s @ t) q"
  then obtain u where u: "s @ t = q @ u" by (auto simp: starts_with_append_iff)
  show "starts_with s q"
  proof (cases "length q \<le> length s")
    case True
    with u have "q = take (length q) s" by (metis append_eq_conv_conj take_append diff_is_0_eq' take0 append_Nil2)
    then show ?thesis by (metis append_take_drop_id starts_with_append_iff)
  next
    case False
    with u have l: "length s < length q" and "t \<noteq> []" by auto
    then have "(q @ u) ! length s = hd t" by (metis u nth_append_length hd_Cons_tl)
    with l have "hd t \<in> set q" by (metis nth_append nth_mem)
    with assms \<open>t \<noteq> []\<close> show ?thesis by auto
  qed
qed (auto simp: starts_with_append_iff)

lemma replace_param_segment:
  assumes "CHR ''&'' \<notin> set p" "CHR ''$'' \<notin> set p" "CHR ''&'' \<notin> set s"
    and "t = [] \<or> hd t = CHR ''&''"
  shows "replace_param p (p @ ''=****'') (s @ t)
       = mask_segment p s @ replace_param p (p @ ''=****'') t"
  using assms(3)
proof (induction s)
  case (Cons c s)
  have sw: "starts_with (c # s @ t) (p @ ''='') \<longleftrightarrow> starts_with (c # s) (p @ ''='')"
    using starts_with_app_seg [of "p @ ''=''" t "c # s"] assms(1,4) by simp
  show ?case
  proof (cases "starts_with (c # s) (p @ ''='')")
    case True
    then obtain v where v: "c # s = p @ ''='' @ v" by (auto simp: starts_with_append_iff)
    then have dr: "drop (length p) s = v"
      by (metis append.assoc append_eq_conv_conj drop_Suc_Cons length_append_singleton)
    have drt: "drop (length p) (s @ t) = v @ t"
      using v dr by (metis append.assoc append_Cons append_eq_conv_conj drop_Suc_Cons length_append_singleton)
    have nv: "CHR ''&'' \<notin> set v" using Cons.prems v
      by (metis Un_iff set_append)
    have rest: "param_rest p (c # s @ t) = t"
      using takeWhile_amp [OF nv assms(4)] drt by (simp add: param_rest_def)
    have m: "param_match p (c # s @ t) \<longleftrightarrow> v \<noteq> []"
      using True sw nv drt assms(4) by (cases v; cases t) (auto simp: param_match_def)
    have ex: "expand grp (p @ ''=****'') = p @ ''=****''" for grp
      using assms(2) by (intro expand_no_dollar) simp
    show ?thesis
    proof (cases "v = []")
      case True
      then show ?thesis using m dr Cons by simp
    next
      case False
      then show ?thesis using m dr rest ex \<open>starts_with (c # s) (p @ ''='')\<close>
        by (simp add: ex)
    qed
  next
    case False
    then have "\<not> param_match p (c # s @ t)" using sw by (simp add: param_match_def)
    with False Cons show ?thesis by simp
  qed
qed simp

lemma mask_segment_no_amp:
  "CHR ''&'' \<notin> set p \<Longrightarrow> CHR ''&'' \<notin> set s \<Longrightarrow> CHR ''&'' \<notin> set (mask_segment p s)"
  by (induction s) auto

lemma replace_param_amp:
  assumes "CHR ''&'' \<notin> set p"
  shows "replace_param p tmpl (CHR ''&'' # s) = CHR ''&'' # replace_param p tmpl s"
  using assms by (cases p) (simp_all add: param_match_def)

lemma replace_param_by_segment:
  assumes "CHR ''&'' \<notin> set p" "CHR ''$'' \<notin> set p"
  shows "split_char (CHR ''&'') (replace_param p (p @ ''=****'') t)
       = map (mask_segment p) (split_char (CHR ''&'') t)"
proof (induction t rule: length_induct)
  case (1 t)
  let ?s = "takeWhile (\<lambda>c. c \<noteq> CHR ''&'') t" and ?r = "dropWhile (\<lambda>c. c \<noteq> CHR ''&'') t"
  have t: "t = ?s @ ?r" by (rule takeWhile_dropWhile_id [symmetric])
  have s: "CHR ''&'' \<notin> set ?s" by (auto dest: set_takeWhileD)
  have r: "?r = [] \<or> hd ?r = CHR ''&''" using hd_dropWhile [of "\<lambda>c. c \<noteq> CHR ''&''" t] by blast
  have rep: "replace_param p (p @ ''=****'') t
      = mask_segment p ?s @ replace_param p (p @ ''=****'') ?r"
    using replace_param_segment [OF assms s r] t by simp
  show ?case
  proof (cases ?r)
    case Nil
    then have "t = ?s" using t by (metis append_Nil2)
    then show ?thesis using rep s mask_segment_no_amp [OF assms(1) s] Nil
      by (metis append_Nil2 list.simps(8) list.simps(9) replace_param.simps(1) split_char_no_sep)
  next
    case (Cons c u)
    with r have c: "c = CHR ''&''" by simp
    have len: "length u < length t" using t Cons by (metis le_eq_less_or_eq length_Cons length_append less_SucI not_less_eq not_add_less2)
    have "split_char (CHR ''&'') t = ?s # split_char (CHR ''&'') u"
      using split_char_append [OF s, of u] t Cons c by metis
    moreover have "replace_param p (p @ ''=****'') t
        = mask_segment p ?s @ CHR ''&'' # replace_param p (p @ ''=****'') u"
      using rep Cons c replace_param_amp [OF assms(1)] by metis
    ultimately show ?thesis
      using "1.IH" len split_char_append [OF mask_segment_no_amp [OF assms(1) s]] by simp
  qed
qed

text \<open>What masking achieves in a segment, and that a later rule does not undo it.\<close>

definition segment_masked :: "string \<Rightarrow> string \<Rightarrow> bool" where
  "segment_masked p s \<longleftrightarrow> (\<forall>a v. s = a @ p @ ''='' @ v \<longrightarrow> v = [] \<or> v = ''****'')"

lemma append_eq_split_last:
  assumes "a @ x # u = b @ x # w" "x \<notin> set w"
  shows "\<exists>z. b = a @ z \<and> x # u = z @ x # w"
proof -
  from assms(1) consider z where "b = a @ z" "x # u = z @ x # w" | z where "a = b @ z" "z @ x # u = x # w"
    by (auto simp: append_eq_append_conv2)
  then show ?thesis
  proof cases
    case (2 z)
    then show ?thesis using assms(2) by (cases z) auto
  qed blast
qed

lemma mask_segment_split:
  assumes "mask_segment p s \<noteq> s"
  obtains a v where "s = a @ p @ ''='' @ v" "v \<noteq> []" "mask_segment p s = a @ p @ ''=****''"
proof -
  have "\<exists>a v. s = a @ p @ ''='' @ v \<and> v \<noteq> [] \<and> mask_segment p s = a @ p @ ''=****''"
    using assms
  proof (induction s)
    case (Cons c s)
    show ?case
    proof (cases "starts_with (c # s) (p @ ''='') \<and> drop (length p) s \<noteq> []")
      case True
      then obtain v where v: "c # s = p @ ''='' @ v" by (auto simp: starts_with_append_iff)
      then have "drop (length p) s = v"
        by (metis append.assoc append_eq_conv_conj drop_Suc_Cons length_append_singleton)
      with True have "v \<noteq> []" "mask_segment p (c # s) = [] @ p @ ''=****''" by simp_all
      with v show ?thesis by (metis append_Nil)
    next
      case False
      then have "mask_segment p s \<noteq> s" and m: "mask_segment p (c # s) = c # mask_segment p s"
        using Cons.prems by auto
      with Cons.IH obtain a v where "s = a @ p @ ''='' @ v" "v \<noteq> []" "mask_segment p s = a @ p @ ''=****''"
        by blast
      with m show ?thesis by (intro exI [of _ "c # a"] exI [of _ v]) simp
    qed
  qed simp
  then show ?thesis using that by blast
qed

lemma mask_segment_first:
  assumes "s = a @ p @ ''='' @ v" "v \<noteq> []"
  shows "\<exists>b w. mask_segment p s = b @ p @ ''=****'' \<and> s = b @ p @ ''='' @ w \<and> length b \<le> length a"
  using assms
proof (induction s arbitrary: a)
  case (Cons c s)
  show ?case
  proof (cases "starts_with (c # s) (p @ ''='') \<and> drop (length p) s \<noteq> []")
    case True
    then obtain w where w: "c # s = p @ ''='' @ w" by (auto simp: starts_with_append_iff)
    moreover from True have "mask_segment p (c # s) = [] @ p @ ''=****''" by simp
    ultimately show ?thesis by (metis append_Nil le0 list.size(3))
  next
    case False
    have "a \<noteq> []"
    proof
      assume a: "a = []"
      then have "c # s = p @ ''='' @ v" using Cons.prems by simp
      then have "starts_with (c # s) (p @ ''='')" "drop (length p) s = v"
        by (auto simp: starts_with_append_iff)
           (metis append.assoc append_eq_conv_conj drop_Suc_Cons length_append_singleton append_Cons append_Nil)
      with False Cons.prems show False by simp
    qed
    then obtain a' where a: "a = c # a'" "s = a' @ p @ ''='' @ v" using Cons.prems by (cases a) auto
    from Cons.IH [OF a(2) Cons.prems(2)] obtain b w where
      "mask_segment p s = b @ p @ ''=****''" "s = b @ p @ ''='' @ w" "length b \<le> length a'" by blast
    then show ?thesis using False a by (intro exI [of _ "c # b"] exI [of _ w]) auto
  qed
qed simp

lemma segment_masked_step:
  assumes "segment_masked p s"
  shows "segment_masked p (mask_segment q s)"
proof (cases "mask_segment q s = s")
  case False
  then obtain b w where b: "s = b @ q @ ''='' @ w" "w \<noteq> []" "mask_segment q s = b @ q @ ''=****''"
    by (rule mask_segment_split)
  show ?thesis
    unfolding segment_masked_def
  proof (intro allI impI)
    fix a v assume eq: "mask_segment q s = a @ p @ ''='' @ v"
    then have "(a @ p) @ CHR ''='' # v = (b @ q) @ CHR ''='' # ''****''" using b(3) by simp
    from append_eq_split_last [OF this] obtain z where
      z: "b @ q = (a @ p) @ z" "CHR ''='' # v = z @ CHR ''='' # ''****''" by auto
    show "v = [] \<or> v = ''****''"
    proof (cases z)
      case (Cons x y)
      then have "s = a @ p @ ''='' @ y @ ''='' @ w" using z b(1) by auto
      then have "y @ ''='' @ w = [] \<or> y @ ''='' @ w = ''****''"
        using assms unfolding segment_masked_def by blast
      moreover have "CHR ''='' \<in> set (y @ ''='' @ w)" by simp
      moreover have "CHR ''='' \<notin> set ''****''" by simp
      ultimately show ?thesis by (metis append_is_Nil_conv not_Cons_self2)
    qed (use z in simp)
  qed
qed (simp add: assms)

lemma segment_masked_mask: "segment_masked p (mask_segment p s)"
proof (cases "\<exists>a v. s = a @ p @ ''='' @ v \<and> v \<noteq> []")
  case False
  then have "mask_segment p s = s" by (metis mask_segment_split)
  with False show ?thesis by (auto simp: segment_masked_def)
next
  case True
  then obtain b w where b: "mask_segment p s = b @ p @ ''=****''" "s = b @ p @ ''='' @ w"
    using mask_segment_first by blast
  have least: "length b \<le> length a" if "s = a @ p @ ''='' @ v" "v \<noteq> []" for a v
    using mask_segment_first [OF that] b(1) by (metis append_same_eq)
  show ?thesis
    unfolding segment_masked_def
  proof (intro allI impI)
    fix a v assume "mask_segment p s = a @ p @ ''='' @ v"
    then have "(a @ p) @ CHR ''='' # v = (b @ p) @ CHR ''='' # ''****''" using b(1) by simp
    from append_eq_split_last [OF this] obtain z where
      z: "b @ p = (a @ p) @ z" "CHR ''='' # v = z @ CHR ''='' # ''****''" by auto
    show "v = [] \<or> v = ''****''"
    proof (cases z)
      case (Cons x y)
      then have "s = a @ p @ ''='' @ y @ ''='' @ w" using z b(2) by auto
      then have "length b \<le> length a" using least [of a "y @ ''='' @ w"] by simp
      moreover have "length b + length p = length a + length p + length z"
        using z(1) by (metis length_append)
      ultimately show ?thesis using Cons by simp
    qed (use z in simp)
  qed
qed

end
