(* ===== verification/Config_Load.thy ===== *)
theory Config_Load
  imports Config_Types Proxy_Error Regex_Api
begin

text \<open>
  \<open>config.rs\<close>: loading, validation and the runtime configuration. \<open>into_runtime\<close> is the
  source's function with its checks in order; each group of checks is a definition. The
  theorems give the exact condition under which a configuration is accepted, what an
  accepted one guarantees to the rest of the proxy, and what masking does to a text.
\<close>

section \<open>Loading\<close>

text \<open>\<open>read\<close> is \<open>fs::read_to_string\<close>, \<open>toml\<close> is \<open>toml::from_str\<close>; both give the display
  text of their error.\<close>

definition load_from_file ::
  "(string \<Rightarrow> string + string) \<Rightarrow> (string \<Rightarrow> string + config) \<Rightarrow> string
     \<Rightarrow> (proxy_error, config) result" where
  "load_from_file read toml file_path =
     and_then (map_err (\<lambda>e. Config (''failed to read '' @ file_path @ '': '' @ e)) (read file_path))
       (\<lambda>contents. map_err (\<lambda>e. Config (''failed to parse config: '' @ e)) (toml contents))"

section \<open>Validation\<close>

definition quoted :: "string \<Rightarrow> string" where
  "quoted s = [char_of (34::nat)] @ s @ [char_of (34::nat)]"

definition validate_upstream ::
  "'uri uri_api \<Rightarrow> string \<Rightarrow> u32 \<Rightarrow> (proxy_error, 'uri validated_upstream) result" where
  "validate_upstream U address weight =
     and_then (reject_if (address = []) (InvalidUpstream ''upstream address must not be empty'')) (\<lambda>_.
     and_then (map_err InvalidUpstream (uri_parse U address)) (\<lambda>uri.
     and_then (ok_or (InvalidUpstream (''upstream URI has no authority: '' @ address))
                 (uri_authority U uri)) (\<lambda>_.
     and_then (reject_if (weight = 0) (Config (''upstream weight must be positive: '' @ address))) (\<lambda>_.
     Inr \<lparr>vu_uri = uri, vu_weight = weight\<rparr>))))"

text \<open>The search for the first upstream whose URI is already in the \<open>HashSet\<close> of the
  earlier ones.\<close>

fun find_duplicate ::
  "('uri \<Rightarrow> 'uri \<Rightarrow> bool) \<Rightarrow> 'uri list \<Rightarrow> 'uri validated_upstream list
     \<Rightarrow> 'uri validated_upstream option" where
  "find_duplicate eq seen [] = None"
| "find_duplicate eq seen (u # us) =
     (if list_ex (\<lambda>v. eq v (vu_uri u)) seen then Some u
      else find_duplicate eq (vu_uri u # seen) us)"

definition validate_upstreams ::
  "'uri uri_api \<Rightarrow> upstream_config list \<Rightarrow> (proxy_error, 'uri validated_upstream list) result" where
  "validate_upstreams U ucs =
     and_then (collect_map (\<lambda>u. validate_upstream U (uc_address u) (uc_weight u)) ucs) (\<lambda>upstreams.
     case find_duplicate (uri_eq U) [] upstreams of
       Some dup \<Rightarrow> Inl (Config (''duplicate upstream address: '' @ uri_show U (vu_uri dup)))
     | None \<Rightarrow> Inr upstreams)"

definition parse_listen :: "string option \<Rightarrow> (proxy_error, socket_addr) result" where
  "parse_listen l =
     (let listen_str = (case l of None \<Rightarrow> DEFAULT_LISTEN_ADDR | Some s \<Rightarrow> s) in
      map_err (\<lambda>e. Config (''invalid listen address '' @ quoted listen_str @ '': '' @ e))
        (parse_socket_addr listen_str))"

definition parse_blocked_headers ::
  "('hm, 'hv) header_api \<Rightarrow> string list \<Rightarrow> (proxy_error, string list) result" where
  "parse_blocked_headers A hs =
     collect_map (\<lambda>h. map_err (\<lambda>e. Config (''invalid blocked header name '' @ quoted h @ '': '' @ e))
       (hn_from_bytes A h)) hs"

definition compile_mask_rule ::
  "'rx regex_api \<Rightarrow> string \<Rightarrow> (proxy_error, 'rx mask_rule) result" where
  "compile_mask_rule X param =
     (case rx_new X (rx_escape X param @ ''=([^&]+)'') of
        Inl e \<Rightarrow> Inl (Config (''invalid mask pattern for '' @ param @ '': '' @ e))
      | Inr pattern \<Rightarrow> Inr \<lparr>mr_param = param, mr_pattern = pattern\<rparr>)"

definition unwrap_or :: "'a \<Rightarrow> 'a option \<Rightarrow> 'a" where
  "unwrap_or d x = (case x of None \<Rightarrow> d | Some a \<Rightarrow> a)"

definition check_rate_limit :: "rate_limit_config option \<Rightarrow> (proxy_error, unit) result" where
  "check_rate_limit r =
     (case r of None \<Rightarrow> Inr ()
      | Some rl \<Rightarrow>
          and_then (reject_if (rl_requests_per_second rl = 0)
            (Config ''rate_limit.requests_per_second must be positive'')) (\<lambda>_.
          reject_if (rl_burst rl = 0) (Config ''rate_limit.burst must be positive'')))"

definition check_health_check :: "health_check_config option \<Rightarrow> (proxy_error, unit) result" where
  "check_health_check h =
     (case h of None \<Rightarrow> Inr ()
      | Some hc \<Rightarrow>
          and_then (reject_if (hc_unhealthy_threshold hc = 0)
            (Config ''health_check.unhealthy_threshold must be positive'')) (\<lambda>_.
          and_then (reject_if (hc_healthy_threshold hc = 0)
            (Config ''health_check.healthy_threshold must be positive'')) (\<lambda>_.
          and_then (reject_if (hc_interval hc = 0)
            (Config ''health_check.interval must be positive'')) (\<lambda>_.
          and_then (reject_if (hc_timeout hc = 0)
            (Config ''health_check.timeout must be positive'')) (\<lambda>_.
          reject_if (\<not> starts_with (hc_path hc) ''/'')
            (Config (''health_check.path must begin with '' @ [char_of (39::nat)] @ ''/''
               @ [char_of (39::nat)] @ '': '' @ quoted (hc_path hc))))))))"

definition parse_admin ::
  "admin_config option \<Rightarrow> socket_addr \<Rightarrow> (proxy_error, socket_addr option) result" where
  "parse_admin admin listen =
     and_then
       (case admin of None \<Rightarrow> Inr None
        | Some a \<Rightarrow>
            and_then (map_err (\<lambda>e. Config (''invalid admin listen address '' @ quoted (ad_listen a)
                         @ '': '' @ e)) (parse_socket_addr (ad_listen a))) (\<lambda>addr. Inr (Some addr)))
       (\<lambda>admin_listen.
     and_then (reject_if (admin_listen = Some listen)
       (Config ''admin.listen must differ from the data-plane listen address'')) (\<lambda>_.
     Inr admin_listen))"

definition into_runtime ::
  "'uri uri_api \<Rightarrow> ('hm, 'hv) header_api \<Rightarrow> 'rx regex_api \<Rightarrow> config
     \<Rightarrow> (proxy_error, ('uri, 'rx) runtime_config) result" where
  "into_runtime U A X cfg =
     and_then (reject_if (cfg_upstreams cfg = [])
       (Config ''at least one upstream must be configured'')) (\<lambda>_.
     and_then (parse_listen (cfg_listen cfg)) (\<lambda>listen.
     and_then (validate_upstreams U (cfg_upstreams cfg)) (\<lambda>upstreams.
     and_then (parse_blocked_headers A (cfg_blocked_headers cfg)) (\<lambda>blocked_headers.
     and_then (collect_map (compile_mask_rule X) (cfg_masked_params cfg)) (\<lambda>mask_rules.
     let max_body_size = unwrap_or DEFAULT_MAX_BODY_SIZE (cfg_max_body_size cfg);
         mask_max_body_size = unwrap_or DEFAULT_MASK_MAX_BODY_SIZE (cfg_mask_max_body_size cfg) in
     and_then (reject_if (mask_max_body_size = 0)
       (Config ''mask_max_body_size must be positive'')) (\<lambda>_.
     let strip_response_headers = map to_ascii_lowercase (cfg_strip_response_headers cfg) in
     and_then (reject_if (to_connect (cfg_timeouts cfg) = 0)
       (Config ''timeouts.connect must be positive'')) (\<lambda>_.
     and_then (reject_if (to_request (cfg_timeouts cfg) = 0)
       (Config ''timeouts.request must be positive'')) (\<lambda>_.
     let max_concurrent_requests =
           unwrap_or DEFAULT_MAX_CONCURRENT_REQUESTS (cfg_max_concurrent_requests cfg) in
     and_then (reject_if (max_concurrent_requests = 0)
       (Config ''max_concurrent_requests must be positive'')) (\<lambda>_.
     let max_connections = unwrap_or DEFAULT_MAX_CONNECTIONS (cfg_max_connections cfg) in
     and_then (reject_if (max_connections = 0)
       (Config ''max_connections must be positive'')) (\<lambda>_.
     let header_read_timeout =
           unwrap_or DEFAULT_HEADER_READ_TIMEOUT (map_option from_secs (cfg_header_read_timeout cfg)) in
     and_then (reject_if (header_read_timeout = 0)
       (Config ''header_read_timeout must be positive'')) (\<lambda>_.
     and_then (check_rate_limit (cfg_rate_limit cfg)) (\<lambda>_.
     and_then (check_health_check (cfg_health_check cfg)) (\<lambda>_.
     let failure_threshold =
           unwrap_or DEFAULT_FAILURE_THRESHOLD (map_option hc_unhealthy_threshold (cfg_health_check cfg));
         healthy_threshold =
           unwrap_or DEFAULT_HEALTHY_THRESHOLD (map_option hc_healthy_threshold (cfg_health_check cfg));
         health_check_cooldown =
           unwrap_or DEFAULT_HEALTH_CHECK_COOLDOWN
             (map_option (\<lambda>hc. from_secs (hc_cooldown hc)) (cfg_health_check cfg)) in
     and_then (parse_admin (cfg_admin cfg) listen) (\<lambda>admin_listen.
     let shutdown_timeout =
           unwrap_or DEFAULT_SHUTDOWN_TIMEOUT (map_option from_secs (cfg_shutdown_timeout cfg)) in
     Inr \<lparr>rt_listen = listen,
          rt_upstreams = upstreams,
          rt_blocked_headers = blocked_headers,
          rt_blocked_params = cfg_blocked_params cfg,
          rt_mask_rules = mask_rules,
          rt_max_body_size = max_body_size,
          rt_mask_max_body_size = mask_max_body_size,
          rt_strip_response_headers = strip_response_headers,
          rt_trust_forwarded_headers = cfg_trust_forwarded_headers cfg,
          rt_connect_timeout = from_secs (to_connect (cfg_timeouts cfg)),
          rt_request_timeout = from_secs (to_request (cfg_timeouts cfg)),
          rt_pool_idle_timeout = from_secs (po_idle_timeout (cfg_pool cfg)),
          rt_pool_max_idle_per_host = po_max_idle_per_host (cfg_pool cfg),
          rt_max_concurrent_requests = max_concurrent_requests,
          rt_max_connections = max_connections,
          rt_header_read_timeout = header_read_timeout,
          rt_tls = cfg_tls cfg,
          rt_health_check = cfg_health_check cfg,
          rt_failure_threshold = failure_threshold,
          rt_healthy_threshold = healthy_threshold,
          rt_health_check_cooldown = health_check_cooldown,
          rt_rate_limit = cfg_rate_limit cfg,
          rt_admin_listen = admin_listen,
          rt_shutdown_timeout = shutdown_timeout\<rparr>))))))))))))))"

section \<open>Operations on the runtime configuration\<close>

definition has_https_upstream :: "'uri uri_api \<Rightarrow> ('uri, 'rx) runtime_config \<Rightarrow> bool" where
  "has_https_upstream U rt \<longleftrightarrow>
     list_ex (\<lambda>u. case uri_scheme U (vu_uri u) of
        None \<Rightarrow> False | Some s \<Rightarrow> eq_ignore_ascii_case s ''https'') (rt_upstreams rt)"

definition mask_sensitive_data ::
  "'rx regex_api \<Rightarrow> ('uri, 'rx) runtime_config \<Rightarrow> string \<Rightarrow> string" where
  "mask_sensitive_data X rt data =
     foldl (\<lambda>acc rule. rx_replace_all X (mr_pattern rule) acc (mr_param rule @ ''=****''))
       data (rt_mask_rules rt)"

section \<open>When a configuration is accepted\<close>

text \<open>The declarative reading of the schema: what must hold of each key.\<close>

definition upstream_valid :: "'uri uri_api \<Rightarrow> upstream_config \<Rightarrow> bool" where
  "upstream_valid U u \<longleftrightarrow> uc_address u \<noteq> [] \<and> uc_weight u \<noteq> 0
     \<and> (case uri_parse U (uc_address u) of Inl _ \<Rightarrow> False | Inr uri \<Rightarrow> uri_authority U uri \<noteq> None)"

definition upstream_uri :: "'uri uri_api \<Rightarrow> upstream_config \<Rightarrow> 'uri" where
  "upstream_uri U u = projr (uri_parse U (uc_address u))"

definition rate_limit_valid :: "rate_limit_config \<Rightarrow> bool" where
  "rate_limit_valid rl \<longleftrightarrow> rl_requests_per_second rl \<noteq> 0 \<and> rl_burst rl \<noteq> 0"

definition health_check_valid :: "health_check_config \<Rightarrow> bool" where
  "health_check_valid hc \<longleftrightarrow> hc_unhealthy_threshold hc \<noteq> 0 \<and> hc_healthy_threshold hc \<noteq> 0
     \<and> hc_interval hc \<noteq> 0 \<and> hc_timeout hc \<noteq> 0 \<and> (\<exists>p. hc_path hc = CHR ''/'' # p)"

definition config_valid ::
  "'uri uri_api \<Rightarrow> ('hm, 'hv) header_api \<Rightarrow> 'rx regex_api \<Rightarrow> config \<Rightarrow> bool" where
  "config_valid U A X cfg \<longleftrightarrow>
     cfg_upstreams cfg \<noteq> []
   \<and> (\<forall>u\<in>set (cfg_upstreams cfg). upstream_valid U u)
   \<and> sorted_wrt (\<lambda>a b. \<not> uri_eq U a b) (map (upstream_uri U) (cfg_upstreams cfg))
   \<and> (\<forall>h\<in>set (cfg_blocked_headers cfg). \<exists>n. hn_from_bytes A h = Inr n)
   \<and> (\<forall>p\<in>set (cfg_masked_params cfg). \<exists>r. rx_new X (mask_pattern X p) = Inr r)
   \<and> to_connect (cfg_timeouts cfg) \<noteq> 0 \<and> to_request (cfg_timeouts cfg) \<noteq> 0
   \<and> cfg_mask_max_body_size cfg \<noteq> Some 0 \<and> cfg_max_concurrent_requests cfg \<noteq> Some 0
   \<and> cfg_max_connections cfg \<noteq> Some 0 \<and> cfg_header_read_timeout cfg \<noteq> Some 0
   \<and> pred_option rate_limit_valid (cfg_rate_limit cfg)
   \<and> pred_option health_check_valid (cfg_health_check cfg)
   \<and> (\<exists>l. parse_socket_addr (unwrap_or DEFAULT_LISTEN_ADDR (cfg_listen cfg)) = Inr l
        \<and> pred_option (\<lambda>a. \<exists>l'. parse_socket_addr (ad_listen a) = Inr l' \<and> l' \<noteq> l) (cfg_admin cfg))"

lemma unwrap_or_zero_iff: "d \<noteq> z \<Longrightarrow> unwrap_or d x = z \<longleftrightarrow> x = Some z"
  by (cases x) (simp_all add: unwrap_or_def)

lemma defaults_nonzero:
  "DEFAULT_MASK_MAX_BODY_SIZE \<noteq> 0" "DEFAULT_MAX_CONCURRENT_REQUESTS \<noteq> 0"
  "DEFAULT_MAX_CONNECTIONS \<noteq> 0" "DEFAULT_FAILURE_THRESHOLD \<noteq> 0" "DEFAULT_HEALTHY_THRESHOLD \<noteq> 0"
  by (simp_all add: DEFAULT_MASK_MAX_BODY_SIZE_def DEFAULT_MAX_CONCURRENT_REQUESTS_def
      DEFAULT_MAX_CONNECTIONS_def DEFAULT_FAILURE_THRESHOLD_def DEFAULT_HEALTHY_THRESHOLD_def)

lemma header_read_timeout_zero:
  "unwrap_or DEFAULT_HEADER_READ_TIMEOUT (map_option from_secs x) = 0 \<longleftrightarrow> x = Some 0"
  by (cases x) (auto simp: unwrap_or_def DEFAULT_HEADER_READ_TIMEOUT_def from_secs_def unat_eq_0)

lemma validate_upstream_Inr_iff:
  "validate_upstream U (uc_address u) (uc_weight u) = Inr v \<longleftrightarrow>
     upstream_valid U u \<and> v = \<lparr>vu_uri = upstream_uri U u, vu_weight = uc_weight u\<rparr>"
  by (cases "uri_parse U (uc_address u)")
     (auto simp: validate_upstream_def upstream_valid_def upstream_uri_def result_simps)

lemma find_duplicate_None_iff:
  "find_duplicate eq seen us = None \<longleftrightarrow>
     sorted_wrt (\<lambda>a b. \<not> eq a b) (map vu_uri us) \<and> (\<forall>s\<in>set seen. \<forall>u\<in>set us. \<not> eq s (vu_uri u))"
  by (induction us arbitrary: seen) (auto simp: list_ex_iff)

lemma validated_list:
  "list_all2 (\<lambda>u v. P u \<and> v = f u) us vs \<longleftrightarrow> (\<forall>u\<in>set us. P u) \<and> vs = map f us"
  by (induction us arbitrary: vs) (auto simp: list_all2_Cons1)

lemma validate_upstreams_Inr_iff:
  "validate_upstreams U ucs = Inr vs \<longleftrightarrow>
     (\<forall>u\<in>set ucs. upstream_valid U u)
   \<and> sorted_wrt (\<lambda>a b. \<not> uri_eq U a b) (map (upstream_uri U) ucs)
   \<and> vs = map (\<lambda>u. \<lparr>vu_uri = upstream_uri U u, vu_weight = uc_weight u\<rparr>) ucs"
proof -
  let ?vs = "map (\<lambda>u. \<lparr>vu_uri = upstream_uri U u, vu_weight = uc_weight u\<rparr>) ucs"
  have "map vu_uri ?vs = map (upstream_uri U) ucs" by simp
  then have "find_duplicate (uri_eq U) [] ?vs = None \<longleftrightarrow>
      sorted_wrt (\<lambda>a b. \<not> uri_eq U a b) (map (upstream_uri U) ucs)"
    by (simp only: find_duplicate_None_iff) simp
  then show ?thesis
    by (auto simp: validate_upstreams_def result_simps validate_upstream_Inr_iff validated_list
        split: option.splits)
qed

lemma check_rate_limit_Inr_iff: "check_rate_limit r = Inr u \<longleftrightarrow> pred_option rate_limit_valid r"
  by (cases r) (auto simp: check_rate_limit_def rate_limit_valid_def result_simps)

lemma starts_with_slash: "starts_with s ''/'' \<longleftrightarrow> (\<exists>p. s = CHR ''/'' # p)"
  by (cases s) auto

lemma check_health_check_Inr_iff: "check_health_check h = Inr u \<longleftrightarrow> pred_option health_check_valid h"
  by (cases h) (auto simp: check_health_check_def health_check_valid_def starts_with_slash result_simps)

lemma parse_admin_Inr_iff:
  "parse_admin a l = Inr r \<longleftrightarrow>
     (case a of None \<Rightarrow> r = None
      | Some c \<Rightarrow> \<exists>l'. parse_socket_addr (ad_listen c) = Inr l' \<and> l' \<noteq> l \<and> r = Some l')"
  by (cases a) (auto simp: parse_admin_def result_simps)

lemma parse_listen_Inr_iff:
  "parse_listen x = Inr l \<longleftrightarrow> parse_socket_addr (unwrap_or DEFAULT_LISTEN_ADDR x) = Inr l"
  by (cases x) (simp_all add: parse_listen_def unwrap_or_def Let_def)

lemma compile_mask_rule_Inr_iff:
  "compile_mask_rule X p = Inr r \<longleftrightarrow>
     (\<exists>x. rx_new X (mask_pattern X p) = Inr x \<and> r = \<lparr>mr_param = p, mr_pattern = x\<rparr>)"
  by (auto simp: compile_mask_rule_def mask_pattern_def split: sum.splits)

lemmas config_simps = result_simps unwrap_or_zero_iff [OF defaults_nonzero(1)]
  unwrap_or_zero_iff [OF defaults_nonzero(2)] unwrap_or_zero_iff [OF defaults_nonzero(3)]
  header_read_timeout_zero validate_upstreams_Inr_iff check_rate_limit_Inr_iff
  check_health_check_Inr_iff parse_admin_Inr_iff parse_listen_Inr_iff compile_mask_rule_Inr_iff

lemma blocked_headers_ex_iff:
  "(\<exists>ns. parse_blocked_headers A hs = Inr ns) \<longleftrightarrow> (\<forall>h\<in>set hs. \<exists>n. hn_from_bytes A h = Inr n)"
  by (simp add: parse_blocked_headers_def collect_map_ex_Inr_iff)

lemma mask_rules_ex_iff:
  "(\<exists>rs. collect_map (compile_mask_rule X) ps = Inr rs) \<longleftrightarrow>
     (\<forall>p\<in>set ps. \<exists>r. rx_new X (mask_pattern X p) = Inr r)"
  by (auto simp: collect_map_ex_Inr_iff compile_mask_rule_Inr_iff)

lemma admin_ex_iff:
  "(\<exists>r. parse_admin a l = Inr r) \<longleftrightarrow>
     pred_option (\<lambda>a. \<exists>l'. parse_socket_addr (ad_listen a) = Inr l' \<and> l' \<noteq> l) a"
  by (cases a) (auto simp: parse_admin_Inr_iff)

text \<open>Every value an accepted configuration binds, in one statement.\<close>

lemma into_runtime_Inr_all:
  assumes "into_runtime U A X cfg = Inr rt"
  shows "cfg_upstreams cfg \<noteq> []
    \<and> parse_listen (cfg_listen cfg) = Inr (rt_listen rt)
    \<and> validate_upstreams U (cfg_upstreams cfg) = Inr (rt_upstreams rt)
    \<and> parse_blocked_headers A (cfg_blocked_headers cfg) = Inr (rt_blocked_headers rt)
    \<and> collect_map (compile_mask_rule X) (cfg_masked_params cfg) = Inr (rt_mask_rules rt)
    \<and> rt_mask_max_body_size rt \<noteq> 0 \<and> rt_max_concurrent_requests rt \<noteq> 0
    \<and> rt_max_connections rt \<noteq> 0 \<and> 0 < rt_header_read_timeout rt
    \<and> 0 < rt_connect_timeout rt \<and> 0 < rt_request_timeout rt
    \<and> check_rate_limit (cfg_rate_limit cfg) = Inr () \<and> rt_rate_limit rt = cfg_rate_limit cfg
    \<and> check_health_check (cfg_health_check cfg) = Inr ()
    \<and> rt_health_check rt = cfg_health_check cfg
    \<and> parse_admin (cfg_admin cfg) (rt_listen rt) = Inr (rt_admin_listen rt)
    \<and> rt_failure_threshold rt =
      unwrap_or DEFAULT_FAILURE_THRESHOLD (map_option hc_unhealthy_threshold (cfg_health_check cfg))
    \<and> rt_healthy_threshold rt =
      unwrap_or DEFAULT_HEALTHY_THRESHOLD (map_option hc_healthy_threshold (cfg_health_check cfg))
    \<and> rt_strip_response_headers rt = map to_ascii_lowercase (cfg_strip_response_headers cfg)"
  using assms unfolding into_runtime_def Let_def and_then_Inr_iff reject_if_Inr_iff
  by (elim exE conjE) (simp only: sum.inject, hypsubst, simp)

text \<open>
  C13. Acceptance is exactly the declarative reading of the schema: \<open>into_runtime\<close> returns a
  runtime configuration if and only if there is an upstream, every upstream has a non-empty
  parseable address with an authority and a positive weight, no two upstream URIs are equal,
  every blocked header is a header name, every mask pattern compiles, every limit, timeout
  and threshold that is given is positive, the probe path starts with a slash, and the admin
  address parses and differs from the listen address.
\<close>

theorem into_runtime_accepts_iff:
  "(\<exists>rt. into_runtime U A X cfg = Inr rt) \<longleftrightarrow> config_valid U A X cfg"
proof
  assume "\<exists>rt. into_runtime U A X cfg = Inr rt"
  then obtain rt where rt: "into_runtime U A X cfg = Inr rt" ..
  note facts = into_runtime_Inr_all [OF rt]
  have "\<forall>h\<in>set (cfg_blocked_headers cfg). \<exists>n. hn_from_bytes A h = Inr n"
    using facts blocked_headers_ex_iff by blast
  moreover have "\<forall>p\<in>set (cfg_masked_params cfg). \<exists>r. rx_new X (mask_pattern X p) = Inr r"
    using facts mask_rules_ex_iff by blast
  moreover have "pred_option (\<lambda>a. \<exists>l'. parse_socket_addr (ad_listen a) = Inr l' \<and> l' \<noteq> rt_listen rt)
      (cfg_admin cfg)"
    using facts admin_ex_iff by blast
  moreover have "to_connect (cfg_timeouts cfg) \<noteq> 0 \<and> to_request (cfg_timeouts cfg) \<noteq> 0
      \<and> cfg_mask_max_body_size cfg \<noteq> Some 0 \<and> cfg_max_concurrent_requests cfg \<noteq> Some 0
      \<and> cfg_max_connections cfg \<noteq> Some 0 \<and> cfg_header_read_timeout cfg \<noteq> Some 0"
    using rt by (auto simp: into_runtime_def Let_def config_simps)
  ultimately show "config_valid U A X cfg"
    using facts by (auto simp: config_valid_def config_simps)
next
  assume v: "config_valid U A X cfg"
  then obtain l where l: "parse_listen (cfg_listen cfg) = Inr l"
      "\<exists>r. parse_admin (cfg_admin cfg) l = Inr r"
    by (auto simp: config_valid_def parse_listen_Inr_iff admin_ex_iff)
  have "\<exists>vs. validate_upstreams U (cfg_upstreams cfg) = Inr vs"
    using v by (simp add: config_valid_def validate_upstreams_Inr_iff)
  moreover have "\<exists>ns. parse_blocked_headers A (cfg_blocked_headers cfg) = Inr ns"
    using v by (simp add: config_valid_def blocked_headers_ex_iff)
  moreover have "\<exists>rs. collect_map (compile_mask_rule X) (cfg_masked_params cfg) = Inr rs"
    using v by (simp add: config_valid_def mask_rules_ex_iff)
  moreover have "check_rate_limit (cfg_rate_limit cfg) = Inr ()"
      "check_health_check (cfg_health_check cfg) = Inr ()"
    using v by (simp_all add: config_valid_def check_rate_limit_Inr_iff check_health_check_Inr_iff)
  ultimately show "\<exists>rt. into_runtime U A X cfg = Inr rt"
    using v l unfolding config_valid_def
    by (auto simp: into_runtime_def Let_def reject_if_def header_read_timeout_zero
        unwrap_or_zero_iff defaults_nonzero)
qed


text \<open>The guarantees the rest of the proxy builds on.\<close>

definition runtime_ok :: "'uri uri_api \<Rightarrow> ('uri, 'rx) runtime_config \<Rightarrow> bool" where
  "runtime_ok U rt \<longleftrightarrow>
     rt_upstreams rt \<noteq> []
   \<and> (\<forall>u\<in>set (rt_upstreams rt). vu_weight u \<noteq> 0 \<and> uri_authority U (vu_uri u) \<noteq> None)
   \<and> sorted_wrt (\<lambda>u v. \<not> uri_eq U (vu_uri u) (vu_uri v)) (rt_upstreams rt)
   \<and> rt_mask_max_body_size rt \<noteq> 0 \<and> rt_max_concurrent_requests rt \<noteq> 0 \<and> rt_max_connections rt \<noteq> 0
   \<and> 0 < rt_header_read_timeout rt \<and> 0 < rt_connect_timeout rt \<and> 0 < rt_request_timeout rt
   \<and> rt_failure_threshold rt \<noteq> 0 \<and> rt_healthy_threshold rt \<noteq> 0
   \<and> pred_option rate_limit_valid (rt_rate_limit rt)
   \<and> pred_option health_check_valid (rt_health_check rt)
   \<and> rt_admin_listen rt \<noteq> Some (rt_listen rt)"

text \<open>
  C26. Fail closed: a configuration that passes \<open>into_runtime\<close> has at least one upstream,
  all with an authority, a positive weight and pairwise different URIs; positive body
  ceiling for masking, concurrency and connection limits, timeouts and health thresholds;
  a usable rate limit; and an admin listener that is not the data-plane listener.
\<close>

theorem into_runtime_fails_closed:
  assumes "into_runtime U A X cfg = Inr rt"
  shows "runtime_ok U rt"
proof -
  note facts = into_runtime_Inr_all [OF assms]
  have hc: "pred_option health_check_valid (cfg_health_check cfg)"
    and rl: "pred_option rate_limit_valid (cfg_rate_limit cfg)"
    using facts check_health_check_Inr_iff check_rate_limit_Inr_iff by blast+
  have us: "\<forall>u\<in>set (cfg_upstreams cfg). upstream_valid U u"
      "sorted_wrt (\<lambda>a b. \<not> uri_eq U a b) (map (upstream_uri U) (cfg_upstreams cfg))"
      "rt_upstreams rt = map (\<lambda>u. \<lparr>vu_uri = upstream_uri U u, vu_weight = uc_weight u\<rparr>) (cfg_upstreams cfg)"
    using facts by (simp_all add: validate_upstreams_Inr_iff)
  have "\<forall>u\<in>set (rt_upstreams rt). vu_weight u \<noteq> 0 \<and> uri_authority U (vu_uri u) \<noteq> None"
  proof -
    have "uc_weight u \<noteq> 0 \<and> uri_authority U (upstream_uri U u) \<noteq> None" if "upstream_valid U u" for u
      using that by (cases "uri_parse U (uc_address u)") (auto simp: upstream_valid_def upstream_uri_def)
    with us(1) show ?thesis by (auto simp: us(3))
  qed
  moreover have "sorted_wrt (\<lambda>u v. \<not> uri_eq U (vu_uri u) (vu_uri v)) (rt_upstreams rt)"
    using us(2) by (simp add: us(3) sorted_wrt_map)
  moreover have "rt_failure_threshold rt \<noteq> 0" "rt_healthy_threshold rt \<noteq> 0"
    using facts hc defaults_nonzero
    by (auto simp: unwrap_or_def health_check_valid_def split: option.splits)
  moreover have "rt_admin_listen rt \<noteq> Some (rt_listen rt)"
    using facts by (auto simp: parse_admin_Inr_iff split: option.splits)
  ultimately show ?thesis using facts us(3) hc rl by (simp add: runtime_ok_def)
qed

text \<open>A configuration with two weighted upstreams, one masked parameter and an admin port.\<close>

definition sample_config :: config where
  "sample_config = default_config
     \<lparr>cfg_upstreams := [\<lparr>uc_address = ''http://a:3000'', uc_weight = 3\<rparr>,
                         \<lparr>uc_address = ''https://b'', uc_weight = 1\<rparr>],
      cfg_blocked_headers := [''X-Secret''], cfg_blocked_params := [''token''],
      cfg_masked_params := [''password'', ''pin''],
      cfg_rate_limit := Some default_rate_limit_config,
      cfg_health_check := Some default_health_check_config,
      cfg_admin := Some \<lparr>ad_listen = ''127.0.0.1:9090''\<rparr>\<rparr>"

definition sample_runtime :: "(ref_uri, string) runtime_config" where
  "sample_runtime =
     \<lparr>rt_listen = SocketV4 (V4 127 0 0 1) 8100,
      rt_upstreams =
        [\<lparr>vu_uri = \<lparr>ru_scheme = Some ''http'', ru_authority = Some ''a:3000'', ru_pq = Some ''/''\<rparr>, vu_weight = 3\<rparr>,
         \<lparr>vu_uri = \<lparr>ru_scheme = Some ''https'', ru_authority = Some ''b'', ru_pq = Some ''/''\<rparr>, vu_weight = 1\<rparr>],
      rt_blocked_headers = [''x-secret''], rt_blocked_params = [''token''],
      rt_mask_rules = [\<lparr>mr_param = ''password'', mr_pattern = ''password''\<rparr>, \<lparr>mr_param = ''pin'', mr_pattern = ''pin''\<rparr>],
      rt_max_body_size = 10485760, rt_mask_max_body_size = 1048576, rt_strip_response_headers = [],
      rt_trust_forwarded_headers = False, rt_connect_timeout = from_secs 5,
      rt_request_timeout = from_secs 30, rt_pool_idle_timeout = from_secs 60,
      rt_pool_max_idle_per_host = 32, rt_max_concurrent_requests = 1000, rt_max_connections = 10000,
      rt_header_read_timeout = from_secs 10, rt_tls = None,
      rt_health_check = Some default_health_check_config, rt_failure_threshold = 3,
      rt_healthy_threshold = 1, rt_health_check_cooldown = from_secs 30,
      rt_rate_limit = Some default_rate_limit_config,
      rt_admin_listen = Some (SocketV4 (V4 127 0 0 1) 9090), rt_shutdown_timeout = from_secs 30\<rparr>"

lemma sample_runtime_ok: "into_runtime ref_uris ref_headers ref_regex sample_config = Inr sample_runtime"
  by code_simp

theorem into_runtime_fails_closed_witness:
  "into_runtime ref_uris ref_headers ref_regex sample_config = Inr sample_runtime
   \<and> runtime_ok ref_uris sample_runtime"
  using into_runtime_fails_closed [OF sample_runtime_ok] sample_runtime_ok by simp

section \<open>Masking\<close>

lemma mask_rules_compiled:
  assumes "into_runtime U A X cfg = Inr rt" "rule \<in> set (rt_mask_rules rt)"
  shows "rx_new X (mask_pattern X (mr_param rule)) = Inr (mr_pattern rule)"
proof -
  have "list_all2 (\<lambda>p r. compile_mask_rule X p = Inr r) (cfg_masked_params cfg) (rt_mask_rules rt)"
    using into_runtime_Inr_all [OF assms(1)] by (simp add: collect_map_Inr_iff)
  then obtain p where "compile_mask_rule X p = Inr rule"
    using assms(2) by (auto simp: list_all2_conv_all_nth in_set_conv_nth)
  then show ?thesis by (auto simp: compile_mask_rule_Inr_iff)
qed

lemma mask_rule_params:
  assumes "into_runtime U A X cfg = Inr rt"
  shows "map mr_param (rt_mask_rules rt) = cfg_masked_params cfg"
proof -
  have "list_all2 (\<lambda>p r. compile_mask_rule X p = Inr r) (cfg_masked_params cfg) (rt_mask_rules rt)"
    using into_runtime_Inr_all [OF assms] by (simp add: collect_map_Inr_iff)
  then show ?thesis
    by (intro nth_equalityI) (auto simp: list_all2_conv_all_nth compile_mask_rule_Inr_iff)
qed

definition plain_param :: "string \<Rightarrow> bool" where
  "plain_param p \<longleftrightarrow> CHR ''&'' \<notin> set p \<and> CHR ''$'' \<notin> set p"

lemma mask_fold_by_segment:
  assumes "regex_laws X"
    and "\<forall>rule\<in>set rules. rx_new X (mask_pattern X (mr_param rule)) = Inr (mr_pattern rule)
            \<and> plain_param (mr_param rule)"
  shows "split_char (CHR ''&'') (foldl (\<lambda>acc rule. rx_replace_all X (mr_pattern rule) acc
             (mr_param rule @ ''=****'')) data rules)
       = foldl (\<lambda>segs p. map (mask_segment p) segs) (split_char (CHR ''&'') data) (map mr_param rules)"
  using assms(2)
proof (induction rules arbitrary: data)
  case (Cons rule rules)
  then have "rx_replace_all X (mr_pattern rule) data (mr_param rule @ ''=****'')
      = replace_param (mr_param rule) (mr_param rule @ ''=****'') data"
    by (intro regex_laws.replace_all_mask [OF assms(1)]) simp
  with Cons show ?case
    using replace_param_by_segment [of "mr_param rule" data] by (simp add: plain_param_def)
qed simp

lemma masked_after_fold:
  assumes "p \<in> set ps \<or> (\<forall>s\<in>set segs. segment_masked p s)"
    and "s \<in> set (foldl (\<lambda>segs p. map (mask_segment p) segs) segs ps)"
  shows "segment_masked p s"
  using assms
proof (induction ps arbitrary: segs)
  case (Cons q ps)
  have "p \<in> set ps \<or> (\<forall>s\<in>set (map (mask_segment q) segs). segment_masked p s)"
    using Cons.prems(1) by (auto simp: segment_masked_mask segment_masked_step)
  then show ?case using Cons.IH [of "map (mask_segment q) segs"] Cons.prems(2) by auto
qed simp

lemma mask_sensitive_data_masked:
  assumes "regex_laws X" and "into_runtime U A X cfg = Inr rt"
    and "\<forall>p\<in>set (cfg_masked_params cfg). plain_param p"
    and "p \<in> set (cfg_masked_params cfg)"
    and "seg \<in> set (split_char (CHR ''&'') (mask_sensitive_data X rt data))"
  shows "segment_masked p seg"
proof -
  have "\<forall>rule\<in>set (rt_mask_rules rt). rx_new X (mask_pattern X (mr_param rule)) = Inr (mr_pattern rule)
            \<and> plain_param (mr_param rule)"
    using mask_rules_compiled [OF assms(2)] mask_rule_params [OF assms(2)] assms(3)
    by (metis image_eqI list.set_map)
  from mask_fold_by_segment [OF assms(1) this, of data] mask_rule_params [OF assms(2)]
  have "seg \<in> set (foldl (\<lambda>segs p. map (mask_segment p) segs) (split_char (CHR ''&'') data)
      (cfg_masked_params cfg))"
    using assms(5) by (simp add: mask_sensitive_data_def)
  then show ?thesis using masked_after_fold assms(4) by blast
qed

text \<open>
  C27. Masking leaves no value of a masked parameter: when the configured names contain
  neither an ampersand nor a dollar sign, then in every ampersand-separated segment of the
  masked text, whatever follows an occurrence of \<open>name=\<close> is empty or exactly four
  asterisks. Several rules compose: a later rule never uncovers what an earlier one hid.
\<close>

theorem masking_hides_values:
  assumes "regex_laws X" and "into_runtime U A X cfg = Inr rt"
    and "\<forall>p\<in>set (cfg_masked_params cfg). plain_param p"
    and "p \<in> set (cfg_masked_params cfg)"
    and "seg \<in> set (split_char (CHR ''&'') (mask_sensitive_data X rt data))"
    and "seg = a @ p @ ''='' @ v"
  shows "v = [] \<or> v = ''****''"
  using mask_sensitive_data_masked [OF assms(1-5)] assms(6) unfolding segment_masked_def by blast

theorem masking_hides_values_witness:
  "mask_sensitive_data ref_regex sample_runtime ''user=bob&password=hunter2&pin=''
     = ''user=bob&password=****&pin=''
   \<and> (''****'' = [] \<or> ''****'' = ''****'')"
proof -
  let ?t = "mask_sensitive_data ref_regex sample_runtime ''user=bob&password=hunter2&pin=''"
  have t: "?t = ''user=bob&password=****&pin=''" by code_simp
  have "\<forall>p\<in>set (cfg_masked_params sample_config). plain_param p" by code_simp
  moreover have "''password'' \<in> set (cfg_masked_params sample_config)" by code_simp
  moreover have "''password=****'' \<in> set (split_char (CHR ''&'') ?t)" unfolding t by code_simp
  moreover have "''password=****'' = [] @ ''password'' @ ''='' @ ''****''" by simp
  ultimately have "''****'' = [] \<or> ''****'' = ''****''"
    by (rule masking_hides_values [OF ref_rx.regex_laws_axioms sample_runtime_ok])
  with t show ?thesis by simp
qed


text \<open>
  The replacement text is a regex template, so a dollar sign in a masked name is
  expanded: with the one masked parameter \<open>pay$1\<close>, every text
  \<open>pay$1=value\<close> is rewritten to \<open>pay\<close>, the value itself, and \<open>=****\<close>: the value is
  disclosed, whatever the ampersand-free value is.
\<close>

lemma dollar_name_discloses_value:
  assumes "regex_laws X" and "rx_new X (mask_pattern X ''pay$1'') = Inr r"
    and "rt_mask_rules rt = [\<lparr>mr_param = ''pay$1'', mr_pattern = r\<rparr>]"
    and "secret \<noteq> []" and "CHR ''&'' \<notin> set secret"
  shows "mask_sensitive_data X rt (''pay$1='' @ secret) = ''pay'' @ secret @ ''=****''"
proof -
  have d: "dropWhile (\<lambda>c. c \<noteq> CHR ''&'') secret = []" "takeWhile (\<lambda>c. c \<noteq> CHR ''&'') secret = secret"
    using assms(5) by (auto simp: takeWhile_eq_all_conv)
  obtain c cs where s: "secret = c # cs" "c \<noteq> CHR ''&''" using assms(4,5) by (cases secret) auto
  have m: "param_match ''pay$1'' (''pay$1='' @ secret)"
    "param_rest ''pay$1'' (''pay$1='' @ secret) = []"
    "param_value ''pay$1'' (''pay$1='' @ secret) = secret"
    using s d by (simp_all add: param_match_def param_rest_def param_value_def)
  have g: "param_groups ''pay$1'' (''pay$1='' @ secret) ''1'' = Some secret"
    unfolding param_groups_def m(3)
    by (simp add: strip_plus_def to_digit_def is_ascii_digit_def code_def)
  have "cap_ref ''1=****'' = Some (''1'', ''=****'')" by code_simp
  with g have "expand (param_groups ''pay$1'' (''pay$1='' @ secret)) ''pay$1=****''
      = ''pay'' @ secret @ ''=****''" by simp
  with m have "replace_param ''pay$1'' ''pay$1=****'' (''pay$1='' @ secret) = ''pay'' @ secret @ ''=****''"
    by simp
  then show ?thesis
    using assms(3) regex_laws.replace_all_mask [OF assms(1,2)] by (simp add: mask_sensitive_data_def)
qed

lemma validate_schemeless:
  assumes "uri_parse U addr = Inr uri" and "addr \<noteq> []" and "uri_authority U uri = Some auth"
    and "weight \<noteq> 0"
  shows "validate_upstream U addr weight = Inr \<lparr>vu_uri = uri, vu_weight = weight\<rparr>"
  using assms by (simp add: validate_upstream_def)

end
