(* ===== verification/Rate_Limit.thy ===== *)
theory Rate_Limit
  imports Config_Load
begin

text \<open>
  \<open>rate_limit.rs\<close>: the per-IP limiter. The keyed limiter of the \<open>governor\<close> crate is a
  parameter; the locale states that keys are independent and that pruning is unobservable,
  through a relation of limiters that cannot be told apart by one key from an instant on.
\<close>

section \<open>The keyed limiter (crate governor)\<close>

text \<open>
  \<open>gv_dashmap rps burst\<close> is \<open>RateLimiter::dashmap(Quota::per_second(rps).allow_burst(burst))\<close>;
  the instants are the clock readings of the calls.
\<close>

record ('lim, 'neg) governor_api =
  gv_dashmap :: "u32 \<Rightarrow> u32 \<Rightarrow> 'lim"
  gv_check_key :: "'lim \<Rightarrow> ip_addr \<Rightarrow> instant \<Rightarrow> ('neg, unit) result \<times> 'lim"
  gv_wait_time_from :: "'neg \<Rightarrow> instant \<Rightarrow> duration"
  gv_retain_recent :: "'lim \<Rightarrow> instant \<Rightarrow> 'lim"
  gv_len :: "'lim \<Rightarrow> usize"

section \<open>The wrapper\<close>

definition limiter_from_config ::
  "('lim, 'neg) governor_api \<Rightarrow> rate_limit_config \<Rightarrow> (proxy_error, 'lim) result" where
  "limiter_from_config G config =
     and_then (reject_if (rl_requests_per_second config = 0)
       (Internal ''requests_per_second must be non-zero'')) (\<lambda>_.
     and_then (reject_if (rl_burst config = 0) (Internal ''burst must be non-zero'')) (\<lambda>_.
     Inr (gv_dashmap G (rl_requests_per_second config) (rl_burst config))))"

text \<open>\<open>check\<close>: \<open>now\<close> is the reading inside \<open>check_key\<close>, \<open>later\<close> that of the wait time.\<close>

definition limiter_check ::
  "('lim, 'neg) governor_api \<Rightarrow> 'lim \<Rightarrow> ip_addr \<Rightarrow> instant \<Rightarrow> instant
     \<Rightarrow> (u64, unit) result \<times> 'lim" where
  "limiter_check G limiter ip now later =
     (case gv_check_key G limiter ip now of
        (r, limiter') \<Rightarrow>
          (map_err (\<lambda>not_until. try_from_or_max (as_millis (gv_wait_time_from G not_until later))) r,
           limiter'))"

definition limiter_retain_recent :: "('lim, 'neg) governor_api \<Rightarrow> 'lim \<Rightarrow> instant \<Rightarrow> 'lim" where
  "limiter_retain_recent G limiter now = gv_retain_recent G limiter now"

definition tracked_ip_count :: "('lim, 'neg) governor_api \<Rightarrow> 'lim \<Rightarrow> usize" where
  "tracked_ip_count G limiter = gv_len G limiter"

section \<open>Independence of keys\<close>

datatype limiter_event = Check ip_addr instant | Prune instant

fun event_time :: "limiter_event \<Rightarrow> instant" where
  "event_time (Check ip t) = t"
| "event_time (Prune t) = t"

fun limiter_step :: "('lim, 'neg) governor_api \<Rightarrow> 'lim \<Rightarrow> limiter_event \<Rightarrow> 'lim" where
  "limiter_step G l (Check ip t) = snd (limiter_check G l ip t t)"
| "limiter_step G l (Prune t) = limiter_retain_recent G l t"

fun not_about :: "ip_addr \<Rightarrow> limiter_event \<Rightarrow> bool" where
  "not_about ip (Check ip' t) \<longleftrightarrow> ip' \<noteq> ip"
| "not_about ip (Prune t) \<longleftrightarrow> True"

locale governor_laws =
  fixes G :: "('lim, 'neg) governor_api"
    and same :: "instant \<Rightarrow> ip_addr \<Rightarrow> 'lim \<Rightarrow> 'lim \<Rightarrow> bool"
  assumes same_refl: "same t ip l l"
    and same_later: "same t ip l l' \<Longrightarrow> t \<le> t' \<Longrightarrow> same t' ip l l'"
    and same_trans: "same t ip l l' \<Longrightarrow> same t ip l' l'' \<Longrightarrow> same t ip l l''"
    and other_key: "ip \<noteq> ip' \<Longrightarrow> same t ip l (snd (gv_check_key G l ip' t))"
    and retain: "same t ip l (gv_retain_recent G l t)"
    and same_verdict: "same t ip l l' \<Longrightarrow> fst (gv_check_key G l ip t) = fst (gv_check_key G l' ip t)"
begin

lemma run_same:
  assumes "list_all (not_about ip) es" "sorted (map event_time es)" "\<forall>e\<in>set es. event_time e \<le> t"
  shows "same t ip l (foldl (limiter_step G) l es)"
  using assms
proof (induction es arbitrary: l)
  case (Cons e es)
  have "same (event_time e) ip l (limiter_step G l e)"
    using Cons.prems(1) other_key retain
    by (cases e) (auto simp: limiter_check_def limiter_retain_recent_def split: prod.splits, metis snd_conv)
  then have "same t ip l (limiter_step G l e)" using same_later Cons.prems(3) by simp
  moreover have "same t ip (limiter_step G l e) (foldl (limiter_step G) (limiter_step G l e) es)"
    using Cons.IH Cons.prems by simp
  ultimately show ?case using same_trans by simp
qed (simp add: same_refl)

end

text \<open>
  The reference instance is the generic cell rate algorithm: a theoretical arrival time per
  key, one emission interval per admitted request, and a tolerance of \<open>burst - 1\<close> intervals.
\<close>

record gcra =
  gc_interval :: duration
  gc_tolerance :: duration
  gc_tat :: "(ip_addr \<times> nat) list"

definition gcra_tat :: "gcra \<Rightarrow> ip_addr \<Rightarrow> nat" where
  "gcra_tat l ip = (case map_of (gc_tat l) ip of None \<Rightarrow> 0 | Some a \<Rightarrow> a)"

definition gcra_check :: "gcra \<Rightarrow> ip_addr \<Rightarrow> instant \<Rightarrow> (nat, unit) result \<times> gcra" where
  "gcra_check l ip now =
     (if now + gc_tolerance l < gcra_tat l ip
      then (Inl (gcra_tat l ip - gc_tolerance l), l)
      else (Inr (), l\<lparr>gc_tat := (ip, max (gcra_tat l ip) now + gc_interval l)
                         # filter (\<lambda>(k, _). k \<noteq> ip) (gc_tat l)\<rparr>))"

definition ref_governor :: "(gcra, nat) governor_api" where
  "ref_governor =
     \<lparr>gv_dashmap = (\<lambda>rps burst.
        \<lparr>gc_interval = 10 ^ 9 div unat rps,
         gc_tolerance = 10 ^ 9 div unat rps * (unat burst - 1), gc_tat = []\<rparr>),
      gv_check_key = gcra_check,
      gv_wait_time_from = (\<lambda>at now. at - now),
      gv_retain_recent = (\<lambda>l now. l\<lparr>gc_tat := filter (\<lambda>(k, _). now < gcra_tat l k) (gc_tat l)\<rparr>),
      gv_len = (\<lambda>l. of_nat (length (gc_tat l)))\<rparr>"

definition ref_same :: "instant \<Rightarrow> ip_addr \<Rightarrow> gcra \<Rightarrow> gcra \<Rightarrow> bool" where
  "ref_same t ip l l' \<longleftrightarrow> gc_tolerance l = gc_tolerance l'
     \<and> (gcra_tat l ip = gcra_tat l' ip \<or> gcra_tat l ip \<le> t \<and> gcra_tat l' ip \<le> t)"

lemma map_of_filter_key: "k \<noteq> ip \<Longrightarrow> map_of (filter (\<lambda>(k, _). k \<noteq> ip) m) k = map_of m k"
  by (induction m) auto

lemma map_of_filter_P: "map_of (filter (\<lambda>(k, _). P k) m) ip = (if P ip then map_of m ip else None)"
  by (induction m) auto

lemma ref_retain_tat:
  "gcra_tat (gv_retain_recent ref_governor l t) ip = (if t < gcra_tat l ip then gcra_tat l ip else 0)"
  by (simp add: ref_governor_def gcra_tat_def map_of_filter_P)

lemma ref_check_tat:
  "ip \<noteq> ip' \<Longrightarrow> gcra_tat (snd (gcra_check l ip' t)) ip = gcra_tat l ip"
  "gc_tolerance (snd (gcra_check l ip' t)) = gc_tolerance l"
  by (simp_all add: gcra_check_def gcra_tat_def map_of_filter_key)

interpretation ref_gov: governor_laws ref_governor ref_same
proof (unfold_locales, goal_cases)
  case (4 ip ip' t l)
  then show ?case by (simp add: ref_same_def ref_governor_def ref_check_tat)
next
  case (5 t ip l)
  have "gc_tolerance (gv_retain_recent ref_governor l t) = gc_tolerance l"
    by (simp add: ref_governor_def)
  then show ?case by (auto simp: ref_same_def ref_retain_tat)
next
  case (6 t ip l l')
  then show ?case by (auto simp: ref_same_def ref_governor_def gcra_check_def)
qed (auto simp: ref_same_def)

section \<open>Properties\<close>


definition sample_limiter :: gcra where
  "sample_limiter = gv_dashmap ref_governor 10 1"


text \<open>
  A rate limit that passed \<open>into_runtime\<close> always yields a limiter: the error branch of
  \<open>from_config\<close> is unreachable for a validated configuration.
\<close>

theorem validated_rate_limit_constructs:
  assumes "into_runtime U A X cfg = Inr rt" and "rt_rate_limit rt = Some rl"
  shows "limiter_from_config G rl
       = Inr (gv_dashmap G (rl_requests_per_second rl) (rl_burst rl))"
proof -
  have "pred_option rate_limit_valid (rt_rate_limit rt)"
    using into_runtime_Inr_all [OF assms(1)] check_rate_limit_Inr_iff by metis
  with assms(2) show ?thesis by (simp add: limiter_from_config_def rate_limit_valid_def)
qed

theorem validated_rate_limit_constructs_witness:
  "limiter_from_config ref_governor default_rate_limit_config = Inr (gv_dashmap ref_governor 100 50)"
proof -
  have "rt_rate_limit sample_runtime = Some default_rate_limit_config"
    "rl_requests_per_second default_rate_limit_config = 100" "rl_burst default_rate_limit_config = 50"
    by code_simp+
  then show ?thesis
    using validated_rate_limit_constructs [OF sample_runtime_ok, of default_rate_limit_config ref_governor]
    by simp
qed

end
