(* ===== verification/Proxy.thy ===== *)
theory Proxy
  imports Balancer Headers Rate_Limit
begin

text \<open>
  \<open>proxy.rs\<close>: the request pipeline. \<open>begin_request\<close> is \<open>handle_request\<close> up to the call of
  the client, \<open>complete_request\<close> what follows it, so that requests in flight can be
  interleaved; \<open>handle_request\<close> composes them. The crates the pipeline calls are one record
  of parameters. Logging is left out.
\<close>

section \<open>Messages and parameters\<close>

record ('hm, 'uri, 'b) request =
  rq_method :: string
  rq_uri :: 'uri
  rq_version :: http_version
  rq_headers :: 'hm
  rq_body :: 'b

text \<open>\<open>Limited::new(body, limit)\<close>, and the body of a response: the upstream's, streamed
  through, or bytes built by the proxy.\<close>

datatype 'b limited = Limited (lim_body: 'b) (lim_limit: nat)

datatype 'b box_body = Streamed 'b | Full string

text \<open>
  \<open>cr_form\<close> is \<open>form_urlencoded::parse\<close>; \<open>cr_collect limit body\<close> is
  \<open>Limited::new(body, limit).collect().await\<close>, the bytes or the display text of the error.
\<close>

record ('hm, 'hv, 'uri, 'rx, 'lim, 'neg, 'b) crates =
  cr_http :: "('hm, 'hv) header_api"
  cr_uri :: "'uri uri_api"
  cr_regex :: "'rx regex_api"
  cr_gov :: "('lim, 'neg) governor_api"
  cr_form :: "string \<Rightarrow> (string \<times> string) list"
  cr_collect :: "nat \<Rightarrow> 'b \<Rightarrow> string + string"

definition MAX_REQUEST_ID_LEN :: nat where
  "MAX_REQUEST_ID_LEN = 128"

section \<open>Steps of the pipeline\<close>

definition inbound_request_id :: "('hm, 'hv) header_api \<Rightarrow> 'hm \<Rightarrow> string option" where
  "inbound_request_id A headers =
     (case Option.bind (hm_get A headers ''x-request-id'') (hv_to_str A) of
        None \<Rightarrow> None
      | Some value \<Rightarrow>
          (let id = trim value in
           if id \<noteq> [] \<and> length id \<le> MAX_REQUEST_ID_LEN \<and> list_all is_ascii_graphic id
           then Some id else None))"

definition inspect_request ::
  "('hm, 'hv, 'uri, 'rx, 'lim, 'neg, 'b) crates \<Rightarrow> ('hm, 'uri, 'c) request
     \<Rightarrow> ('uri, 'rx) runtime_config \<Rightarrow> (proxy_error, unit) result" where
  "inspect_request cr req rt =
     (case find (\<lambda>name. hm_contains_key (cr_http cr) (rq_headers req) name) (rt_blocked_headers rt) of
        Some name \<Rightarrow> Inl (BlockedHeader name)
      | None \<Rightarrow>
          (let query = unwrap_or [] (uri_query (cr_uri cr) (rq_uri req)) in
           case find (\<lambda>(key, _). list_ex (\<lambda>param. param = key) (rt_blocked_params rt))
                  (cr_form cr query) of
             Some (key, _) \<Rightarrow> Inl (BlockedParam key)
           | None \<Rightarrow> Inr ()))"

definition rewrite_uri :: "'uri uri_api \<Rightarrow> 'uri \<Rightarrow> 'uri \<Rightarrow> (proxy_error, 'uri) result" where
  "rewrite_uri U original upstream =
     and_then (ok_or (InvalidUpstream ''upstream has no authority'') (uri_authority U upstream)) (\<lambda>authority.
     and_then (ok_or (InvalidUpstream ''upstream has no scheme'') (uri_scheme U upstream)) (\<lambda>scheme.
     let path_and_query = unwrap_or ''/'' (uri_path_and_query U original) in
     map_err (\<lambda>e. Internal (''failed to build upstream URI: '' @ e))
       (uri_build U scheme authority path_and_query)))"

text \<open>The chain of \<open>source()\<close> errors, searched for the length limit error.\<close>

primrec is_length_limit_error :: "dyn_error \<Rightarrow> bool" where
  "is_length_limit_error (DynError d lim src) \<longleftrightarrow>
     lim \<or> (case map_option is_length_limit_error src of None \<Rightarrow> False | Some b \<Rightarrow> b)"

definition maskable_content_type :: "('hm, 'hv) header_api \<Rightarrow> 'hm \<Rightarrow> bool" where
  "maskable_content_type A h \<longleftrightarrow>
     (case Option.bind (hm_get A h ''content-type'') (hv_to_str A) of
        None \<Rightarrow> False
      | Some ct \<Rightarrow> str_contains ct ''text/'' \<or> str_contains ct ''application/x-www-form-urlencoded'')"

definition content_encoded :: "('hm, 'hv) header_api \<Rightarrow> 'hm \<Rightarrow> bool" where
  "content_encoded A h \<longleftrightarrow>
     (case Option.bind (hm_get A h ''content-encoding'') (hv_to_str A) of
        None \<Rightarrow> False
      | Some v \<Rightarrow> trim v \<noteq> [] \<and> \<not> eq_ignore_ascii_case (trim v) ''identity'')"

definition within_ceiling :: "('hm, 'hv) header_api \<Rightarrow> 'hm \<Rightarrow> u64 \<Rightarrow> bool" where
  "within_ceiling A h ceiling \<longleftrightarrow>
     (case Option.bind (Option.bind (hm_get A h ''content-length'') (hv_to_str A)) parse_u64 of
        None \<Rightarrow> False | Some len \<Rightarrow> len \<le> ceiling)"

definition build_response ::
  "('hm, 'hv, 'uri, 'rx, 'lim, 'neg, 'b) crates \<Rightarrow> ('uri, 'rx) runtime_config \<Rightarrow> ('hm, 'b) response
     \<Rightarrow> (proxy_error, ('hm, 'b box_body) response) result" where
  "build_response cr rt resp =
     (let A = cr_http cr; h = rs_headers resp in
      if rt_mask_rules rt = [] \<or> \<not> maskable_content_type A h \<or> content_encoded A h
         \<or> \<not> within_ceiling A h (rt_mask_max_body_size rt)
      then Inr \<lparr>rs_status = rs_status resp, rs_version = rs_version resp, rs_headers = h,
                rs_body = Streamed (rs_body resp)\<rparr>
      else
        and_then (map_err (\<lambda>e. Internal (''failed to read upstream body for masking: '' @ e))
          (cr_collect cr (unat (rt_mask_max_body_size rt)) (rs_body resp))) (\<lambda>body_bytes.
        let body_str = from_utf8_lossy body_bytes;
            masked = mask_sensitive_data (cr_regex cr) rt body_str;
            masked_len = length masked
        in Inr \<lparr>rs_status = rs_status resp, rs_version = rs_version resp,
                rs_headers = hm_insert A h ''content-length'' (hv_from_num A masked_len),
                rs_body = Full masked\<rparr>))"

section \<open>The handler\<close>

text \<open>The state the handlers share: the request counter, the balancer and the limiter.\<close>

record ('uri, 'lim) proxy_state =
  ps_request_id :: u64
  ps_balancer :: "'uri load_balancer"
  ps_limiter :: "'lim option"

text \<open>The clock readings of one request.\<close>

record request_clock =
  ck_check :: instant
  ck_wait :: instant
  ck_eligible :: "nat \<Rightarrow> instant"
  ck_arm :: instant

text \<open>A request that has been handed to the client: its sequence number, its id, the backend
  it was sent to, and what was sent.\<close>

record ('hm, 'uri, 'b) in_flight =
  if_seq :: u64
  if_request_id :: string
  if_upstream :: nat
  if_request :: "('hm, 'uri, 'b limited) request"

text \<open>The result of \<open>timeout(request_timeout, client.request(..))\<close>.\<close>

datatype ('hm, 'b) outcome = Responded "('hm, 'b) response" | ClientError dyn_error | Elapsed

definition check_limiter ::
  "('lim, 'neg) governor_api \<Rightarrow> ('uri, 'lim) proxy_state \<Rightarrow> ip_addr \<Rightarrow> request_clock
     \<Rightarrow> (proxy_error, unit) result \<times> ('uri, 'lim) proxy_state" where
  "check_limiter G st ip ck =
     (case ps_limiter st of
        None \<Rightarrow> (Inr (), st)
      | Some limiter \<Rightarrow>
          (case limiter_check G limiter ip (ck_check ck) (ck_wait ck) of
             (r, limiter') \<Rightarrow> (map_err RateLimited r, st\<lparr>ps_limiter := Some limiter'\<rparr>)))"

definition admit_request ::
  "('hm, 'hv, 'uri, 'rx, 'lim, 'neg, 'b) crates \<Rightarrow> ('uri, 'rx) runtime_config
     \<Rightarrow> ('hm, 'uri, 'c) request \<Rightarrow> (proxy_error, unit) result" where
  "admit_request cr rt req =
     and_then (reject_if (is_smuggling_attempt (cr_http cr) (rq_headers req)) RequestSmuggling) (\<lambda>_.
     and_then (reject_if (content_length_exceeds (cr_http cr) (rq_headers req) (rt_max_body_size rt))
       (BodyTooLarge (rt_max_body_size rt))) (\<lambda>_.
     inspect_request cr req rt))"

definition prepare_request ::
  "('hm, 'hv, 'uri, 'rx, 'lim, 'neg, 'b) crates \<Rightarrow> ('uri, 'rx) runtime_config
     \<Rightarrow> ('hm, 'uri, 'c) request \<Rightarrow> 'uri \<Rightarrow> ip_addr \<Rightarrow> bool
     \<Rightarrow> (proxy_error, ('hm, 'uri, 'c limited) request) result" where
  "prepare_request cr rt req upstream_uri_target client_ip client_tls =
     (let A = cr_http cr; U = cr_uri cr in
      and_then (rewrite_uri U (rq_uri req) upstream_uri_target) (\<lambda>rewritten_uri.
      let h1 = strip_hop_by_hop A (rq_headers req);
          h2 = inject_forwarding_headers A h1 client_ip client_tls (rt_trust_forwarded_headers rt) in
      and_then (ok_or (InvalidUpstream ''upstream has no authority'')
                  (uri_authority U upstream_uri_target)) (\<lambda>authority.
      let h3 = rewrite_host A h2 authority;
          h4 = fold (\<lambda>name h. hm_remove A h name) (rt_blocked_headers rt) h3
      in Inr \<lparr>rq_method = rq_method req, rq_uri = rewritten_uri, rq_version = HTTP_11,
              rq_headers = h4,
              rq_body = Limited (rq_body req) (unat (rt_max_body_size rt))\<rparr>)))"

definition begin_request ::
  "('hm, 'hv, 'uri, 'rx, 'lim, 'neg, 'b) crates \<Rightarrow> ('uri, 'rx) runtime_config
     \<Rightarrow> ('uri, 'lim) proxy_state \<Rightarrow> ('hm, 'uri, 'c) request \<Rightarrow> socket_addr \<Rightarrow> bool \<Rightarrow> request_clock
     \<Rightarrow> (proxy_error, ('hm, 'uri, 'c) in_flight) result \<times> ('uri, 'lim) proxy_state" where
  "begin_request cr rt st req client_addr client_tls ck =
     (let seq = ps_request_id st;
          st0 = st\<lparr>ps_request_id := seq + 1\<rparr>;
          request_id = unwrap_or (show_nat (unat seq)) (inbound_request_id (cr_http cr) (rq_headers req))
      in case check_limiter (cr_gov cr) st0 (sock_ip client_addr) ck of
           (Inl e, st1) \<Rightarrow> (Inl e, st1)
         | (Inr _, st1) \<Rightarrow>
             (case admit_request cr rt req of
                Inl e \<Rightarrow> (Inl e, st1)
              | Inr _ \<Rightarrow>
                  (case balancer_next (ps_balancer st1) (ck_eligible ck) (ck_arm ck) of
                     (Inl e, lb) \<Rightarrow> (Inl e, st1\<lparr>ps_balancer := lb\<rparr>)
                   | (Inr idx, lb) \<Rightarrow>
                       (case prepare_request cr rt req (us_uri (lb_pool lb ! idx))
                               (sock_ip client_addr) client_tls of
                          Inl e \<Rightarrow> (Inl e, st1\<lparr>ps_balancer := lb\<rparr>)
                        | Inr proxy_req \<Rightarrow>
                            (Inr \<lparr>if_seq = seq, if_request_id = request_id, if_upstream = idx,
                                  if_request = proxy_req\<rparr>,
                             st1\<lparr>ps_balancer := lb\<rparr>)))))"

text \<open>An operation on the backend a request was sent to; it is shared, so the current state of
  the pool is what is updated.\<close>

definition on_backend ::
  "nat \<Rightarrow> ('uri inner_state \<Rightarrow> 'uri inner_state) \<Rightarrow> ('uri, 'lim) proxy_state \<Rightarrow> ('uri, 'lim) proxy_state" where
  "on_backend i f st =
     st\<lparr>ps_balancer := (ps_balancer st)\<lparr>lb_pool :=
        (lb_pool (ps_balancer st))[i := f (lb_pool (ps_balancer st) ! i)]\<rparr>\<rparr>"

definition finish_response ::
  "('hm, 'hv, 'uri, 'rx, 'lim, 'neg, 'b) crates \<Rightarrow> ('uri, 'rx) runtime_config \<Rightarrow> u64 \<Rightarrow> string
     \<Rightarrow> ('hm, 'b) response \<Rightarrow> (proxy_error, ('hm, 'b box_body) response) result" where
  "finish_response cr rt seq request_id upstream_resp =
     (let A = cr_http cr;
          h1 = strip_hop_by_hop A (rs_headers upstream_resp);
          h2 = (if rt_strip_response_headers rt = [] then h1
                else strip_response_headers A h1 (rt_strip_response_headers rt))
      in and_then (build_response cr rt (upstream_resp\<lparr>rs_headers := h2\<rparr>)) (\<lambda>resp.
         let id_value = (case hv_from_str A request_id of
                           Some v \<Rightarrow> v | None \<Rightarrow> hv_from_num A (unat seq))
         in Inr (resp\<lparr>rs_headers := hm_insert A (rs_headers resp) ''x-request-id'' id_value\<rparr>)))"

definition complete_request ::
  "('hm, 'hv, 'uri, 'rx, 'lim, 'neg, 'b) crates \<Rightarrow> ('uri, 'rx) runtime_config
     \<Rightarrow> ('uri, 'lim) proxy_state \<Rightarrow> ('hm, 'uri, 'c) in_flight \<Rightarrow> ('hm, 'b) outcome \<Rightarrow> instant
     \<Rightarrow> (proxy_error, ('hm, 'b box_body) response) result \<times> ('uri, 'lim) proxy_state" where
  "complete_request cr rt st fl upstream_result now =
     (case upstream_result of
        Responded resp \<Rightarrow>
          (finish_response cr rt (if_seq fl) (if_request_id fl) resp,
           on_backend (if_upstream fl) (\<lambda>u. snd (record_success u (rt_healthy_threshold rt))) st)
      | ClientError e \<Rightarrow>
          if is_length_limit_error e then (Inl (BodyTooLarge (rt_max_body_size rt)), st)
          else (Inl (Upstream e),
                on_backend (if_upstream fl) (\<lambda>u. snd (record_failure u (rt_failure_threshold rt) now)) st)
      | Elapsed \<Rightarrow>
          (Inl (Timeout (rt_request_timeout rt)),
           on_backend (if_upstream fl) (\<lambda>u. snd (record_failure u (rt_failure_threshold rt) now)) st))"

text \<open>\<open>handle_request\<close> with nothing interleaved; \<open>client\<close> is what the network makes of the
  forwarded request.\<close>

definition handle_request ::
  "('hm, 'hv, 'uri, 'rx, 'lim, 'neg, 'b) crates \<Rightarrow> ('uri, 'rx) runtime_config
     \<Rightarrow> ('uri, 'lim) proxy_state \<Rightarrow> ('hm, 'uri, 'c) request
     \<Rightarrow> (('hm, 'uri, 'c limited) request \<Rightarrow> ('hm, 'b) outcome) \<Rightarrow> socket_addr \<Rightarrow> bool
     \<Rightarrow> request_clock \<Rightarrow> instant
     \<Rightarrow> (proxy_error, ('hm, 'b box_body) response) result \<times> ('uri, 'lim) proxy_state" where
  "handle_request cr rt st req client client_addr client_tls ck now =
     (case begin_request cr rt st req client_addr client_tls ck of
        (Inl e, st') \<Rightarrow> (Inl e, st')
      | (Inr fl, st') \<Rightarrow> complete_request cr rt st' fl (client (if_request fl)) now)"

text \<open>The client: connect timeout and pool settings of \<open>build_client\<close> and
  \<open>build_https_client\<close>.\<close>

record client_settings =
  cl_connect_timeout :: duration
  cl_pool_idle_timeout :: duration
  cl_pool_max_idle_per_host :: usize
  cl_https :: bool

definition build_client :: "('uri, 'rx) runtime_config \<Rightarrow> client_settings" where
  "build_client rt =
     \<lparr>cl_connect_timeout = rt_connect_timeout rt, cl_pool_idle_timeout = rt_pool_idle_timeout rt,
      cl_pool_max_idle_per_host = rt_pool_max_idle_per_host rt, cl_https = False\<rparr>"

definition build_https_client :: "('uri, 'rx) runtime_config \<Rightarrow> client_settings" where
  "build_https_client rt =
     \<lparr>cl_connect_timeout = rt_connect_timeout rt, cl_pool_idle_timeout = rt_pool_idle_timeout rt,
      cl_pool_max_idle_per_host = rt_pool_max_idle_per_host rt, cl_https = True\<rparr>"

end
