(* ===== verification/Form_Urlencoded.thy ===== *)
theory Form_Urlencoded
  imports Regex_Api
begin

text \<open>
  The \<open>application/x-www-form-urlencoded\<close> parser of the URL standard, which
  \<open>form_urlencoded::parse\<close> documents: segments between ampersands, the empty ones skipped,
  name and value around the first equals sign, plus for space, percent decoding, and lossy
  UTF-8. The proxy model takes the parser as a parameter; statements about encoded names
  assume that it is this one.
\<close>

definition hex_val :: "char \<Rightarrow> nat option" where
  "hex_val c =
     (if is_ascii_digit c then Some (code c - 48)
      else if 65 \<le> code c \<and> code c \<le> 70 then Some (code c - 55)
      else if 97 \<le> code c \<and> code c \<le> 102 then Some (code c - 87)
      else None)"

fun percent_decode :: "string \<Rightarrow> string" where
  "percent_decode (c # a # b # s) =
     (if c = CHR ''%'' then
        (case (hex_val a, hex_val b) of
           (Some h, Some l) \<Rightarrow> char_of (16 * h + l) # percent_decode s
         | _ \<Rightarrow> c # percent_decode (a # b # s))
      else c # percent_decode (a # b # s))"
| "percent_decode s = s"

definition plus_to_space :: "string \<Rightarrow> string" where
  "plus_to_space s = map (\<lambda>c. if c = CHR ''+'' then CHR '' '' else c) s"

definition form_decode :: "string \<Rightarrow> string" where
  "form_decode s = from_utf8_lossy (percent_decode (plus_to_space s))"

definition form_pair :: "string \<Rightarrow> string \<times> string" where
  "form_pair seg =
     (form_decode (takeWhile (\<lambda>c. c \<noteq> CHR ''='') seg),
      form_decode (drop 1 (dropWhile (\<lambda>c. c \<noteq> CHR ''='') seg)))"

definition form_parse :: "string \<Rightarrow> (string \<times> string) list" where
  "form_parse q = map form_pair (filter (\<lambda>s. s \<noteq> []) (split_char (CHR ''&'') q))"

section \<open>Every encoding of a name decodes to it\<close>

definition hex_digit :: "nat \<Rightarrow> char" where
  "hex_digit d = char_of (if d < 10 then 48 + d else 55 + d)"

definition must_encode :: "char \<Rightarrow> bool" where
  "must_encode c \<longleftrightarrow> c \<in> set ''&=%+''"

text \<open>A name written with a free choice, per character, of percent encoding; the characters
  that have a meaning in a query are always encoded.\<close>

fun encode_choice :: "bool list \<Rightarrow> string \<Rightarrow> string" where
  "encode_choice fs [] = []"
| "encode_choice fs (c # s) =
     (if must_encode c \<or> (fs \<noteq> [] \<and> hd fs)
      then [CHR ''%'', hex_digit (code c div 16), hex_digit (code c mod 16)] else [c])
     @ encode_choice (tl fs) s"

lemma code_char_of: "n < 256 \<Longrightarrow> code (char_of n) = n"
  by (simp add: code_def)

lemma code_lt: "code c < 256"
  using of_char_of [of "code c"] by (simp add: code_def)

lemma hex_val_digit: "d < 16 \<Longrightarrow> hex_val (hex_digit d) = Some d"
  by (auto simp: hex_val_def hex_digit_def is_ascii_digit_def code_char_of)

lemma char_of_code: "char_of (code c) = c"
  by (simp add: code_def)

lemma takeWhile_stop: "x \<notin> set s \<Longrightarrow> takeWhile (\<lambda>c. c \<noteq> x) (s @ x # t) = s"
  by (induction s) auto

lemma percent_decode_plain: "c \<noteq> CHR ''%'' \<Longrightarrow> percent_decode (c # s) = c # percent_decode s"
  by (cases s; cases "tl s") (auto split: list.splits)

lemma percent_decode_hex:
  "percent_decode (CHR ''%'' # hex_digit (code c div 16) # hex_digit (code c mod 16) # s)
     = c # percent_decode s"
  using code_lt [of c] by (simp add: hex_val_digit char_of_code)

lemma hex_digit_plain:
  assumes "d < 16"
  shows "hex_digit d \<notin> set ''&=%+''"
proof
  assume "hex_digit d \<in> set ''&=%+''"
  then have "code (hex_digit d) \<in> {38, 61, 37, 43}" by (auto simp: code_def)
  with assms show False by (auto simp: hex_digit_def code_char_of split: if_splits)
qed

lemma hex_digits_code:
  "hex_digit (code c div 16) \<notin> set ''&=%+''" "hex_digit (code c mod 16) \<notin> set ''&=%+''"
  using code_lt [of c] by (simp_all only: hex_digit_plain less_mult_imp_div_less mod_less_divisor)
     (auto intro!: hex_digit_plain less_mult_imp_div_less)

lemma plus_to_space_encode: "plus_to_space (encode_choice fs s) = encode_choice fs s"
proof (induction fs s rule: encode_choice.induct)
  case (2 fs c s)
  then show ?case using hex_digits_code [of c]
    by (auto simp: plus_to_space_def must_encode_def)
qed (simp add: plus_to_space_def)

lemma percent_decode_encode: "percent_decode (encode_choice fs s) = s"
proof (induction fs s rule: encode_choice.induct)
  case (2 fs c s)
  then show ?case
    using percent_decode_hex [of c] percent_decode_plain [of c]
    by (auto simp: must_encode_def)
qed simp

lemma encode_choice_no_sep:
  "CHR ''='' \<notin> set (encode_choice fs s)" "CHR ''&'' \<notin> set (encode_choice fs s)"
proof -
  have "c \<notin> {CHR ''='', CHR ''&''}" if "c \<in> set (encode_choice fs s)" for c
    using that
  proof (induction fs s rule: encode_choice.induct)
    case (2 fs d s)
    then show ?case using hex_digits_code [of d] by (auto simp: must_encode_def split: if_splits)
  qed simp
  then show "CHR ''='' \<notin> set (encode_choice fs s)" "CHR ''&'' \<notin> set (encode_choice fs s)" by auto
qed

lemma form_decode_encode: "is_ascii s \<Longrightarrow> form_decode (encode_choice fs s) = s"
  by (simp add: form_decode_def plus_to_space_encode percent_decode_encode from_utf8_lossy_ascii)

lemma form_pair_encode:
  assumes "is_ascii s"
  shows "fst (form_pair (encode_choice fs s @ (case v of None \<Rightarrow> [] | Some x \<Rightarrow> CHR ''='' # x))) = s"
proof -
  have "takeWhile (\<lambda>c. c \<noteq> CHR ''='') (encode_choice fs s @ (case v of None \<Rightarrow> [] | Some x \<Rightarrow> CHR ''='' # x))
      = encode_choice fs s"
    using encode_choice_no_sep(1) [of fs s]
    by (cases v) (auto simp: takeWhile_eq_all_conv takeWhile_stop)
  then show ?thesis by (simp add: form_pair_def form_decode_encode [OF assms])
qed

end
