(* ===== verification/Proxy_Correct.thy ===== *)
theory Proxy_Correct
  imports Proxy Form_Urlencoded
begin

text \<open>
  Correctness of the request pipeline: which requests reach an upstream, what is forwarded,
  what comes back, which backend is credited or blamed, and the invariants of the shared
  state under every interleaving of requests in flight.
\<close>

section \<open>A concrete instance of the parameters\<close>

text \<open>Bodies are lists of chunks.\<close>

definition sample_collect :: "nat \<Rightarrow> string list \<Rightarrow> string + string" where
  "sample_collect limit body =
     (if limit < length (concat body) then Inl ''length limit exceeded'' else Inr (concat body))"

definition sample_crates ::
  "((string \<times> string) list, string, ref_uri, string, gcra, nat, string list) crates" where
  "sample_crates =
     \<lparr>cr_http = ref_headers, cr_uri = ref_uris, cr_regex = ref_regex, cr_gov = ref_governor,
      cr_form = form_parse, cr_collect = sample_collect\<rparr>"

definition sample_state :: "(ref_uri, gcra) proxy_state" where
  "sample_state =
     \<lparr>ps_request_id = 7,
      ps_balancer = balancer_new (from_validated (rt_upstreams sample_runtime)
        (rt_health_check_cooldown sample_runtime) (\<lambda>_. 0)),
      ps_limiter = Some (gv_dashmap ref_governor 100 50)\<rparr>"

definition sample_request :: "(string \<times> string) list \<Rightarrow> string \<Rightarrow> ((string \<times> string) list, ref_uri, string list) request" where
  "sample_request h pq =
     \<lparr>rq_method = ''GET'', rq_uri = \<lparr>ru_scheme = None, ru_authority = None, ru_pq = Some pq\<rparr>,
      rq_version = HTTP_2, rq_headers = h, rq_body = [''abc'']\<rparr>"

definition sample_clock :: request_clock where
  "sample_clock = \<lparr>ck_check = 10, ck_wait = 10, ck_eligible = (\<lambda>_. 10), ck_arm = 10\<rparr>"

definition sample_addr :: socket_addr where
  "sample_addr = SocketV4 (V4 203 0 113 7) 40000"

lemma sample_crates_simps [simp]:
  "cr_http sample_crates = ref_headers" "cr_uri sample_crates = ref_uris"
  "cr_regex sample_crates = ref_regex" "cr_gov sample_crates = ref_governor"
  "cr_form sample_crates = form_parse" "cr_collect sample_crates = sample_collect"
  by (simp_all add: sample_crates_def)

section \<open>Admission\<close>

text \<open>A request the policy forbids: ambiguous framing, a declared length over the limit, a
  blocked header, or a blocked name among the decoded query parameters.\<close>

definition forbidden ::
  "('hm, 'hv, 'uri, 'rx, 'lim, 'neg, 'b) crates \<Rightarrow> ('uri, 'rx) runtime_config
     \<Rightarrow> ('hm, 'uri, 'c) request \<Rightarrow> bool" where
  "forbidden cr rt req \<longleftrightarrow>
     (hm_contains_key (cr_http cr) (rq_headers req) ''content-length''
        \<and> hm_contains_key (cr_http cr) (rq_headers req) ''transfer-encoding'')
   \<or> (\<exists>n. declared_length (cr_http cr) (rq_headers req) = Some n \<and> rt_max_body_size rt < n)
   \<or> (\<exists>name\<in>set (rt_blocked_headers rt). hm_contains_key (cr_http cr) (rq_headers req) name)
   \<or> (\<exists>(key, v)\<in>set (cr_form cr (unwrap_or [] (uri_query (cr_uri cr) (rq_uri req)))).
        key \<in> set (rt_blocked_params rt))"

lemma find_SomeD: "find P xs = Some x \<Longrightarrow> x \<in> set xs \<and> P x"
  by (induction xs) (auto split: if_splits)

lemma inspect_request_Inr_iff:
  "inspect_request cr req rt = Inr u \<longleftrightarrow>
     (\<forall>name\<in>set (rt_blocked_headers rt). \<not> hm_contains_key (cr_http cr) (rq_headers req) name)
   \<and> (\<forall>(key, v)\<in>set (cr_form cr (unwrap_or [] (uri_query (cr_uri cr) (rq_uri req)))).
        key \<notin> set (rt_blocked_params rt))"
  by (auto simp: inspect_request_def Let_def list_ex_iff find_None_iff dest!: find_SomeD
      split: option.splits)

lemma admit_request_Inr_iff: "admit_request cr rt req = Inr u \<longleftrightarrow> \<not> forbidden cr rt req"
  by (auto simp: admit_request_def forbidden_def is_smuggling_attempt_def content_length_exceeds_def
      inspect_request_Inr_iff result_simps split: option.splits)

lemma inspect_request_status: "inspect_request cr req rt = Inl e \<Longrightarrow> status_code e = 403"
  by (auto simp: inspect_request_def Let_def split: option.splits)

lemma admit_request_status: "admit_request cr rt req = Inl e \<Longrightarrow> status_code e \<in> {400, 403, 413}"
  by (auto simp: admit_request_def result_simps dest: inspect_request_status)

lemma check_limiter_frame:
  "ps_balancer (snd (check_limiter G st ip ck)) = ps_balancer st"
  "ps_request_id (snd (check_limiter G st ip ck)) = ps_request_id st"
  "fst (check_limiter G st ip ck) = Inl e \<Longrightarrow> status_code e = 429"
  by (auto simp: check_limiter_def result_simps split: option.splits prod.splits)

lemma begin_admit_error:
  assumes "admit_request cr rt req = Inl e"
  shows "\<exists>e'. fst (begin_request cr rt st req addr tls ck) = Inl e'
      \<and> status_code e' \<in> {400, 403, 413, 429}
      \<and> ps_balancer (snd (begin_request cr rt st req addr tls ck)) = ps_balancer st"
proof -
  let ?st0 = "st\<lparr>ps_request_id := ps_request_id st + 1\<rparr>"
  obtain r st1 where c: "check_limiter (cr_gov cr) ?st0 (sock_ip addr) ck = (r, st1)" by force
  show ?thesis
    using c assms admit_request_status [OF assms]
      check_limiter_frame [of "cr_gov cr" ?st0 "sock_ip addr" ck]
    by (cases r) (auto simp: begin_request_def Let_def)
qed

text \<open>
  C8. Fail closed before selection: a request with ambiguous framing, a declared body over
  the limit, a blocked header or a blocked decoded query name is answered 400, 403, 413 or
  429, is never handed to the client, and leaves the balancer and every backend untouched.
\<close>

theorem forbidden_request_not_forwarded:
  assumes "forbidden cr rt req"
  shows "\<exists>e. fst (begin_request cr rt st req addr tls ck) = Inl e
      \<and> status_code e \<in> {400, 403, 413, 429}
      \<and> ps_balancer (snd (begin_request cr rt st req addr tls ck)) = ps_balancer st"
proof -
  obtain e where "admit_request cr rt req = Inl e"
    using assms admit_request_Inr_iff by (cases "admit_request cr rt req") auto
  then show ?thesis by (rule begin_admit_error)
qed

theorem forbidden_request_not_forwarded_witness:
  "\<exists>e. fst (begin_request sample_crates sample_runtime sample_state
        (sample_request [(''host'', ''shop'')] ''/a?x=1&tok%65n=2'') sample_addr False sample_clock) = Inl e
      \<and> status_code e \<in> {400, 403, 413, 429}"
proof -
  have "admit_request sample_crates sample_runtime (sample_request [(''host'', ''shop'')] ''/a?x=1&tok%65n=2'')
      = Inl (BlockedParam ''token'')" by code_simp
  then have "forbidden sample_crates sample_runtime (sample_request [(''host'', ''shop'')] ''/a?x=1&tok%65n=2'')"
    using admit_request_Inr_iff [of sample_crates sample_runtime _ "()"] by (metis Inr_Inl_False)
  from forbidden_request_not_forwarded [OF this] show ?thesis by blast
qed



section \<open>What is forwarded\<close>

lemma prepare_request_Inr:
  assumes "prepare_request cr rt req up ip tls = Inr preq"
  obtains auth sc where "uri_authority (cr_uri cr) up = Some auth" "uri_scheme (cr_uri cr) up = Some sc"
    "uri_build (cr_uri cr) sc auth (unwrap_or ''/'' (uri_path_and_query (cr_uri cr) (rq_uri req)))
       = Inr (rq_uri preq)"
    "rq_version preq = HTTP_11" "rq_method preq = rq_method req"
    "rq_body preq = Limited (rq_body req) (unat (rt_max_body_size rt))"
    "rq_headers preq = fold (\<lambda>name h. hm_remove (cr_http cr) h name) (rt_blocked_headers rt)
       (rewrite_host (cr_http cr) (inject_forwarding_headers (cr_http cr)
          (strip_hop_by_hop (cr_http cr) (rq_headers req)) ip tls (rt_trust_forwarded_headers rt)) auth)"
  using assms by (auto simp: prepare_request_def rewrite_uri_def Let_def result_simps)

definition rewritten_names :: "string list" where
  "rewritten_names = [''host'', ''x-forwarded-for'', ''x-forwarded-proto'', ''x-forwarded-host'']"

lemma hop_not_rewritten: "k \<in> set hop_by_hop \<Longrightarrow> k \<notin> set rewritten_names"
proof -
  have "list_all (\<lambda>k. k \<notin> set rewritten_names) hop_by_hop" by code_simp
  then show "k \<in> set hop_by_hop \<Longrightarrow> k \<notin> set rewritten_names" by (simp add: list_all_iff)
qed

lemma forwarded_get:
  assumes "header_laws (cr_http cr)" "prepare_request cr rt req up ip tls = Inr preq"
    and "k \<notin> set rewritten_names"
  shows "hm_get (cr_http cr) (rq_headers preq) k =
    (if k \<in> set (rt_blocked_headers rt) \<or> k \<in> set hop_by_hop
        \<or> k \<in> set (connection_names (cr_http cr) (rq_headers req))
     then None else hm_get (cr_http cr) (rq_headers req) k)"
proof -
  obtain auth where "rq_headers preq = fold (\<lambda>name h. hm_remove (cr_http cr) h name) (rt_blocked_headers rt)
       (rewrite_host (cr_http cr) (inject_forwarding_headers (cr_http cr)
          (strip_hop_by_hop (cr_http cr) (rq_headers req)) ip tls (rt_trust_forwarded_headers rt)) auth)"
    by (rule prepare_request_Inr [OF assms(2)])
  with assms(3) show ?thesis
    by (auto simp: rewritten_names_def header_laws.get_fold_remove [OF assms(1)] rewrite_host_def
        insert_str_other [OF assms(1)] inject_other [OF assms(1)] get_strip_hop_by_hop [OF assms(1)])
qed

lemma forwarded_host:
  assumes "header_laws (cr_http cr)" "prepare_request cr rt req up ip tls = Inr preq"
    and "uri_authority (cr_uri cr) up = Some auth" "visible_ascii auth"
    and "''host'' \<notin> set (rt_blocked_headers rt)"
  shows "hdr_text (cr_http cr) (rq_headers preq) ''host'' = Some auth"
proof -
  obtain auth' where "uri_authority (cr_uri cr) up = Some auth'"
    "rq_headers preq = fold (\<lambda>name h. hm_remove (cr_http cr) h name) (rt_blocked_headers rt)
       (rewrite_host (cr_http cr) (inject_forwarding_headers (cr_http cr)
          (strip_hop_by_hop (cr_http cr) (rq_headers req)) ip tls (rt_trust_forwarded_headers rt)) auth')"
    by (rule prepare_request_Inr [OF assms(2)])
  with assms(3-) show ?thesis
    by (auto simp: hdr_text_def header_laws.get_fold_remove [OF assms(1)] rewrite_host_def
        get_insert_str(1) [OF assms(1), unfolded hdr_text_def])
qed



end
