(* ===== verification/Proxy_Response.thy ===== *)
theory Proxy_Response
  imports Proxy_Correct
begin

text \<open>
  What the pipeline does with the outcome of the forwarded request: the client-facing
  response, its request id, masking, and passive health accounting.
\<close>

section \<open>Request ids\<close>

lemma length_show_nat: "n < 10 ^ Suc k \<Longrightarrow> length (show_nat n) \<le> Suc k"
proof (induction k arbitrary: n)
  case 0
  then show ?case by (subst show_nat.simps) simp
next
  case (Suc k)
  have "n div 10 < 10 ^ Suc k" using Suc.prems by (simp add: div_less_iff_less_mult mult.commute)
  then have "length (show_nat (n div 10)) \<le> Suc k" by (rule Suc.IH)
  then show ?case by (subst show_nat.simps) simp
qed

definition well_formed_id :: "string \<Rightarrow> bool" where
  "well_formed_id rid \<longleftrightarrow> rid \<noteq> [] \<and> length rid \<le> MAX_REQUEST_ID_LEN \<and> list_all is_ascii_graphic rid"

lemma well_formed_counter: "well_formed_id (show_nat (unat (w :: u64)))"
proof -
  have "unat w < 2 ^ 64" using unsigned_less [of w] by simp
  also have "(2::nat) ^ 64 < 10 ^ Suc 19" by simp
  finally have "length (show_nat (unat w)) \<le> Suc 19" by (rule length_show_nat)
  then show ?thesis
    using show_nat_visible by (auto simp: well_formed_id_def MAX_REQUEST_ID_LEN_def list_all_iff)
qed

lemma well_formed_inbound: "inbound_request_id A h = Some rid \<Longrightarrow> well_formed_id rid"
  by (auto simp: inbound_request_id_def well_formed_id_def Let_def split: option.splits if_splits)

lemma well_formed_chosen:
  "well_formed_id (unwrap_or (show_nat (unat (w :: u64))) (inbound_request_id A h))"
  by (cases "inbound_request_id A h") (simp_all add: unwrap_or_def well_formed_counter well_formed_inbound)

lemma well_formed_visible: "well_formed_id rid \<Longrightarrow> visible_ascii rid"
  by (auto simp: well_formed_id_def visible_ascii_def list_all_iff is_ascii_graphic_def)

section \<open>The client-facing response\<close>

definition masks ::
  "('hm, 'hv) header_api \<Rightarrow> ('uri, 'rx) runtime_config \<Rightarrow> 'hm \<Rightarrow> bool" where
  "masks A rt h \<longleftrightarrow> rt_mask_rules rt \<noteq> [] \<and> maskable_content_type A h \<and> \<not> content_encoded A h
     \<and> within_ceiling A h (rt_mask_max_body_size rt)"

lemma build_response_streamed:
  "\<not> masks (cr_http cr) rt (rs_headers resp) \<Longrightarrow>
   build_response cr rt resp = Inr \<lparr>rs_status = rs_status resp, rs_version = rs_version resp,
     rs_headers = rs_headers resp, rs_body = Streamed (rs_body resp)\<rparr>"
  by (auto simp: build_response_def masks_def Let_def)

lemma build_response_masked:
  "masks (cr_http cr) rt (rs_headers resp) \<Longrightarrow>
   build_response cr rt resp =
     (case cr_collect cr (unat (rt_mask_max_body_size rt)) (rs_body resp) of
        Inl e \<Rightarrow> Inl (Internal (''failed to read upstream body for masking: '' @ e))
      | Inr bs \<Rightarrow>
          Inr \<lparr>rs_status = rs_status resp, rs_version = rs_version resp,
            rs_headers = hm_insert (cr_http cr) (rs_headers resp) ''content-length''
              (hv_from_num (cr_http cr)
                 (length (mask_sensitive_data (cr_regex cr) rt (from_utf8_lossy bs)))),
            rs_body = Full (mask_sensitive_data (cr_regex cr) rt (from_utf8_lossy bs))\<rparr>)"
  by (simp add: build_response_def masks_def Let_def split: sum.splits)

lemma masks_has_length:
  "masks A rt h \<Longrightarrow> hm_get A h ''content-length'' \<noteq> None"
  by (cases "hm_get A h ''content-length''") (auto simp: masks_def within_ceiling_def)

text \<open>For every header: masking touches \<open>Content-Length\<close> only, and only if it was there.\<close>

lemma build_response_get:
  assumes "header_laws (cr_http cr)" "build_response cr rt resp = Inr r"
    and "hm_get (cr_http cr) (rs_headers resp) k = None"
  shows "hm_get (cr_http cr) (rs_headers r) k = None" and "rs_status r = rs_status resp"
proof -
  have "hm_get (cr_http cr) (rs_headers r) k = None \<and> rs_status r = rs_status resp"
  proof (cases "masks (cr_http cr) rt (rs_headers resp)")
    case True
    then have "k \<noteq> ''content-length''" using masks_has_length [OF True] assms(3) by metis
    with assms(2,3) True show ?thesis
      by (auto simp: build_response_masked header_laws.get_insert [OF assms(1)] split: sum.splits)
  qed (use assms(2,3) in \<open>auto simp: build_response_streamed\<close>)
  then show "hm_get (cr_http cr) (rs_headers r) k = None" "rs_status r = rs_status resp" by auto
qed

lemma finish_response_headers:
  assumes "header_laws (cr_http cr)" "finish_response cr rt seq rid up = Inr resp" "visible_ascii rid"
  shows "hdr_text (cr_http cr) (rs_headers resp) ''x-request-id'' = Some rid"
    and "k \<in> set hop_by_hop \<Longrightarrow> hm_get (cr_http cr) (rs_headers resp) k = None"
    and "n \<in> set (rt_strip_response_headers rt) \<Longrightarrow> hn_from_bytes (cr_http cr) n = Inr k \<Longrightarrow>
      k \<noteq> ''x-request-id'' \<Longrightarrow> hm_get (cr_http cr) (rs_headers resp) k = None"
    and "rs_status resp = rs_status up"
proof -
  let ?A = "cr_http cr"
  let ?h1 = "strip_hop_by_hop ?A (rs_headers up)"
  define h2 where "h2 = (if rt_strip_response_headers rt = [] then ?h1
      else strip_response_headers ?A ?h1 (rt_strip_response_headers rt))"
  obtain r v where r: "build_response cr rt (up\<lparr>rs_headers := h2\<rparr>) = Inr r"
    and v: "hv_from_str ?A rid = Some v" "hv_to_str ?A v = Some rid"
    and resp: "resp = r\<lparr>rs_headers := hm_insert ?A (rs_headers r) ''x-request-id'' v\<rparr>"
    using assms(2) header_laws.from_str_visible [OF assms(1,3)]
    by (auto simp: finish_response_def Let_def h2_def result_simps)
  show "hdr_text ?A (rs_headers resp) ''x-request-id'' = Some rid"
    by (simp add: resp hdr_text_def header_laws.get_insert [OF assms(1)] v)
  have gone: "hm_get ?A (rs_headers resp) k = None"
    if "hm_get ?A h2 k = None" "k \<noteq> ''x-request-id''" for k
    using build_response_get(1) [OF assms(1) r, of k] that
    by (simp add: resp header_laws.get_insert [OF assms(1)])
  have h2: "hm_get ?A h2 k = (if \<exists>n\<in>set (rt_strip_response_headers rt). hn_from_bytes ?A n = Inr k
      then None else hm_get ?A ?h1 k)" for k
    by (auto simp: h2_def get_strip_response_headers [OF assms(1)])
  have "list_all (\<lambda>k. k \<noteq> ''x-request-id'') hop_by_hop" by code_simp
  then show "hm_get ?A (rs_headers resp) k = None" if "k \<in> set hop_by_hop"
    using that by (intro gone) (auto simp: h2 get_strip_hop_by_hop [OF assms(1)] list_all_iff)
  show "hm_get ?A (rs_headers resp) k = None"
    if "n \<in> set (rt_strip_response_headers rt)" "hn_from_bytes ?A n = Inr k" "k \<noteq> ''x-request-id''"
    using that by (intro gone) (auto simp: h2)
  show "rs_status resp = rs_status up"
  proof (cases "masks ?A rt h2")
    case True
    with r show ?thesis by (auto simp: resp build_response_masked split: sum.splits)
  qed (use r in \<open>auto simp: resp build_response_streamed\<close>)
qed

lemma begin_request_Inr:
  assumes "begin_request cr rt st req addr tls ck = (Inr fl, st')"
  shows "if_request_id fl =
      unwrap_or (show_nat (unat (ps_request_id st))) (inbound_request_id (cr_http cr) (rq_headers req))"
    and "if_seq fl = ps_request_id st" and "ps_request_id st' = ps_request_id st + 1"
    and "admit_request cr rt req = Inr ()"
    and "\<exists>lb. balancer_next (ps_balancer st) (ck_eligible ck) (ck_arm ck) = (Inr (if_upstream fl), lb)
          \<and> ps_balancer st' = lb
          \<and> prepare_request cr rt req (us_uri (lb_pool lb ! if_upstream fl)) (sock_ip addr) tls
              = Inr (if_request fl)"
proof -
  let ?st0 = "st\<lparr>ps_request_id := ps_request_id st + 1\<rparr>"
  obtain r st1 where c: "check_limiter (cr_gov cr) ?st0 (sock_ip addr) ck = (r, st1)" by force
  note frame = check_limiter_frame(1,2) [of "cr_gov cr" ?st0 "sock_ip addr" ck]
  have "if_request_id fl =
      unwrap_or (show_nat (unat (ps_request_id st))) (inbound_request_id (cr_http cr) (rq_headers req))
    \<and> if_seq fl = ps_request_id st \<and> ps_request_id st' = ps_request_id st + 1
    \<and> admit_request cr rt req = Inr ()
    \<and> (\<exists>lb. balancer_next (ps_balancer st) (ck_eligible ck) (ck_arm ck) = (Inr (if_upstream fl), lb)
          \<and> ps_balancer st' = lb
          \<and> prepare_request cr rt req (us_uri (lb_pool lb ! if_upstream fl)) (sock_ip addr) tls
              = Inr (if_request fl))"
    using assms c frame
    by (auto simp: begin_request_def Let_def split: sum.splits prod.splits)
  then show "if_request_id fl =
      unwrap_or (show_nat (unat (ps_request_id st))) (inbound_request_id (cr_http cr) (rq_headers req))"
    "if_seq fl = ps_request_id st" "ps_request_id st' = ps_request_id st + 1"
    "admit_request cr rt req = Inr ()"
    "\<exists>lb. balancer_next (ps_balancer st) (ck_eligible ck) (ck_arm ck) = (Inr (if_upstream fl), lb)
          \<and> ps_balancer st' = lb
          \<and> prepare_request cr rt req (us_uri (lb_pool lb ! if_upstream fl)) (sock_ip addr) tls
              = Inr (if_request fl)"
    by blast+
qed

text \<open>
  C28. Every successful response of \<open>handle_request\<close> carries an \<open>X-Request-Id\<close>: the
  client's own when it is well formed (one to 128 visible ASCII characters after trimming),
  otherwise the decimal sequence number; either way the id is well formed. The response has
  no hop-by-hop header and none of the configured internal headers.
\<close>

theorem response_sanitised_with_request_id:
  assumes "header_laws (cr_http cr)"
    and "handle_request cr rt st req client addr tls ck now = (Inr resp, st')"
  shows "\<exists>rid. hdr_text (cr_http cr) (rs_headers resp) ''x-request-id'' = Some rid
      \<and> rid = unwrap_or (show_nat (unat (ps_request_id st)))
               (inbound_request_id (cr_http cr) (rq_headers req))
      \<and> rid \<noteq> [] \<and> length rid \<le> 128 \<and> list_all is_ascii_graphic rid
      \<and> (\<forall>k\<in>set hop_by_hop. hm_get (cr_http cr) (rs_headers resp) k = None)
      \<and> (\<forall>n\<in>set (rt_strip_response_headers rt). \<forall>k. hn_from_bytes (cr_http cr) n = Inr k
            \<longrightarrow> k \<noteq> ''x-request-id'' \<longrightarrow> hm_get (cr_http cr) (rs_headers resp) k = None)"
proof -
  obtain fl st1 where b: "begin_request cr rt st req addr tls ck = (Inr fl, st1)"
    using assms(2) by (auto simp: handle_request_def split: prod.splits sum.splits)
  note rid = begin_request_Inr(1) [OF b]
  have wf: "well_formed_id (if_request_id fl)" unfolding rid by (rule well_formed_chosen)
  obtain up where "finish_response cr rt (if_seq fl) (if_request_id fl) up = Inr resp"
    using assms(2) b
    by (auto simp: handle_request_def complete_request_def split: outcome.splits if_splits)
  note f = finish_response_headers [OF assms(1) this well_formed_visible [OF wf]]
  have "rid = if_request_id fl \<longrightarrow> rid \<noteq> [] \<and> length rid \<le> 128 \<and> list_all is_ascii_graphic rid" for rid
    using wf by (simp add: well_formed_id_def MAX_REQUEST_ID_LEN_def)
  then show ?thesis using f(1-3) rid by blast
qed

definition sample_response :: "string list \<Rightarrow> ((string \<times> string) list, string list) response" where
  "sample_response body =
     \<lparr>rs_status = 200, rs_version = HTTP_11,
      rs_headers = [(''content-type'', ''text/plain''), (''content-length'', ''24''), (''upgrade'', ''h2c'')],
      rs_body = body\<rparr>"

lemma sample_handled:
  "\<exists>resp st'. handle_request sample_crates sample_runtime sample_state
     (sample_request [(''host'', ''shop''), (''x-request-id'', '' req-42 '')] ''/a'')
     (\<lambda>_. Responded (sample_response [''user=bob&'', ''password=secret''])) sample_addr False sample_clock 20
     = (Inr resp, st') \<and> rs_body resp = Full ''user=bob&password=****''"
proof -
  let ?h = "handle_request sample_crates sample_runtime sample_state
     (sample_request [(''host'', ''shop''), (''x-request-id'', '' req-42 '')] ''/a'')
     (\<lambda>_. Responded (sample_response [''user=bob&'', ''password=secret''])) sample_addr False sample_clock 20"
  have "case fst ?h of Inl _ \<Rightarrow> False | Inr r \<Rightarrow> rs_body r = Full ''user=bob&password=****''" by code_simp
  then show ?thesis by (cases ?h) (auto split: sum.splits)
qed

theorem response_sanitised_with_request_id_witness:
  "\<exists>resp st'. handle_request sample_crates sample_runtime sample_state
     (sample_request [(''host'', ''shop''), (''x-request-id'', '' req-42 '')] ''/a'')
     (\<lambda>_. Responded (sample_response [''user=bob&'', ''password=secret''])) sample_addr False sample_clock 20
     = (Inr resp, st')
   \<and> hdr_text ref_headers (rs_headers resp) ''x-request-id'' = Some ''req-42''
   \<and> hm_get ref_headers (rs_headers resp) ''upgrade'' = None"
proof -
  let ?req = "sample_request [(''host'', ''shop''), (''x-request-id'', '' req-42 '')] ''/a''"
  have A: "header_laws (cr_http sample_crates)" using ref_http.header_laws_axioms by simp
  obtain resp st' where h: "handle_request sample_crates sample_runtime sample_state ?req
     (\<lambda>_. Responded (sample_response [''user=bob&'', ''password=secret''])) sample_addr False sample_clock 20
     = (Inr resp, st')" using sample_handled by blast
  have "unwrap_or (show_nat (unat (ps_request_id sample_state)))
      (inbound_request_id ref_headers (rq_headers ?req)) = ''req-42''" "''upgrade'' \<in> set hop_by_hop"
    by code_simp+
  with response_sanitised_with_request_id [OF A h] h show ?thesis by auto
qed

section \<open>Masking of response bodies\<close>

text \<open>
  The contract of \<open>Limited\<close> (crate http-body-util): a collected body is within the limit.
\<close>

locale limited_laws =
  fixes collect :: "nat \<Rightarrow> 'b \<Rightarrow> string + string"
  assumes collect_bound: "collect limit body = Inr bs \<Longrightarrow> length bs \<le> limit"

interpretation sample_limited: limited_laws sample_collect
  by unfold_locales (auto simp: sample_collect_def split: if_splits)



text \<open>
  Every other response is streamed: without masking rules, with another content type, a
  content coding, no declared length, or one above the ceiling, the upstream body, status,
  version and headers are passed on unchanged.
\<close>

theorem other_responses_streamed:
  assumes "rt_mask_rules rt = [] \<or> \<not> maskable_content_type (cr_http cr) (rs_headers up)
      \<or> content_encoded (cr_http cr) (rs_headers up)
      \<or> (\<forall>n. declared_length (cr_http cr) (rs_headers up) = Some n \<longrightarrow> rt_mask_max_body_size rt < n)"
  shows "build_response cr rt up = Inr \<lparr>rs_status = rs_status up, rs_version = rs_version up,
     rs_headers = rs_headers up, rs_body = Streamed (rs_body up)\<rparr>"
  using assms
  by (intro build_response_streamed)
     (auto simp: masks_def within_ceiling_def declared_length_def split: option.splits)

lemma mask_empty:
  assumes "regex_laws X"
    and "\<forall>rule\<in>set rules. rx_new X (mask_pattern X (mr_param rule)) = Inr (mr_pattern rule)"
  shows "foldl (\<lambda>acc rule. rx_replace_all X (mr_pattern rule) acc (mr_param rule @ ''=****'')) [] rules = []"
  using assms(2)
proof (induction rules)
  case (Cons rule rules)
  then have "rx_replace_all X (mr_pattern rule) [] (mr_param rule @ ''=****'') = []"
    using regex_laws.replace_all_mask [OF assms(1), of "mr_param rule"] by simp
  with Cons show ?case by simp
qed simp

text \<open>
  A maskable response without body bytes, as the answer to a \<open>HEAD\<close> request or a 304
  has, loses the length the upstream declared: the client is sent \<open>Content-Length: 0\<close>.
\<close>

lemma bodiless_response_length_lost:
  assumes "header_laws (cr_http cr)" and "regex_laws (cr_regex cr)"
    and "into_runtime U A (cr_regex cr) cfg = Inr rt"
    and "masks (cr_http cr) rt (rs_headers up)"
    and "cr_collect cr (unat (rt_mask_max_body_size rt)) (rs_body up) = Inr []"
  shows "\<exists>resp. build_response cr rt up = Inr resp
    \<and> hdr_text (cr_http cr) (rs_headers resp) ''content-length'' = Some ''0''"
proof -
  have "mask_sensitive_data (cr_regex cr) rt (from_utf8_lossy []) = []"
    using mask_empty [OF assms(2), of "rt_mask_rules rt"] mask_rules_compiled [OF assms(3)]
    by (simp add: mask_sensitive_data_def)
  moreover have "show_nat 0 = ''0''" by code_simp
  ultimately show ?thesis
    using assms(5) by (simp add: build_response_masked [OF assms(4)] hdr_text_def
        header_laws.get_insert [OF assms(1)] header_laws.from_num_to_str [OF assms(1)])
qed

section \<open>Passive health\<close>

lemma record_failure_ejects:
  assumes "us_healthy s" "\<not> us_healthy (snd (record_failure s ft t))"
  shows "ft \<le> sat_add (us_consecutive_failures s) 1"
  using assms by (auto simp: upstream_defs split: if_splits)

lemma record_success_keeps: "us_healthy s \<Longrightarrow> us_healthy (snd (record_success s ht))"
  by (simp add: upstream_defs)

text \<open>
  C29. Only the upstream is blamed for upstream failures: completing a request ejects a
  healthy backend only if it is the one the request was sent to, its consecutive failures
  reach the threshold with this one, and the client is answered 502 or 504. A body over the
  limit (413) and every response, whatever its status, eject nothing.
\<close>

theorem only_upstream_failures_eject:
  assumes "complete_request cr rt st fl out now = (r, st')"
    and "j < length (lb_pool (ps_balancer st))"
    and "is_healthy (lb_pool (ps_balancer st) ! j)" and "\<not> is_healthy (lb_pool (ps_balancer st') ! j)"
  shows "j = if_upstream fl
    \<and> rt_failure_threshold rt \<le> sat_add (us_consecutive_failures (lb_pool (ps_balancer st) ! j)) 1
    \<and> (\<exists>e. r = Inl e \<and> status_code e \<in> {502, 504})"
proof (cases "j = if_upstream fl")
  case True
  with assms show ?thesis
    by (auto simp: complete_request_def on_backend_def is_healthy_def record_success_keeps
        dest: record_failure_ejects split: outcome.splits if_splits)
next
  case False
  with assms show ?thesis
    by (auto simp: complete_request_def on_backend_def split: outcome.splits if_splits)
qed

definition sample_flight :: "((string \<times> string) list, ref_uri, string list) in_flight" where
  "sample_flight = \<lparr>if_seq = 7, if_request_id = ''7'', if_upstream = 0,
     if_request = \<lparr>rq_method = ''GET'', rq_uri = rq_uri (sample_request [] ''/''), rq_version = HTTP_11,
       rq_headers = [], rq_body = Limited [''abc''] 10\<rparr>\<rparr>"

theorem only_upstream_failures_eject_witness:
  "\<exists>e. fst (complete_request sample_crates (sample_runtime\<lparr>rt_failure_threshold := 1\<rparr>)
        sample_state sample_flight Elapsed 30) = Inl e \<and> status_code e \<in> {502, 504}"
proof -
  let ?c = "complete_request sample_crates (sample_runtime\<lparr>rt_failure_threshold := 1\<rparr>)
        sample_state sample_flight Elapsed 30"
  have "0 < length (lb_pool (ps_balancer sample_state))"
    "is_healthy (lb_pool (ps_balancer sample_state) ! 0)"
    "\<not> is_healthy (lb_pool (ps_balancer (snd ?c)) ! 0)"
    by code_simp+
  from only_upstream_failures_eject [OF prod.collapse [symmetric] this] show ?thesis by blast
qed

section \<open>Upstreams without a scheme\<close>

lemma begin_request_selected:
  assumes "ps_limiter st = None" "\<not> forbidden cr rt req"
    and "balancer_next (ps_balancer st) (ck_eligible ck) (ck_arm ck) = (Inr i, lb)"
    and "prepare_request cr rt req (us_uri (lb_pool lb ! i)) (sock_ip addr) tls = Inl e"
  shows "fst (begin_request cr rt st req addr tls ck) = Inl e
    \<and> ps_balancer (snd (begin_request cr rt st req addr tls ck)) = lb"
proof -
  have "admit_request cr rt req = Inr ()" using assms(2) admit_request_Inr_iff by blast
  with assms show ?thesis by (simp add: begin_request_def Let_def check_limiter_def)
qed

text \<open>
  C40. An upstream address with an authority and no scheme passes validation, and then every
  admitted request routed to it is answered 500 without being sent, while no failure is
  recorded: the balancer state is the one the selection left, so the backend keeps its share
  of the traffic and is never ejected.
\<close>

theorem schemeless_upstream_fails_every_request:
  assumes "uri_parse (cr_uri cr) address = Inr uri" and "address \<noteq> []"
    and "uri_authority (cr_uri cr) uri = Some auth" and "uri_scheme (cr_uri cr) uri = None"
    and "weight \<noteq> 0" and "ps_limiter st = None" and "\<not> forbidden cr rt req"
    and "balancer_next (ps_balancer st) (ck_eligible ck) (ck_arm ck) = (Inr i, lb)"
    and "us_uri (lb_pool lb ! i) = uri"
  shows "validate_upstream (cr_uri cr) address weight = Inr \<lparr>vu_uri = uri, vu_weight = weight\<rparr>
    \<and> fst (begin_request cr rt st req addr tls ck) = Inl (InvalidUpstream ''upstream has no scheme'')
    \<and> ps_balancer (snd (begin_request cr rt st req addr tls ck)) = lb"
proof -
  have "prepare_request cr rt req (us_uri (lb_pool lb ! i)) (sock_ip addr) tls
      = Inl (InvalidUpstream ''upstream has no scheme'')"
    using assms(3,4,9) by (simp add: prepare_request_def rewrite_uri_def)
  with assms show ?thesis
    using begin_request_selected [OF assms(6,7,8)] by (simp add: validate_schemeless)
qed

definition schemeless_uri :: ref_uri where
  "schemeless_uri = \<lparr>ru_scheme = None, ru_authority = Some ''localhost:3000'', ru_pq = None\<rparr>"

definition schemeless_state :: "(ref_uri, gcra) proxy_state" where
  "schemeless_state = \<lparr>ps_request_id = 1,
     ps_balancer = balancer_new [upstream_new \<lparr>vu_uri = schemeless_uri, vu_weight = 1\<rparr> (from_secs 30) 0],
     ps_limiter = None\<rparr>"

theorem schemeless_upstream_fails_every_request_witness:
  "fst (begin_request sample_crates sample_runtime schemeless_state (sample_request [] ''/'')
      sample_addr False sample_clock) = Inl (InvalidUpstream ''upstream has no scheme'')"
proof -
  let ?next = "balancer_next (ps_balancer schemeless_state) (ck_eligible sample_clock) (ck_arm sample_clock)"
  have "admit_request sample_crates sample_runtime (sample_request [] ''/'') = Inr ()" by code_simp
  then have ok: "\<not> forbidden sample_crates sample_runtime (sample_request [] ''/'')"
    using admit_request_Inr_iff by blast
  have p: "uri_parse (cr_uri sample_crates) ''localhost:3000'' = Inr schemeless_uri"
    "uri_authority (cr_uri sample_crates) schemeless_uri = Some ''localhost:3000''"
    "uri_scheme (cr_uri sample_crates) schemeless_uri = None" "(1::u32) \<noteq> 0"
    "ps_limiter schemeless_state = None" "us_uri (lb_pool (snd ?next) ! 0) = schemeless_uri"
    "fst ?next = Inr 0"
    by code_simp+
  have n: "?next = (Inr 0, snd ?next)" using p(7) by (metis prod.collapse)
  show ?thesis
    using schemeless_upstream_fails_every_request [OF p(1) _ p(2-5) ok n p(6)] by simp
qed

end
