(* ===== verification/Metrics.thy ===== *)
theory Metrics
  imports Rust_Std
begin

text \<open>
  \<open>metrics.rs\<close>: the metrics registry. The \<open>prometheus_client\<close> crate is a parameter: a
  store of registered series addressed by name and label value, which the handles of the
  \<open>Metrics\<close> struct share with its registry. Histogram bounds are in microseconds.
\<close>

datatype series_kind = CounterFamily | CounterSeries | GaugeFamily | GaugeSeries | HistogramSeries "nat list"

record 'm prom_api =
  pm_with_prefix :: "string \<Rightarrow> 'm"
  pm_register :: "'m \<Rightarrow> string \<Rightarrow> string \<Rightarrow> series_kind \<Rightarrow> 'm"
  pm_inc :: "'m \<Rightarrow> string \<Rightarrow> string option \<Rightarrow> 'm"
  pm_set :: "'m \<Rightarrow> string \<Rightarrow> string option \<Rightarrow> int \<Rightarrow> 'm"
  pm_observe :: "'m \<Rightarrow> string \<Rightarrow> duration \<Rightarrow> 'm"
  pm_encode :: "'m \<Rightarrow> string"

text \<open>A label set is named by the value of its one label: a status code or an upstream URI.\<close>

definition status_label :: "u16 \<Rightarrow> string" where
  "status_label status = show_nat (unat status)"

definition upstream_label :: "string \<Rightarrow> string" where
  "upstream_label upstream = upstream"

definition LATENCY_BUCKETS :: "nat list" where
  "LATENCY_BUCKETS =
     [1000, 2500, 5000, 10000, 25000, 50000, 100000, 250000, 500000, 1000000, 2500000, 5000000, 10000000]"

definition metrics_new :: "'m prom_api \<Rightarrow> 'm" where
  "metrics_new M =
     (let registry = pm_with_prefix M ''palisade'';
          registry = pm_register M registry ''requests''
            ''Responses served, labelled by HTTP status code'' CounterFamily;
          registry = pm_register M registry ''request_duration_seconds''
            ''End-to-end request handling latency in seconds'' (HistogramSeries LATENCY_BUCKETS);
          registry = pm_register M registry ''rate_limited_requests''
            ''Requests rejected by the per-IP rate limiter'' CounterSeries;
          registry = pm_register M registry ''upstream_healthy''
            ''Upstream backend health (1 = healthy, 0 = unhealthy)'' GaugeFamily;
          registry = pm_register M registry ''in_flight_requests''
            ''Requests currently being processed'' GaugeSeries
      in pm_register M registry ''open_connections''
            ''Client connections currently open'' GaugeSeries)"

definition record_response :: "'m prom_api \<Rightarrow> 'm \<Rightarrow> u16 \<Rightarrow> duration \<Rightarrow> 'm" where
  "record_response M m status latency =
     pm_observe M (pm_inc M m ''requests'' (Some (status_label status)))
       ''request_duration_seconds'' latency"

definition record_rate_limited :: "'m prom_api \<Rightarrow> 'm \<Rightarrow> 'm" where
  "record_rate_limited M m = pm_inc M m ''rate_limited_requests'' None"

definition set_in_flight :: "'m prom_api \<Rightarrow> 'm \<Rightarrow> int \<Rightarrow> 'm" where
  "set_in_flight M m value = pm_set M m ''in_flight_requests'' None value"

definition set_open_connections :: "'m prom_api \<Rightarrow> 'm \<Rightarrow> int \<Rightarrow> 'm" where
  "set_open_connections M m value = pm_set M m ''open_connections'' None value"

definition set_upstream_healthy :: "'m prom_api \<Rightarrow> 'm \<Rightarrow> string \<Rightarrow> bool \<Rightarrow> 'm" where
  "set_upstream_healthy M m upstream healthy =
     pm_set M m ''upstream_healthy'' (Some (upstream_label upstream)) (if healthy then 1 else 0)"

definition metrics_encode :: "'m prom_api \<Rightarrow> 'm \<Rightarrow> string" where
  "metrics_encode M m = pm_encode M m"

section \<open>The contract of the metric handles\<close>

text \<open>
  \<open>val m s l\<close> is the value a scrape would report for the series \<open>s\<close> with label \<open>l\<close>
  (zero before it is created), \<open>obs m s\<close> the number of observations of a histogram.
  Counters are below their \<open>u64\<close> range.
\<close>

locale prom_laws =
  fixes M :: "'m prom_api"
    and val :: "'m \<Rightarrow> string \<Rightarrow> string option \<Rightarrow> int"
    and obs :: "'m \<Rightarrow> string \<Rightarrow> nat"
  assumes val_inc: "val (pm_inc M m s l) s' l' = val m s' l' + (if s' = s \<and> l' = l then 1 else 0)"
    and val_set: "val (pm_set M m s l v) s' l' = (if s' = s \<and> l' = l then v else val m s' l')"
    and val_observe: "val (pm_observe M m s d) s' l' = val m s' l'"
    and obs_observe: "obs (pm_observe M m s d) s' = obs m s' + (if s' = s then 1 else 0)"
    and obs_inc: "obs (pm_inc M m s l) s' = obs m s'"
begin

lemma val_record_response:
  "val (record_response M m st d) s l =
     val m s l + (if s = ''requests'' \<and> l = Some (status_label st) then 1 else 0)"
  by (simp add: record_response_def val_observe val_inc)

lemma obs_record_response:
  "obs (record_response M m st d) s = obs m s + (if s = ''request_duration_seconds'' then 1 else 0)"
  by (simp add: record_response_def obs_observe obs_inc)

lemma val_record_rate_limited:
  "val (record_rate_limited M m) s l =
     val m s l + (if s = ''rate_limited_requests'' \<and> l = None then 1 else 0)"
  by (simp add: record_rate_limited_def val_inc)

lemma obs_record_rate_limited: "obs (record_rate_limited M m) s = obs m s"
  by (simp add: record_rate_limited_def obs_inc)

end

text \<open>The reference instance: values and observation counts as association lists.\<close>

record ref_registry =
  rg_values :: "((string \<times> string option) \<times> int) list"
  rg_obs :: "(string \<times> nat) list"

definition ref_val :: "ref_registry \<Rightarrow> string \<Rightarrow> string option \<Rightarrow> int" where
  "ref_val m s l = (case map_of (rg_values m) (s, l) of None \<Rightarrow> 0 | Some v \<Rightarrow> v)"

definition ref_obs :: "ref_registry \<Rightarrow> string \<Rightarrow> nat" where
  "ref_obs m s = (case map_of (rg_obs m) s of None \<Rightarrow> 0 | Some n \<Rightarrow> n)"

definition ref_prom :: "ref_registry prom_api" where
  "ref_prom =
     \<lparr>pm_with_prefix = (\<lambda>_. \<lparr>rg_values = [], rg_obs = []\<rparr>),
      pm_register = (\<lambda>m _ _ _. m),
      pm_inc = (\<lambda>m s l. m\<lparr>rg_values := ((s, l), ref_val m s l + 1) # rg_values m\<rparr>),
      pm_set = (\<lambda>m s l v. m\<lparr>rg_values := ((s, l), v) # rg_values m\<rparr>),
      pm_observe = (\<lambda>m s d. m\<lparr>rg_obs := (s, Suc (ref_obs m s)) # rg_obs m\<rparr>),
      pm_encode = (\<lambda>m. concat (map (\<lambda>((s, l), v). s) (rg_values m)))\<rparr>"

interpretation ref_metrics: prom_laws ref_prom ref_val ref_obs
  by unfold_locales (auto simp: ref_prom_def ref_val_def ref_obs_def)

end
