(* ===== verification/Server.thy ===== *)
theory Server
  imports Proxy_Response Metrics
begin

text \<open>
  \<open>server.rs\<close>: the per-request service of the accept loop with its concurrency permit and
  metrics, the active health checker, and the rate-limiter cleanup. The accept loop and the
  interleaving of requests are in \<open>Server_Machine\<close>.
\<close>

section \<open>Semaphores (crate tokio)\<close>

text \<open>
  A semaphore is created with a number of permits (None is the panic above
  \<open>MAX_PERMITS\<close>); \<open>sm_try_acquire\<close> takes one or fails at once, \<open>sm_release\<close> is the drop
  of an owned permit. The proxy never closes its semaphores.
\<close>

record 's sem_api =
  sm_new :: "usize \<Rightarrow> 's option"
  sm_try_acquire :: "'s \<Rightarrow> 's option"
  sm_release :: "'s \<Rightarrow> 's"
  sm_available :: "'s \<Rightarrow> nat"

definition MAX_PERMITS :: nat where
  "MAX_PERMITS = 2 ^ 61 - 1"

locale sem_laws =
  fixes S :: "'s sem_api"
  assumes new_ok: "unat n \<le> MAX_PERMITS \<Longrightarrow> \<exists>s. sm_new S n = Some s \<and> sm_available S s = unat n"
    and new_panics: "MAX_PERMITS < unat n \<Longrightarrow> sm_new S n = None"
    and acquire_None: "sm_try_acquire S s = None \<longleftrightarrow> sm_available S s = 0"
    and acquire_Some: "sm_try_acquire S s = Some s' \<Longrightarrow> Suc (sm_available S s') = sm_available S s"
    and release: "sm_available S s < MAX_PERMITS \<Longrightarrow>
      sm_available S (sm_release S s) = Suc (sm_available S s)"

definition ref_sem :: "nat sem_api" where
  "ref_sem =
     \<lparr>sm_new = (\<lambda>n. if unat n \<le> MAX_PERMITS then Some (unat n) else None),
      sm_try_acquire = (\<lambda>s. if s = 0 then None else Some (s - 1)),
      sm_release = Suc, sm_available = (\<lambda>s. s)\<rparr>"

interpretation ref_semaphore: sem_laws ref_sem
  by unfold_locales (auto simp: ref_sem_def split: if_splits)

section \<open>Serving one request\<close>

record ('uri, 'lim, 's, 'm) server_state =
  sv_proxy :: "('uri, 'lim) proxy_state"
  sv_semaphore :: 's
  sv_concurrency_limit :: usize
  sv_connection_semaphore :: 's
  sv_metrics :: "'m option"

text \<open>The settings of the connection builder: the HTTP/1 header timeout, and timers for both
  protocols.\<close>

record connection_builder =
  bd_header_read_timeout :: duration
  bd_http1_timer :: bool
  bd_http2_timer :: bool

definition serve_builder :: "('uri, 'rx) runtime_config \<Rightarrow> connection_builder" where
  "serve_builder rt =
     \<lparr>bd_header_read_timeout = rt_header_read_timeout rt, bd_http1_timer = True, bd_http2_timer = True\<rparr>"

definition box_error_body :: "string \<Rightarrow> 'b box_body" where
  "box_error_body body = Full body"

definition error_response ::
  "('hm, 'hv) header_api \<Rightarrow> ((string \<times> string) list \<Rightarrow> string) \<Rightarrow> proxy_error
     \<Rightarrow> ('hm, 'b box_body) response option" where
  "error_response A json e =
     map_option (\<lambda>r. \<lparr>rs_status = rs_status r, rs_version = rs_version r,
                       rs_headers = rs_headers r, rs_body = box_error_body (rs_body r)\<rparr>)
       (into_response A json e)"

definition note_error :: "'m prom_api \<Rightarrow> 'm option \<Rightarrow> proxy_error \<Rightarrow> 'm option" where
  "note_error M metrics e =
     (case metrics of None \<Rightarrow> None
      | Some m \<Rightarrow> (case e of RateLimited _ \<Rightarrow> Some (record_rate_limited M m) | _ \<Rightarrow> Some m))"

definition note_response ::
  "'m prom_api \<Rightarrow> 'm option \<Rightarrow> ('hm, 'b) response option \<Rightarrow> duration \<Rightarrow> 'm option" where
  "note_response M metrics resp latency =
     (case (metrics, resp) of
        (Some m, Some r) \<Rightarrow> Some (record_response M m (rs_status r) latency)
      | _ \<Rightarrow> metrics)"

text \<open>
  The \<open>service_fn\<close> closure: a permit or 503, the handler, the error response and the
  metrics. The response is None only if building it panics; the permit is returned at the
  end of the handler.
\<close>

definition service_call ::
  "('hm, 'hv, 'uri, 'rx, 'lim, 'neg, 'b) crates \<Rightarrow> 's sem_api \<Rightarrow> 'm prom_api
     \<Rightarrow> ((string \<times> string) list \<Rightarrow> string) \<Rightarrow> ('uri, 'rx) runtime_config
     \<Rightarrow> ('uri, 'lim, 's, 'm) server_state \<Rightarrow> ('hm, 'uri, 'c) request
     \<Rightarrow> (('hm, 'uri, 'c limited) request \<Rightarrow> ('hm, 'b) outcome) \<Rightarrow> socket_addr \<Rightarrow> bool
     \<Rightarrow> request_clock \<Rightarrow> instant \<Rightarrow> duration
     \<Rightarrow> ('hm, 'b box_body) response option \<times> ('uri, 'lim, 's, 'm) server_state" where
  "service_call cr S M json rt sv req client client_addr client_tls ck now latency =
     (case sm_try_acquire S (sv_semaphore sv) of
        None \<Rightarrow>
          (let resp = error_response (cr_http cr) json (ServiceUnavailable (sv_concurrency_limit sv))
           in (resp, sv\<lparr>sv_metrics := note_response M (sv_metrics sv) resp latency\<rparr>))
      | Some sem \<Rightarrow>
          (case handle_request cr rt (sv_proxy sv) req client client_addr client_tls ck now of
             (Inr r, ps) \<Rightarrow>
               (Some r, sv\<lparr>sv_proxy := ps, sv_semaphore := sm_release S sem,
                           sv_metrics := note_response M (sv_metrics sv) (Some r) latency\<rparr>)
           | (Inl e, ps) \<Rightarrow>
               (let metrics = note_error M (sv_metrics sv) e;
                    resp = error_response (cr_http cr) json e
                in (resp, sv\<lparr>sv_proxy := ps, sv_semaphore := sm_release S sem,
                             sv_metrics := note_response M metrics resp latency\<rparr>))))"

lemma error_response_Some:
  assumes "header_laws A"
  obtains r where "error_response A json e = Some r" "rs_status r = status_code e"
  using into_response_headers [OF assms, of json e] by (auto simp: error_response_def)

lemma note_error_counts:
  assumes "prom_laws M val obs"
  obtains m' where "note_error M (Some m) e = Some m'"
    "\<And>s l. val m' s l = val m s l + (if s = ''rate_limited_requests'' \<and> l = None \<and> (\<exists>ms. e = RateLimited ms) then 1 else 0)"
    "\<And>s. obs m' s = obs m s"
  using prom_laws.val_record_rate_limited [OF assms] prom_laws.obs_record_rate_limited [OF assms]
  by (cases e) (auto simp: note_error_def)

lemma permit_returned:
  assumes "sem_laws S" "sm_available S k \<le> MAX_PERMITS" "sm_try_acquire S k = Some k'"
  shows "sm_available S k \<noteq> 0" "sm_available S (sm_release S k') = sm_available S k"
  using sem_laws.acquire_Some [OF assms(1,3)] sem_laws.release [OF assms(1), of k'] assms(2) by simp_all

text \<open>The status the client is answered with, as the service decides it.\<close>

definition answer_status ::
  "'s sem_api \<Rightarrow> 's \<Rightarrow> (proxy_error, ('hm, 'b box_body) response) result \<Rightarrow> u16" where
  "answer_status S sem r =
     (if sm_available S sem = 0 then 503
      else case r of Inl e \<Rightarrow> status_code e | Inr resp \<Rightarrow> rs_status resp)"

text \<open>
  C14. Every request is answered and counted exactly once: with metrics enabled, the service
  always produces a response (503 when no permit is free, the error's status when the handler
  fails, the handler's response otherwise), adds exactly one to the counter of that status
  and one latency observation, adds one to the rate-limited counter exactly when the handler
  reports a rate-limit rejection, and returns the permit it took.
\<close>

theorem every_request_answered_and_counted:
  fixes cr :: "('hm, 'hv, 'uri, 'rx, 'lim, 'neg, 'b) crates"
  assumes "header_laws (cr_http cr)" and "sem_laws S" and "prom_laws M val obs"
    and "sv_metrics sv = Some m" and "sm_available S (sv_semaphore sv) \<le> MAX_PERMITS"
    and "handle_request cr rt (sv_proxy sv) req client addr tls ck now = (r, ps)"
    and "service_call cr S M json rt sv req client addr tls ck now latency = (resp, sv')"
  shows "\<exists>a m'. resp = Some a \<and> sv_metrics sv' = Some m'
    \<and> rs_status a = answer_status S (sv_semaphore sv) r
    \<and> val m' ''requests'' (Some (status_label (rs_status a)))
        = val m ''requests'' (Some (status_label (rs_status a))) + 1
    \<and> obs m' ''request_duration_seconds'' = obs m ''request_duration_seconds'' + 1
    \<and> val m' ''rate_limited_requests'' None = val m ''rate_limited_requests'' None
        + (if sm_available S (sv_semaphore sv) \<noteq> 0 \<and> (\<exists>ms. r = Inl (RateLimited ms)) then 1 else 0)
    \<and> sm_available S (sv_semaphore sv') = sm_available S (sv_semaphore sv)"
proof (cases "sm_try_acquire S (sv_semaphore sv)")
  case None
  obtain a :: "('hm, 'b box_body) response"
    where a: "error_response (cr_http cr) json (ServiceUnavailable (sv_concurrency_limit sv)) = Some a"
      "rs_status a = 503"
    using error_response_Some [OF assms(1), where e = "ServiceUnavailable (sv_concurrency_limit sv)"]
    by (metis status_code.simps(16))
  have "sm_available S (sv_semaphore sv) = 0" using None sem_laws.acquire_None [OF assms(2)] by blast
  moreover have "resp = Some a" "sv' = sv\<lparr>sv_metrics := Some (record_response M m 503 latency)\<rparr>"
    using a None assms(4,7) by (simp_all add: service_call_def note_response_def)
  ultimately show ?thesis
    using a(2) by (intro exI [of _ a] exI [of _ "record_response M m 503 latency"])
      (simp add: answer_status_def prom_laws.val_record_response [OF assms(3)]
        prom_laws.obs_record_response [OF assms(3)])
next
  case (Some sem)
  note av = permit_returned(1) [OF assms(2,5) Some] and rel = permit_returned(2) [OF assms(2,5) Some]
  show ?thesis
  proof (cases r)
    case (Inl e)
    obtain a :: "('hm, 'b box_body) response"
      where a: "error_response (cr_http cr) json e = Some a" "rs_status a = status_code e"
      using error_response_Some [OF assms(1)] by metis
    obtain m1 where m1: "note_error M (Some m) e = Some m1"
        "\<And>s l. val m1 s l = val m s l + (if s = ''rate_limited_requests'' \<and> l = None \<and> (\<exists>ms. e = RateLimited ms) then 1 else 0)"
        "\<And>s. obs m1 s = obs m s"
      using note_error_counts [OF assms(3), of m e] by metis
    have "resp = Some a" "sv' = sv\<lparr>sv_proxy := ps, sv_semaphore := sm_release S sem,
        sv_metrics := Some (record_response M m1 (status_code e) latency)\<rparr>"
      using Some Inl a m1(1) assms(4,6,7) by (simp_all add: service_call_def note_response_def Let_def)
    then show ?thesis
      using Inl a(2) av rel m1(2,3)
      by (intro exI [of _ a] exI [of _ "record_response M m1 (status_code e) latency"])
        (simp add: answer_status_def prom_laws.val_record_response [OF assms(3)]
          prom_laws.obs_record_response [OF assms(3)])
  next
    case (Inr a)
    then show ?thesis
      using Some assms(4,6,7) av rel
      by (auto simp: service_call_def Let_def note_response_def answer_status_def
          prom_laws.val_record_response [OF assms(3)] prom_laws.obs_record_response [OF assms(3)])
  qed
qed

definition sample_json :: "(string \<times> string) list \<Rightarrow> string" where
  "sample_json kvs = concat (map snd kvs)"

definition sample_server :: "nat \<Rightarrow> (ref_uri, gcra, nat, ref_registry) server_state" where
  "sample_server permits =
     \<lparr>sv_proxy = sample_state, sv_semaphore = permits, sv_concurrency_limit = 5,
      sv_connection_semaphore = 10, sv_metrics = Some (metrics_new ref_prom)\<rparr>"

theorem every_request_answered_and_counted_witness:
  "\<exists>a m'. fst (service_call sample_crates ref_sem ref_prom sample_json sample_runtime (sample_server 0)
        (sample_request [] ''/'') (\<lambda>_. Elapsed) sample_addr False sample_clock 20 5) = Some a
    \<and> sv_metrics (snd (service_call sample_crates ref_sem ref_prom sample_json sample_runtime (sample_server 0)
        (sample_request [] ''/'') (\<lambda>_. Elapsed) sample_addr False sample_clock 20 5)) = Some m'
    \<and> rs_status a = 503
    \<and> ref_val m' ''requests'' (Some (status_label 503)) = 1"
proof -
  let ?sv = "sample_server 0"
  let ?call = "service_call sample_crates ref_sem ref_prom sample_json sample_runtime ?sv
        (sample_request [] ''/'') (\<lambda>_. Elapsed) sample_addr False sample_clock 20 5"
  let ?h = "handle_request sample_crates sample_runtime (sv_proxy ?sv) (sample_request [] ''/'')
        (\<lambda>_. Elapsed) sample_addr False sample_clock 20"
  have L: "header_laws (cr_http sample_crates)" using ref_http.header_laws_axioms by simp
  have A: "sv_metrics ?sv = Some (metrics_new ref_prom)" "sm_available ref_sem (sv_semaphore ?sv) = 0"
    by (simp_all add: sample_server_def ref_sem_def)
  have z: "ref_val (metrics_new ref_prom) ''requests'' (Some (status_label 503)) = 0" by code_simp
  have "sm_available ref_sem (sv_semaphore ?sv) \<le> MAX_PERMITS" using A(2) by simp
  from every_request_answered_and_counted [OF L ref_semaphore.sem_laws_axioms
      ref_metrics.prom_laws_axioms A(1) this, of sample_runtime "sample_request [] ''/''"
      "\<lambda>_. Elapsed" sample_addr False sample_clock 20 "fst ?h" "snd ?h" sample_json 5 "fst ?call" "snd ?call"]
  show ?thesis using A(2) z by (auto simp: answer_status_def)
qed

end
