(* ===== verification/Health_Check.thy ===== *)
theory Health_Check
  imports Server
begin

text \<open>
  The background tasks of \<open>server.rs\<close>: the active health checker, one sweep of which probes
  every backend in turn, and the periodic pruning of the rate limiter. The network is a
  function from probe URIs to results, one per sweep.
\<close>

section \<open>Active health checks\<close>

datatype probe_result = ProbeStatus u16 | ProbeError | ProbeTimeout

definition probe_uri_str :: "'uri uri_api \<Rightarrow> 'uri \<Rightarrow> string \<Rightarrow> string" where
  "probe_uri_str U uri path =
     unwrap_or ''http'' (uri_scheme U uri) @ ''://'' @ unwrap_or ''localhost'' (uri_authority U uri) @ path"

text \<open>\<open>StatusCode::is_success\<close>.\<close>

definition is_success :: "u16 \<Rightarrow> bool" where
  "is_success st \<longleftrightarrow> 200 \<le> st \<and> st < 300"

definition probe_backend ::
  "'uri uri_api \<Rightarrow> ('uri \<Rightarrow> probe_result) \<Rightarrow> string \<Rightarrow> u32 \<Rightarrow> u32 \<Rightarrow> 'uri inner_state \<Rightarrow> instant
     \<Rightarrow> 'uri inner_state" where
  "probe_backend U probe path failure_threshold healthy_threshold backend now =
     (case uri_parse U (probe_uri_str U (us_uri backend) path) of
        Inl _ \<Rightarrow> backend
      | Inr uri \<Rightarrow>
          (case probe uri of
             ProbeStatus st \<Rightarrow>
               if is_success st then snd (record_success backend healthy_threshold)
               else snd (record_failure backend failure_threshold now)
           | ProbeError \<Rightarrow> snd (record_failure backend failure_threshold now)
           | ProbeTimeout \<Rightarrow> snd (record_failure backend failure_threshold now)))"

text \<open>One pass of the loop over \<open>balancer.pool().all()\<close>; \<open>clk i\<close> is when backend \<open>i\<close>'s probe
  ends.\<close>

definition health_sweep ::
  "'uri uri_api \<Rightarrow> string \<Rightarrow> u32 \<Rightarrow> u32 \<Rightarrow> 'uri inner_state list \<Rightarrow> ('uri \<Rightarrow> probe_result) \<times> (nat \<Rightarrow> instant)
     \<Rightarrow> 'uri inner_state list" where
  "health_sweep U path failure_threshold healthy_threshold pool sweep =
     map (\<lambda>(i, b). probe_backend U (fst sweep) path failure_threshold healthy_threshold b (snd sweep i))
       (enumerate 0 pool)"

text \<open>The probe of a backend passes when its URI parses and it answers with a 2xx status; it
  fails when the URI parses and it does anything else.\<close>

definition probe_passes :: "'uri uri_api \<Rightarrow> string \<Rightarrow> 'uri \<Rightarrow> ('uri \<Rightarrow> probe_result) \<Rightarrow> bool" where
  "probe_passes U path uri probe \<longleftrightarrow>
     (case uri_parse U (probe_uri_str U uri path) of
        Inl _ \<Rightarrow> False
      | Inr u \<Rightarrow> (case probe u of ProbeStatus st \<Rightarrow> is_success st | _ \<Rightarrow> False))"

definition probe_fails :: "'uri uri_api \<Rightarrow> string \<Rightarrow> 'uri \<Rightarrow> ('uri \<Rightarrow> probe_result) \<Rightarrow> bool" where
  "probe_fails U path uri probe \<longleftrightarrow>
     (case uri_parse U (probe_uri_str U uri path) of
        Inl _ \<Rightarrow> False
      | Inr u \<Rightarrow> (case probe u of ProbeStatus st \<Rightarrow> \<not> is_success st | _ \<Rightarrow> True))"

lemma probe_backend_step:
  "probe_passes U path (us_uri b) probe \<Longrightarrow> probe_backend U probe path ft ht b t = health_step ft ht b EvSuccess"
  "probe_fails U path (us_uri b) probe \<Longrightarrow> probe_backend U probe path ft ht b t = health_step ft ht b (EvFailure t)"
  by (auto simp: probe_backend_def probe_passes_def probe_fails_def
      split: sum.splits probe_result.splits if_splits)

lemma health_step_uri [simp]: "us_uri (health_step ft ht b e) = us_uri b"
  by (cases e) (auto simp: upstream_defs)

lemma length_health_sweep [simp]: "length (health_sweep U path ft ht pool sw) = length pool"
  by (simp add: health_sweep_def)

lemma length_health_sweeps [simp]: "length (foldl (health_sweep U path ft ht) pool sws) = length pool"
  by (induction sws arbitrary: pool) auto

lemma health_sweep_nth:
  "i < length pool \<Longrightarrow>
   health_sweep U path ft ht pool sw ! i = probe_backend U (fst sw) path ft ht (pool ! i) (snd sw i)"
  by (simp add: health_sweep_def nth_enumerate_eq)

lemma sweeps_pass:
  assumes "i < length pool" "\<forall>sw\<in>set sws. probe_passes U path (us_uri (pool ! i)) (fst sw)"
  shows "foldl (health_sweep U path ft ht) pool sws ! i
       = foldl (health_step ft ht) (pool ! i) (replicate (length sws) EvSuccess)"
  using assms
proof (induction sws arbitrary: pool)
  case (Cons sw sws)
  then show ?case
    using Cons.IH [of "health_sweep U path ft ht pool sw"]
    by (simp add: health_sweep_nth probe_backend_step(1) del: health_step.simps)
qed simp

lemma sweeps_fail:
  assumes "i < length pool" "\<forall>sw\<in>set sws. probe_fails U path (us_uri (pool ! i)) (fst sw)"
  shows "foldl (health_sweep U path ft ht) pool sws ! i
       = foldl (health_step ft ht) (pool ! i) (map (\<lambda>sw. EvFailure (snd sw i)) sws)"
  using assms
proof (induction sws arbitrary: pool)
  case (Cons sw sws)
  then show ?case
    using Cons.IH [of "health_sweep U path ft ht pool sw"]
    by (simp add: health_sweep_nth probe_backend_step(2) del: health_step.simps)
qed simp

lemma successes_heal:
  assumes "ft \<noteq> 0" "ht \<noteq> 0" "health_inv ft ht s" "unat ht \<le> n"
  shows "is_healthy (foldl (health_step ft ht) s (replicate n EvSuccess))"
  unfolding is_healthy_abs abs_health_foldl [OF assms(1-3)]
proof (cases "us_healthy s")
  case True
  have "foldl (spec_step f h dl) (Up k) (replicate n EvSuccess) = Up (if n = 0 then k else 0)" for f h dl k
    by (induction n arbitrary: k) auto
  moreover have "abs_health s = Up (unat (us_consecutive_failures s))" using True by (simp add: abs_health_def)
  ultimately show "case foldl (spec_step (unat ft) (unat ht) (deadline s)) (abs_health s) (replicate n EvSuccess)
      of Up _ \<Rightarrow> True | Down _ _ \<Rightarrow> False" by simp
next
  case False
  then have "unat (us_consecutive_successes s) < unat ht"
    using assms(3) by (simp add: health_inv_def word_less_nat_alt)
  moreover have "abs_health s = Down (unat (us_consecutive_successes s)) (unat (us_cooldown_until_ms s))"
    using False by (simp add: abs_health_def)
  ultimately show "case foldl (spec_step (unat ft) (unat ht) (deadline s)) (abs_health s) (replicate n EvSuccess)
      of Up _ \<Rightarrow> True | Down _ _ \<Rightarrow> False"
    using spec_successes [of "unat (us_consecutive_successes s)" "unat ht" "unat ft" "deadline s" _ n] assms(4)
    by simp
qed

lemma failures_eject:
  assumes "ft \<noteq> 0" "ht \<noteq> 0" "health_inv ft ht s" "unat ft \<le> length ts"
  shows "\<not> is_healthy (foldl (health_step ft ht) s (map EvFailure ts))"
  unfolding is_healthy_abs abs_health_foldl [OF assms(1-3)]
proof (cases "us_healthy s")
  case True
  then have "unat (us_consecutive_failures s) < unat ft"
    using assms(3) by (simp add: health_inv_def word_less_nat_alt)
  moreover have "abs_health s = Up (unat (us_consecutive_failures s))" using True by (simp add: abs_health_def)
  ultimately show "\<not> (case foldl (spec_step (unat ft) (unat ht) (deadline s)) (abs_health s) (map EvFailure ts)
      of Up _ \<Rightarrow> True | Down _ _ \<Rightarrow> False)"
    using spec_failures [of "unat (us_consecutive_failures s)" "unat ft" "unat ht" "deadline s" ts] assms(4)
    by simp
next
  case False
  have dn: "\<exists>k. foldl (spec_step f h dl) (Down j d) (map EvFailure ts) = Down k d" for f h dl j d
    by (induction ts arbitrary: j) auto
  have "abs_health s = Down (unat (us_consecutive_successes s)) (unat (us_cooldown_until_ms s))"
    using False by (simp add: abs_health_def)
  with dn [of "unat ft" "unat ht" "deadline s" "unat (us_consecutive_successes s)" "unat (us_cooldown_until_ms s)"]
  show "\<not> (case foldl (spec_step (unat ft) (unat ht) (deadline s)) (abs_health s) (map EvFailure ts)
      of Up _ \<Rightarrow> True | Down _ _ \<Rightarrow> False)" by auto
qed



section \<open>Rate-limiter cleanup\<close>

text \<open>
  One tick of \<open>spawn_rate_limit_cleanup\<close>: the count, the pruning, the count again, and the
  number logged as pruned. Requests are served in between: \<open>before_prune\<close> and
  \<open>after_prune\<close> are the checks that happen between the calls. The subtraction wraps, as in a
  build without overflow checks.
\<close>

definition cleanup_tick ::
  "('lim, 'neg) governor_api \<Rightarrow> 'lim \<Rightarrow> limiter_event list \<Rightarrow> instant \<Rightarrow> limiter_event list
     \<Rightarrow> usize option \<times> 'lim" where
  "cleanup_tick G limiter before_prune now after_prune =
     (let before = tracked_ip_count G limiter;
          limiter1 = foldl (limiter_step G) limiter before_prune;
          limiter2 = limiter_retain_recent G limiter1 now;
          limiter3 = foldl (limiter_step G) limiter2 after_prune;
          after = tracked_ip_count G limiter3
      in (if before \<noteq> after then Some (before - after) else None, limiter3))"

text \<open>
  The logged count of a cleanup underflows: when a new client is served between the two
  counts, the number of tracked addresses grows and \<open>before - after\<close> is negative, which wraps
  to \<open>usize::MAX\<close> (and panics where overflow checks are on).
\<close>

theorem cleanup_count_underflows:
  "fst (cleanup_tick ref_governor sample_limiter [] 5 [Check (V4 10 0 0 9) 6]) = Some u_max"
  by code_simp

end
