(* ===== verification/Server_Machine.thy ===== *)
theory Server_Machine
  imports Health_Check
begin

text \<open>
  The running server as a step relation: the accept loop of \<open>serve\<close> with its connection and
  request permits, requests in flight in any interleaving (a request may also be cancelled
  when its connection goes away), health probes, limiter pruning, shutdown and abort. The
  invariant ties the permits to what is open, keeps the balancer's weights conserved and
  every backend within its thresholds.
\<close>

record ('hm, 'uri, 'c, 'lim, 's) machine =
  mc_proxy :: "('uri, 'lim) proxy_state"
  mc_semaphore :: 's
  mc_connection_semaphore :: 's
  mc_connections :: nat
  mc_flights :: "('hm, 'uri, 'c) in_flight list"
  mc_accepting :: bool

datatype ('hm, 'uri, 'c, 'b) server_event =
    Accept
  | AcceptError
  | ConnectionEnd
  | Arrive "('hm, 'uri, 'c) request" socket_addr bool request_clock
  | Finish nat "('hm, 'b) outcome" instant
  | Cancel nat
  | Probe nat "'uri \<Rightarrow> probe_result" instant
  | PruneLimiter instant
  | Shutdown
  | AbortAll

definition remove_nth :: "nat \<Rightarrow> 'a list \<Rightarrow> 'a list" where
  "remove_nth i xs = take i xs @ drop (Suc i) xs"

text \<open>
  The steps of the accept loop (\<open>accept\<close>, \<open>full\<close>, \<open>failed\<close>), of a connection task, of the
  service closure (\<open>busy\<close>, \<open>refused\<close>, \<open>admitted\<close>, \<open>finish\<close>, \<open>cancel\<close>), of the two background
  tasks, and of the shutdown sequence.
\<close>

inductive server_step ::
  "('hm, 'hv, 'uri, 'rx, 'lim, 'neg, 'b) crates \<Rightarrow> 's sem_api \<Rightarrow> ('uri, 'rx) runtime_config \<Rightarrow> string
     \<Rightarrow> ('hm, 'uri, 'c, 'lim, 's) machine \<Rightarrow> ('hm, 'uri, 'c, 'b) server_event
     \<Rightarrow> ('hm, 'uri, 'c, 'lim, 's) machine \<Rightarrow> bool"
  for cr S rt path where
  accept: "mc_accepting s \<Longrightarrow> sm_try_acquire S (mc_connection_semaphore s) = Some k \<Longrightarrow>
    server_step cr S rt path s Accept
      (s\<lparr>mc_connection_semaphore := k, mc_connections := Suc (mc_connections s)\<rparr>)"
| full: "mc_accepting s \<Longrightarrow> sm_try_acquire S (mc_connection_semaphore s) = None \<Longrightarrow>
    server_step cr S rt path s Accept s"
| failed: "mc_accepting s \<Longrightarrow> server_step cr S rt path s AcceptError s"
| conn_end: "0 < mc_connections s \<Longrightarrow>
    server_step cr S rt path s ConnectionEnd
      (s\<lparr>mc_connection_semaphore := sm_release S (mc_connection_semaphore s),
         mc_connections := mc_connections s - 1\<rparr>)"
| busy: "0 < mc_connections s \<Longrightarrow> sm_try_acquire S (mc_semaphore s) = None \<Longrightarrow>
    server_step cr S rt path s (Arrive req addr tls ck) s"
| refused: "0 < mc_connections s \<Longrightarrow> sm_try_acquire S (mc_semaphore s) = Some k \<Longrightarrow>
    begin_request cr rt (mc_proxy s) req addr tls ck = (Inl e, ps) \<Longrightarrow>
    server_step cr S rt path s (Arrive req addr tls ck)
      (s\<lparr>mc_proxy := ps, mc_semaphore := sm_release S k\<rparr>)"
| admitted: "0 < mc_connections s \<Longrightarrow> sm_try_acquire S (mc_semaphore s) = Some k \<Longrightarrow>
    begin_request cr rt (mc_proxy s) req addr tls ck = (Inr fl, ps) \<Longrightarrow>
    server_step cr S rt path s (Arrive req addr tls ck)
      (s\<lparr>mc_proxy := ps, mc_semaphore := k, mc_flights := mc_flights s @ [fl]\<rparr>)"
| finish: "i < length (mc_flights s) \<Longrightarrow>
    complete_request cr rt (mc_proxy s) (mc_flights s ! i) out now = (r, ps) \<Longrightarrow>
    server_step cr S rt path s (Finish i out now)
      (s\<lparr>mc_proxy := ps, mc_semaphore := sm_release S (mc_semaphore s),
         mc_flights := remove_nth i (mc_flights s)\<rparr>)"
| cancel: "i < length (mc_flights s) \<Longrightarrow>
    server_step cr S rt path s (Cancel i)
      (s\<lparr>mc_semaphore := sm_release S (mc_semaphore s), mc_flights := remove_nth i (mc_flights s)\<rparr>)"
| probe: "i < length (lb_pool (ps_balancer (mc_proxy s))) \<Longrightarrow>
    server_step cr S rt path s (Probe i net now)
      (s\<lparr>mc_proxy := on_backend i (\<lambda>b. probe_backend (cr_uri cr) net path
           (rt_failure_threshold rt) (rt_healthy_threshold rt) b now) (mc_proxy s)\<rparr>)"
| prune: "server_step cr S rt path s (PruneLimiter now)
      (s\<lparr>mc_proxy := (mc_proxy s)\<lparr>ps_limiter :=
           map_option (\<lambda>l. limiter_retain_recent (cr_gov cr) l now) (ps_limiter (mc_proxy s))\<rparr>\<rparr>)"
| shutdown: "mc_accepting s \<Longrightarrow> server_step cr S rt path s Shutdown (s\<lparr>mc_accepting := False\<rparr>)"
| abort: "\<not> mc_accepting s \<Longrightarrow>
    server_step cr S rt path s AbortAll
      (s\<lparr>mc_connection_semaphore := (sm_release S ^^ mc_connections s) (mc_connection_semaphore s),
         mc_connections := 0,
         mc_semaphore := (sm_release S ^^ length (mc_flights s)) (mc_semaphore s), mc_flights := []\<rparr>)"

inductive_cases server_step_accept: "server_step cr S rt path s Accept t"

section \<open>The balancer under the handlers\<close>

definition lb_inv :: "u32 \<Rightarrow> u32 \<Rightarrow> 'uri load_balancer \<Rightarrow> bool" where
  "lb_inv ft ht lb \<longleftrightarrow> conserved lb \<and> list_all (health_inv ft ht) (lb_pool lb)"

lemma conserved_step: "conserved lb \<Longrightarrow> conserved (balancer_step ft ht lb e)"
  using conservation.step_inv [of ft ht lb e "balancer_step ft ht lb e"] by (simp add: fun_step_def)

lemma lb_inv_health:
  assumes "ft \<noteq> 0" "ht \<noteq> 0" "lb_inv ft ht lb"
  shows "lb_inv ft ht (balancer_step ft ht lb (BHealth i e))"
  using assms conserved_step [of lb ft ht "BHealth i e"] health_step_inv [OF assms(1,2)]
  by (auto simp: lb_inv_def list_all_length nth_list_update)

lemma balancer_next_pool:
  assumes "lb_wf lb"
  shows "lb_pool (snd (balancer_next lb clk t)) = lb_pool lb \<or>
    (\<exists>i<length (lb_pool lb). lb_pool (snd (balancer_next lb clk t)) =
       (lb_pool lb)[i := arm_cooldown (lb_pool lb ! i) t])"
proof (cases rule: balancer_next_cases [of lb clk])
  case none
  with assms show ?thesis by (simp add: balancer_next_None)
next
  case (some i)
  have "i < length (lb_pool lb)" by (rule best_scan_candidates [OF some])
  then show ?thesis by (auto simp: balancer_next_Some [OF some])
qed

lemma balancer_next_index:
  assumes "balancer_next lb clk t = (Inr i, lb')" "lb_wf lb"
  shows "i < length (lb_pool lb')"
proof (cases rule: balancer_next_cases [of lb clk])
  case none
  with assms show ?thesis by (simp add: balancer_next_None)
next
  case (some j)
  have "j < length (lb_pool lb)" by (rule best_scan_candidates [OF some])
  with assms show ?thesis by (auto simp: balancer_next_Some [OF some])
qed

lemma lb_inv_next:
  assumes "ft \<noteq> 0" "ht \<noteq> 0" "lb_inv ft ht lb"
  shows "lb_inv ft ht (snd (balancer_next lb clk t))"
proof -
  have wf: "lb_wf lb" using assms(3) by (simp add: lb_inv_def conserved_def)
  have "health_inv ft ht (arm_cooldown b t)" if "health_inv ft ht b" for b :: "'a inner_state"
    using health_step_inv [OF assms(1,2) that, of "EvArm t"] by simp
  then have "list_all (health_inv ft ht) (lb_pool (snd (balancer_next lb clk t)))"
    using balancer_next_pool [OF wf, of clk t] assms(3)
    by (auto simp: lb_inv_def list_all_length nth_list_update)
  then show ?thesis
    using conserved_step [of lb ft ht "BNext clk t"] assms(3) by (simp add: lb_inv_def)
qed

lemma same_uris_next:
  "lb_wf lb \<Longrightarrow> map us_uri (lb_pool (snd (balancer_next lb clk t))) = map us_uri (lb_pool lb)"
  using balancer_next_pool [of lb clk t]
  by (auto simp: list_eq_iff_nth_eq nth_list_update arm_cooldown_def)

lemma begin_request_balancer:
  "ps_balancer (snd (begin_request cr rt st req addr tls ck)) = ps_balancer st \<or>
   ps_balancer (snd (begin_request cr rt st req addr tls ck))
     = snd (balancer_next (ps_balancer st) (ck_eligible ck) (ck_arm ck))"
proof -
  let ?st0 = "st\<lparr>ps_request_id := ps_request_id st + 1\<rparr>"
  obtain r st1 where c: "check_limiter (cr_gov cr) ?st0 (sock_ip addr) ck = (r, st1)" by force
  have "ps_balancer st1 = ps_balancer st"
    using check_limiter_frame(1) [of "cr_gov cr" ?st0 "sock_ip addr" ck] c by simp
  then show ?thesis
    using c by (auto simp: begin_request_def Let_def split: sum.splits prod.splits)
qed

lemma complete_request_balancer:
  assumes "if_upstream fl < length (lb_pool (ps_balancer st))"
  shows "ps_balancer (snd (complete_request cr rt st fl out now)) = ps_balancer st \<or>
    (\<exists>e. ps_balancer (snd (complete_request cr rt st fl out now)) =
       balancer_step (rt_failure_threshold rt) (rt_healthy_threshold rt) (ps_balancer st)
         (BHealth (if_upstream fl) e))"
proof (cases out)
  case (Responded resp)
  with assms show ?thesis
    by (intro disjI2 exI [of _ EvSuccess]) (simp add: complete_request_def on_backend_def)
next
  case (ClientError e)
  show ?thesis
  proof (cases "is_length_limit_error e")
    case False
    with ClientError assms show ?thesis
      by (intro disjI2 exI [of _ "EvFailure now"]) (simp add: complete_request_def on_backend_def)
  qed (simp add: ClientError complete_request_def)
next
  case Elapsed
  with assms show ?thesis
    by (intro disjI2 exI [of _ "EvFailure now"]) (simp add: complete_request_def on_backend_def)
qed

lemma probe_balancer:
  assumes "i < length (lb_pool (ps_balancer st))"
  shows "ps_balancer (on_backend i (\<lambda>b. probe_backend U net path ft ht b now) st) = ps_balancer st \<or>
    (\<exists>e. ps_balancer (on_backend i (\<lambda>b. probe_backend U net path ft ht b now) st)
       = balancer_step ft ht (ps_balancer st) (BHealth i e))"
proof -
  let ?b = "lb_pool (ps_balancer st) ! i"
  have "probe_backend U net path ft ht ?b now = ?b \<or> (\<exists>e. probe_backend U net path ft ht ?b now = health_step ft ht ?b e)"
    unfolding probe_backend_def
    by (auto split: sum.splits probe_result.splits)
       (metis health_step.simps(1), metis health_step.simps(2), metis health_step.simps(2), metis health_step.simps(2))
  then show ?thesis using assms by (auto simp: on_backend_def)
qed

section \<open>The invariant\<close>

definition machine_inv ::
  "'s sem_api \<Rightarrow> ('uri, 'rx) runtime_config \<Rightarrow> 'uri list \<Rightarrow> ('hm, 'uri, 'c, 'lim, 's) machine \<Rightarrow> bool" where
  "machine_inv S rt uris s \<longleftrightarrow>
     sm_available S (mc_connection_semaphore s) + mc_connections s = unat (rt_max_connections rt)
   \<and> sm_available S (mc_semaphore s) + length (mc_flights s) = unat (rt_max_concurrent_requests rt)
   \<and> lb_inv (rt_failure_threshold rt) (rt_healthy_threshold rt) (ps_balancer (mc_proxy s))
   \<and> map us_uri (lb_pool (ps_balancer (mc_proxy s))) = uris
   \<and> (\<forall>fl\<in>set (mc_flights s). if_upstream fl < length uris)"

definition rt_limits_ok :: "('uri, 'rx) runtime_config \<Rightarrow> bool" where
  "rt_limits_ok rt \<longleftrightarrow> unat (rt_max_connections rt) \<le> MAX_PERMITS
     \<and> unat (rt_max_concurrent_requests rt) \<le> MAX_PERMITS
     \<and> rt_failure_threshold rt \<noteq> 0 \<and> rt_healthy_threshold rt \<noteq> 0"

lemma length_remove_nth: "i < length xs \<Longrightarrow> Suc (length (remove_nth i xs)) = length xs"
  by (auto simp: remove_nth_def)

lemma set_remove_nth: "set (remove_nth i xs) \<subseteq> set xs"
  unfolding remove_nth_def by (auto dest: in_set_takeD in_set_dropD)

lemma release_n:
  assumes "sem_laws S" "sm_available S k + n \<le> MAX_PERMITS"
  shows "sm_available S ((sm_release S ^^ n) k) = sm_available S k + n"
  using assms(2)
proof (induction n)
  case (Suc n)
  then show ?case using sem_laws.release [OF assms(1), of "(sm_release S ^^ n) k"] by simp
qed simp

lemma lb_inv_wf: "lb_inv ft ht lb \<Longrightarrow> lb_wf lb"
  by (simp add: lb_inv_def conserved_def)

lemma same_uris_health:
  "map us_uri (lb_pool (balancer_step ft ht lb (BHealth i e))) = map us_uri (lb_pool lb)"
  by (auto simp: list_eq_iff_nth_eq nth_list_update)

text \<open>The proxy part of the invariant, and that each handler keeps it.\<close>

definition pool_inv :: "('uri, 'rx) runtime_config \<Rightarrow> 'uri list \<Rightarrow> ('uri, 'lim) proxy_state \<Rightarrow> bool" where
  "pool_inv rt uris st \<longleftrightarrow> lb_inv (rt_failure_threshold rt) (rt_healthy_threshold rt) (ps_balancer st)
     \<and> map us_uri (lb_pool (ps_balancer st)) = uris"

lemma pool_inv_health:
  assumes "rt_limits_ok rt" "pool_inv rt uris st"
    and "ps_balancer st' = ps_balancer st \<or> (\<exists>e. ps_balancer st' =
      balancer_step (rt_failure_threshold rt) (rt_healthy_threshold rt) (ps_balancer st) (BHealth i e))"
  shows "pool_inv rt uris st'"
proof -
  have ok: "rt_failure_threshold rt \<noteq> 0" "rt_healthy_threshold rt \<noteq> 0"
    using assms(1) by (simp_all add: rt_limits_ok_def)
  from assms(3) show ?thesis
  proof (elim disjE exE)
    fix e assume "ps_balancer st' =
      balancer_step (rt_failure_threshold rt) (rt_healthy_threshold rt) (ps_balancer st) (BHealth i e)"
    with assms(2) show ?thesis
      using lb_inv_health [OF ok, of "ps_balancer st" i e]
        same_uris_health [of "rt_failure_threshold rt" "rt_healthy_threshold rt" "ps_balancer st" i e]
      unfolding pool_inv_def by metis
  qed (use assms(2) in \<open>simp add: pool_inv_def\<close>)
qed

lemma pool_inv_begin:
  assumes "rt_limits_ok rt" "pool_inv rt uris st" "begin_request cr rt st req addr tls ck = (r, st')"
  shows "pool_inv rt uris st'" and "r = Inr fl \<Longrightarrow> if_upstream fl < length uris"
proof -
  have ok: "rt_failure_threshold rt \<noteq> 0" "rt_healthy_threshold rt \<noteq> 0"
    using assms(1) by (simp_all add: rt_limits_ok_def)
  have wf: "lb_wf (ps_balancer st)" using assms(2) by (auto simp: pool_inv_def lb_inv_wf)
  show inv: "pool_inv rt uris st'"
    using begin_request_balancer [of cr rt st req addr tls ck] assms(2,3)
      lb_inv_next [OF ok, of "ps_balancer st" "ck_eligible ck" "ck_arm ck"]
      same_uris_next [OF wf, of "ck_eligible ck" "ck_arm ck"]
    by (auto simp: pool_inv_def)
  assume "r = Inr fl"
  with assms(3) have "begin_request cr rt st req addr tls ck = (Inr fl, st')" by simp
  from begin_request_Inr(5) [OF this] have "if_upstream fl < length (lb_pool (ps_balancer st'))"
    using balancer_next_index wf by blast
  moreover have "length (lb_pool (ps_balancer st')) = length uris"
    using inv unfolding pool_inv_def by (metis length_map)
  ultimately show "if_upstream fl < length uris" by simp
qed

lemma pool_inv_complete:
  assumes "rt_limits_ok rt" "pool_inv rt uris st" "if_upstream fl < length uris"
    and "complete_request cr rt st fl out now = (r, st')"
  shows "pool_inv rt uris st'"
proof -
  have "length (lb_pool (ps_balancer st)) = length uris"
    using assms(2) unfolding pool_inv_def by (metis length_map)
  with complete_request_balancer [of fl st cr rt out now] assms(3,4)
  have "ps_balancer st' = ps_balancer st \<or> (\<exists>e. ps_balancer st' =
      balancer_step (rt_failure_threshold rt) (rt_healthy_threshold rt) (ps_balancer st)
        (BHealth (if_upstream fl) e))" by (metis snd_conv)
  then show ?thesis by (rule pool_inv_health [OF assms(1,2)])
qed

lemma machine_inv_iff:
  "machine_inv S rt uris s \<longleftrightarrow>
     sm_available S (mc_connection_semaphore s) + mc_connections s = unat (rt_max_connections rt)
   \<and> sm_available S (mc_semaphore s) + length (mc_flights s) = unat (rt_max_concurrent_requests rt)
   \<and> pool_inv rt uris (mc_proxy s) \<and> (\<forall>fl\<in>set (mc_flights s). if_upstream fl < length uris)"
  by (auto simp: machine_inv_def pool_inv_def)

lemma machine_inv_step:
  assumes "server_step cr S rt path s e t" "sem_laws S" "rt_limits_ok rt" "machine_inv S rt uris s"
  shows "machine_inv S rt uris t"
  using assms(1,4)
proof (cases rule: server_step.cases)
  case (accept k)
  then show ?thesis using assms(4) sem_laws.acquire_Some [OF assms(2) accept(4)] by (simp add: machine_inv_iff)
next
  case conn_end
  have "sm_available S (mc_connection_semaphore s) < MAX_PERMITS"
    using conn_end(3) assms(3,4) by (simp add: machine_inv_iff rt_limits_ok_def)
  then show ?thesis using conn_end assms(4) sem_laws.release [OF assms(2)] by (simp add: machine_inv_iff)
next
  case (refused k req addr tls ck e ps)
  have "sm_available S k < MAX_PERMITS"
    using sem_laws.acquire_Some [OF assms(2) refused(4)] assms(3,4) by (simp add: machine_inv_iff rt_limits_ok_def)
  then show ?thesis
    using refused assms(4) sem_laws.release [OF assms(2)] sem_laws.acquire_Some [OF assms(2) refused(4)]
      pool_inv_begin(1) [OF assms(3) _ refused(5)] by (simp add: machine_inv_iff)
next
  case (admitted k req addr tls ck fl ps)
  then show ?thesis
    using assms(4) sem_laws.acquire_Some [OF assms(2) admitted(4)]
      pool_inv_begin [OF assms(3) _ admitted(5)] by (auto simp: machine_inv_iff)
next
  case (finish i out now r ps)
  have "sm_available S (mc_semaphore s) < MAX_PERMITS"
    using finish(3) assms(3,4) by (auto simp: machine_inv_iff rt_limits_ok_def)
  moreover have "pool_inv rt uris ps"
    using assms(4) finish(3) by (intro pool_inv_complete [OF assms(3) _ _ finish(4)]) (auto simp: machine_inv_iff)
  ultimately show ?thesis
    using finish assms(4) sem_laws.release [OF assms(2)] length_remove_nth [OF finish(3)] set_remove_nth [of i "mc_flights s"]
    by (auto simp: machine_inv_iff)
next
  case (cancel i)
  have "sm_available S (mc_semaphore s) < MAX_PERMITS"
    using cancel(3) assms(3,4) by (auto simp: machine_inv_iff rt_limits_ok_def)
  then show ?thesis
    using cancel assms(4) sem_laws.release [OF assms(2)] length_remove_nth [OF cancel(3)] set_remove_nth [of i "mc_flights s"]
    by (auto simp: machine_inv_iff)
next
  case (probe i net now)
  then show ?thesis
    using assms(4) pool_inv_health [OF assms(3) _ probe_balancer [OF probe(3)]] by (simp add: machine_inv_iff)
next
  case abort
  then show ?thesis
    using assms(3,4) by (simp add: machine_inv_iff release_n [OF assms(2)] rt_limits_ok_def)
qed (simp_all add: machine_inv_iff pool_inv_def)

text \<open>A machine that has just been started: all permits free, nothing open, healthy backends.\<close>

definition fresh_machine ::
  "'s sem_api \<Rightarrow> ('uri, 'rx) runtime_config \<Rightarrow> ('hm, 'uri, 'c, 'lim, 's) machine \<Rightarrow> bool" where
  "fresh_machine S rt s \<longleftrightarrow>
     sm_new S (rt_max_connections rt) = Some (mc_connection_semaphore s)
   \<and> sm_new S (rt_max_concurrent_requests rt) = Some (mc_semaphore s)
   \<and> mc_connections s = 0 \<and> mc_flights s = [] \<and> mc_accepting s
   \<and> (\<exists>clk. ps_balancer (mc_proxy s) =
        balancer_new (from_validated (rt_upstreams rt) (rt_health_check_cooldown rt) clk))"

definition config_in_range :: "('uri, 'rx) runtime_config \<Rightarrow> bool" where
  "config_in_range rt \<longleftrightarrow> length (rt_upstreams rt) < 2 ^ 31
     \<and> (\<forall>u\<in>set (rt_upstreams rt). vu_weight u \<noteq> 0)
     \<and> rt_failure_threshold rt \<noteq> 0 \<and> rt_healthy_threshold rt \<noteq> 0"

lemma map_enumerate_snd: "map (\<lambda>x. f (snd x)) (enumerate n xs) = map f xs"
  by (induction xs arbitrary: n) auto

lemma fresh_machine_inv:
  assumes "sem_laws S" "config_in_range rt" "fresh_machine S rt s"
  shows "rt_limits_ok rt \<and> machine_inv S rt (map vu_uri (rt_upstreams rt)) s"
proof -
  have lim: "unat n \<le> MAX_PERMITS \<and> sm_available S k = unat n" if "sm_new S n = Some k" for n k
  proof -
    have "unat n \<le> MAX_PERMITS" using that sem_laws.new_panics [OF assms(1), of n] by force
    with sem_laws.new_ok [OF assms(1) this] that show ?thesis by auto
  qed
  obtain clk where b: "ps_balancer (mc_proxy s) =
      balancer_new (from_validated (rt_upstreams rt) (rt_health_check_cooldown rt) clk)"
    using assms(3) by (auto simp: fresh_machine_def)
  let ?pool = "from_validated (rt_upstreams rt) (rt_health_check_cooldown rt) clk"
  have w: "length ?pool < 2 ^ 31" "list_all (\<lambda>b. us_weight b \<noteq> 0) ?pool"
    using assms(2) nth_mem
    by (fastforce simp: config_in_range_def from_validated_def upstream_new_def list_all_iff
        in_set_enumerate_eq)+
  then have "fresh_balancer (balancer_new ?pool)" by (auto simp: fresh_balancer_def)
  then have "conserved (balancer_new ?pool)" by (rule conservation.start_inv)
  moreover have "list_all (health_inv (rt_failure_threshold rt) (rt_healthy_threshold rt)) ?pool"
    using assms(2) by (auto simp: config_in_range_def from_validated_def upstream_new_def list_all_iff
        health_inv_def word_neq_0_conv)
  moreover have "map us_uri ?pool = map vu_uri (rt_upstreams rt)"
    using map_enumerate_snd [of vu_uri 0 "rt_upstreams rt"]
    by (simp add: from_validated_def upstream_new_def comp_def case_prod_beta)
  ultimately have "pool_inv rt (map vu_uri (rt_upstreams rt)) (mc_proxy s)"
    by (simp add: pool_inv_def lb_inv_def b balancer_new_def)
  then show ?thesis
    using assms(2,3) lim by (auto simp: machine_inv_iff rt_limits_ok_def fresh_machine_def config_in_range_def)
qed

interpretation running: invariant_machine
  "\<lambda>s. sem_laws S \<and> config_in_range rt \<and> fresh_machine S rt s"
  "server_step cr S rt path"
  "\<lambda>s. sem_laws S \<and> rt_limits_ok rt \<and> machine_inv S rt (map vu_uri (rt_upstreams rt)) s"
  for S rt cr path
proof (unfold_locales, goal_cases)
  case (1 s)
  then show ?case using fresh_machine_inv by blast
next
  case (2 s e t)
  then show ?case using machine_inv_step by blast
qed

lemma validated_in_range:
  assumes "into_runtime U A X cfg = Inr rt" "length (cfg_upstreams cfg) < 2 ^ 31"
  shows "config_in_range rt"
proof -
  have us: "rt_upstreams rt = map (\<lambda>u. \<lparr>vu_uri = upstream_uri U u, vu_weight = uc_weight u\<rparr>) (cfg_upstreams cfg)"
      "\<forall>u\<in>set (cfg_upstreams cfg). upstream_valid U u"
    using into_runtime_Inr_all [OF assms(1)] by (simp_all add: validate_upstreams_Inr_iff)
  have "pred_option health_check_valid (cfg_health_check cfg)"
    using into_runtime_Inr_all [OF assms(1)] check_health_check_Inr_iff by blast
  then have "rt_failure_threshold rt \<noteq> 0" "rt_healthy_threshold rt \<noteq> 0"
    using into_runtime_Inr_all [OF assms(1)] defaults_nonzero
    by (auto simp: unwrap_or_def health_check_valid_def split: option.splits)
  with us assms(2) show ?thesis by (auto simp: config_in_range_def upstream_valid_def)
qed


definition sample_machine ::
  "((string \<times> string) list, ref_uri, string list, gcra, nat) machine" where
  "sample_machine =
     \<lparr>mc_proxy = sample_state, mc_semaphore = 1000, mc_connection_semaphore = 10000,
      mc_connections = 0, mc_flights = [], mc_accepting = True\<rparr>"

lemma sample_machine_fresh: "fresh_machine ref_sem sample_runtime sample_machine"
proof -
  have "sm_new ref_sem (rt_max_connections sample_runtime) = Some 10000"
    "sm_new ref_sem (rt_max_concurrent_requests sample_runtime) = Some 1000"
    by (simp_all add: ref_sem_def sample_runtime_def MAX_PERMITS_def)
  then show ?thesis by (auto simp: fresh_machine_def sample_machine_def sample_state_def)
qed


end
