(* ===== verification/Admin.thy ===== *)
theory Admin
  imports Server_Machine
begin

text \<open>
  \<open>admin.rs\<close>: the routes of the administrative listener over the balancer, the two
  semaphores and the metrics registry. The accept loop of \<open>serve_admin\<close> hands every request
  to \<open>route\<close>.
\<close>

record ('uri, 's, 'm) admin_state =
  as_metrics :: 'm
  as_balancer :: "'uri load_balancer"
  as_request_semaphore :: 's
  as_concurrency_limit :: usize
  as_connection_semaphore :: 's
  as_max_connections :: usize

text \<open>A plain-text response; None is the panic of \<open>expect\<close>.\<close>

definition text_response :: "('hm, 'hv) header_api \<Rightarrow> u16 \<Rightarrow> string \<Rightarrow> ('hm, string) response option" where
  "text_response A status body =
     map_option (\<lambda>h. \<lparr>rs_status = status, rs_version = HTTP_11, rs_headers = h, rs_body = body\<rparr>)
       (rb_headers A [(''content-type'', ''text/plain; charset=utf-8'')])"

definition readiness_response ::
  "('hm, 'hv) header_api \<Rightarrow> ('uri, 's, 'm) admin_state \<Rightarrow> ('hm, string) response option" where
  "readiness_response A st =
     (let ready = list_ex is_healthy (lb_pool (as_balancer st)) in
      if ready then text_response A 200 ''ready''
      else text_response A 503 ''no healthy upstreams'')"

text \<open>\<open>i64::try_from(n).unwrap_or(i64::MAX)\<close> and \<open>usize::saturating_sub\<close>.\<close>

definition i64_from_usize :: "usize \<Rightarrow> int" where
  "i64_from_usize n = (if uint n \<le> i64_max then uint n else i64_max)"

definition refresh_gauges ::
  "'uri uri_api \<Rightarrow> 's sem_api \<Rightarrow> 'm prom_api \<Rightarrow> ('uri, 's, 'm) admin_state \<Rightarrow> 'm" where
  "refresh_gauges U S M st =
     (let in_flight = sat_sub (as_concurrency_limit st) (of_nat (sm_available S (as_request_semaphore st)));
          open_conns = sat_sub (as_max_connections st) (of_nat (sm_available S (as_connection_semaphore st)));
          m1 = set_in_flight M (as_metrics st) (i64_from_usize in_flight);
          m2 = set_open_connections M m1 (i64_from_usize open_conns)
      in foldl (\<lambda>m b. set_upstream_healthy M m (uri_show U (us_uri b)) (is_healthy b)) m2
           (lb_pool (as_balancer st)))"

definition metrics_response ::
  "('hm, 'hv) header_api \<Rightarrow> 'uri uri_api \<Rightarrow> 's sem_api \<Rightarrow> 'm prom_api \<Rightarrow> ('uri, 's, 'm) admin_state
     \<Rightarrow> ('hm, string) response option \<times> ('uri, 's, 'm) admin_state" where
  "metrics_response A U S M st =
     (let m = refresh_gauges U S M st;
          body = metrics_encode M m
      in (case rb_headers A [(''content-type'', ''application/openmetrics-text; version=1.0.0; charset=utf-8'')] of
            Some h \<Rightarrow> Some \<lparr>rs_status = 200, rs_version = HTTP_11, rs_headers = h, rs_body = body\<rparr>
          | None \<Rightarrow> text_response A 500 ''encode error'',
          st\<lparr>as_metrics := m\<rparr>))"

definition route ::
  "('hm, 'hv) header_api \<Rightarrow> 'uri uri_api \<Rightarrow> 's sem_api \<Rightarrow> 'm prom_api
     \<Rightarrow> ('hm, 'uri, 'b) request \<Rightarrow> ('uri, 's, 'm) admin_state
     \<Rightarrow> ('hm, string) response option \<times> ('uri, 's, 'm) admin_state" where
  "route A U S M req st =
     (if rq_method req = ''GET'' \<and> uri_path U (rq_uri req) = ''/metrics'' then metrics_response A U S M st
      else if rq_method req = ''GET'' \<and> uri_path U (rq_uri req) = ''/livez''
        then (text_response A 200 ''ok'', st)
      else if rq_method req = ''GET'' \<and> uri_path U (rq_uri req) = ''/readyz''
        then (readiness_response A st, st)
      else (text_response A 404 ''not found'', st))"

text \<open>
  The loop of \<open>serve_admin\<close>: a failed accept is skipped, an accepted connection gets a task,
  and each request on it is answered by \<open>route\<close> over the shared state, which the data plane
  has left as the event says. Connections that fail do not end the loop.
\<close>

datatype ('hm, 'uri, 'b, 's) admin_event =
    AdminAcceptError
  | AdminAccept
  | AdminConnectionError
  | AdminRequest "('hm, 'uri, 'b) request" "'uri load_balancer" 's 's

fun serve_admin ::
  "('hm, 'hv) header_api \<Rightarrow> 'uri uri_api \<Rightarrow> 's sem_api \<Rightarrow> 'm prom_api \<Rightarrow> ('uri, 's, 'm) admin_state
     \<Rightarrow> ('hm, 'uri, 'b, 's) admin_event list
     \<Rightarrow> ('hm, string) response option list \<times> ('uri, 's, 'm) admin_state" where
  "serve_admin A U S M st [] = ([], st)"
| "serve_admin A U S M st (AdminAcceptError # es) = serve_admin A U S M st es"
| "serve_admin A U S M st (AdminAccept # es) = serve_admin A U S M st es"
| "serve_admin A U S M st (AdminConnectionError # es) = serve_admin A U S M st es"
| "serve_admin A U S M st (AdminRequest req lb sem conn # es) =
     (case route A U S M req
             (st\<lparr>as_balancer := lb, as_request_semaphore := sem, as_connection_semaphore := conn\<rparr>) of
        (resp, st') \<Rightarrow>
          (case serve_admin A U S M st' es of (resps, st'') \<Rightarrow> (resp # resps, st'')))"

section \<open>Routes\<close>

lemma admin_tokens:
  "is_header_token ''content-type''" "to_ascii_lowercase ''content-type'' = ''content-type''"
  "visible_ascii ''text/plain; charset=utf-8''"
  "visible_ascii ''application/openmetrics-text; version=1.0.0; charset=utf-8''"
  by code_simp+

lemma single_header:
  assumes "header_laws A" "visible_ascii v"
  shows "\<exists>h. rb_headers A [(''content-type'', v)] = Some h"
proof -
  have "hn_from_bytes A ''content-type'' = Inr ''content-type''"
    using header_laws.from_bytes_token [OF assms(1)] admin_tokens by metis
  moreover have "hv_from_str A v \<noteq> None" using header_laws.from_str_visible [OF assms] by auto
  ultimately show ?thesis using header_laws.rb_headers_Some [OF assms(1), of "[(''content-type'', v)]"] by auto
qed

lemma text_response_Some:
  assumes "header_laws A"
  shows "\<exists>r. text_response A st body = Some r \<and> rs_status r = st \<and> rs_body r = body"
  using single_header [OF assms admin_tokens(3)] by (auto simp: text_response_def)

lemma metrics_response_Some:
  assumes "header_laws A"
  shows "\<exists>r. fst (metrics_response A U S M st) = Some r \<and> rs_status r = 200"
  using single_header [OF assms admin_tokens(4)] by (auto simp: metrics_response_def Let_def)

text \<open>The status of an admin request, given the balancer at that moment.\<close>

definition admin_status :: "'uri uri_api \<Rightarrow> ('hm, 'uri, 'b) request \<Rightarrow> 'uri load_balancer \<Rightarrow> u16" where
  "admin_status U req lb =
     (if rq_method req \<noteq> ''GET'' then 404
      else if uri_path U (rq_uri req) = ''/readyz''
        then (if \<exists>b\<in>set (lb_pool lb). is_healthy b then 200 else 503)
      else if uri_path U (rq_uri req) \<in> {''/metrics'', ''/livez''} then 200 else 404)"

text \<open>Every request is answered without a panic, and no route changes the balancer.\<close>

lemma admin_routes:
  assumes "header_laws A"
  shows "\<exists>r. fst (route A U S M req st) = Some r
    \<and> rs_status r = admin_status U req (as_balancer st)
    \<and> as_balancer (snd (route A U S M req st)) = as_balancer st"
proof -
  have t: "\<exists>r. text_response A c b = Some r \<and> rs_status r = c" for c b
    using text_response_Some [OF assms] by blast
  have b: "as_balancer (snd (metrics_response A U S M st)) = as_balancer st"
    by (simp add: metrics_response_def Let_def)
  show ?thesis
    using t [of 200 "''ok''"] t [of 404 "''not found''"] t [of 200 "''ready''"]
      t [of 503 "''no healthy upstreams''"] metrics_response_Some [OF assms, of U S M st] b
    by (auto simp: admin_status_def route_def readiness_response_def Let_def list_ex_iff)
qed

fun admin_requests :: "('hm, 'uri, 'b, 's) admin_event list \<Rightarrow> (('hm, 'uri, 'b) request \<times> 'uri load_balancer) list" where
  "admin_requests [] = []"
| "admin_requests (AdminRequest req lb sem conn # es) = (req, lb) # admin_requests es"
| "admin_requests (_ # es) = admin_requests es"

text \<open>
  C37. The admin listener keeps answering: over every sequence of connections, accept and
  connection errors and requests, each request gets exactly one response, in order and
  without a panic; \<open>GET /readyz\<close> is 200 exactly when some backend is healthy at that moment and
  503 otherwise, \<open>GET /livez\<close> and \<open>GET /metrics\<close> are 200, and everything else, any other
  method included, is 404.
\<close>

theorem admin_listener_answers:
  assumes "header_laws A"
  shows "list_all2 (\<lambda>(req, lb) resp. \<exists>r. resp = Some r \<and> rs_status r = admin_status U req lb)
    (admin_requests es) (fst (serve_admin A U S M st es))"
proof (induction es arbitrary: st rule: admin_requests.induct)
  case (2 req lb sem conn es)
  let ?st = "st\<lparr>as_balancer := lb, as_request_semaphore := sem, as_connection_semaphore := conn\<rparr>"
  obtain resp st' where r: "route A U S M req ?st = (resp, st')" by force
  obtain resps st'' where rs: "serve_admin A U S M st' es = (resps, st'')" by force
  from admin_routes [OF assms, of U S M req ?st] 2 [of st'] r rs show ?case by auto
qed simp_all

theorem admin_listener_answers_witness:
  "\<exists>r. fst (serve_admin ref_headers ref_uris ref_sem ref_prom
      \<lparr>as_metrics = metrics_new ref_prom, as_balancer = ps_balancer sample_state,
       as_request_semaphore = 900, as_concurrency_limit = 1000,
       as_connection_semaphore = 10000, as_max_connections = 10000\<rparr>
      [AdminAcceptError, AdminAccept,
       AdminRequest (sample_request [] ''/readyz?x=1'') (ps_balancer sample_state) 900 10000]) = [Some r]
     \<and> rs_status r = 200"
proof -
  let ?es = "[AdminAcceptError, AdminAccept,
       AdminRequest (sample_request [] ''/readyz?x=1'') (ps_balancer sample_state) (900 :: nat) 10000]"
  let ?st = "\<lparr>as_metrics = metrics_new ref_prom, as_balancer = ps_balancer sample_state,
       as_request_semaphore = 900, as_concurrency_limit = 1000,
       as_connection_semaphore = 10000, as_max_connections = 10000\<rparr>"
  have "admin_status ref_uris (sample_request [] ''/readyz?x=1'') (ps_balancer sample_state) = 200" by code_simp
  with admin_listener_answers [OF ref_http.header_laws_axioms, of ref_uris ?es ref_sem ref_prom ?st]
  show ?thesis by (auto simp: list_all2_Cons1)
qed

section \<open>Gauges\<close>

lemma val_healthy_other:
  assumes "prom_laws M val obs" "s \<noteq> ''upstream_healthy''"
  shows "val (foldl (\<lambda>m b. set_upstream_healthy M m (uri_show U (us_uri b)) (is_healthy b)) m bs) s l = val m s l"
  using assms(2)
  by (induction bs arbitrary: m) (simp_all add: set_upstream_healthy_def prom_laws.val_set [OF assms(1)])

lemma val_healthy_pool:
  assumes "prom_laws M val obs" "distinct (map (\<lambda>b. uri_show U (us_uri b)) bs)" "b \<in> set bs"
  shows "val (foldl (\<lambda>m b. set_upstream_healthy M m (uri_show U (us_uri b)) (is_healthy b)) m bs)
      ''upstream_healthy'' (Some (uri_show U (us_uri b))) = (if is_healthy b then 1 else 0)"
  using assms(2,3)
proof (induction bs arbitrary: m rule: rev_induct)
  case (snoc x xs)
  then show ?case
    by (auto simp: set_upstream_healthy_def upstream_label_def prom_laws.val_set [OF assms(1)] image_iff)
qed simp

lemma gauge_exact:
  assumes "a + n = unat lim" "unat lim \<le> MAX_PERMITS"
  shows "i64_from_usize (sat_sub lim (of_nat a)) = int n"
proof -
  have "a < 2 ^ 64" using assms by (simp add: MAX_PERMITS_def)
  then have "unat (of_nat a :: usize) = a" by (simp add: unat_of_nat)
  then have "unat (sat_sub lim (of_nat a)) = n" using assms(1) by (simp add: unat_sat_sub)
  then have "uint (sat_sub lim (of_nat a)) = int n" by (metis uint_nat)
  moreover have "int n \<le> i64_max" using assms by (simp add: i64_max_def MAX_PERMITS_def)
  ultimately show ?thesis by (simp add: i64_from_usize_def)
qed

text \<open>
  C36. A scrape reports the truth: in every state the running server reaches, refreshing the
  gauges sets the in-flight gauge to the number of requests in flight, the connection gauge
  to the number of open connections, and each backend's health gauge to 1 or 0 as it is
  healthy or not (when no two upstream URIs print alike).
\<close>

theorem scrape_reports_live_state:
  assumes "sem_laws S" and "prom_laws M val obs" and "into_runtime U A X cfg = Inr rt"
    and "length (cfg_upstreams cfg) < 2 ^ 31" and "fresh_machine S rt s0"
    and "steps (server_step cr S rt path) s0 es s"
    and "as_request_semaphore st = mc_semaphore s" and "as_concurrency_limit st = rt_max_concurrent_requests rt"
    and "as_connection_semaphore st = mc_connection_semaphore s" and "as_max_connections st = rt_max_connections rt"
    and "as_balancer st = ps_balancer (mc_proxy s)"
    and "distinct (map (\<lambda>u. uri_show U (vu_uri u)) (rt_upstreams rt))"
    and "b \<in> set (lb_pool (ps_balancer (mc_proxy s)))"
  shows "val (refresh_gauges U S M st) ''in_flight_requests'' None = int (length (mc_flights s))
    \<and> val (refresh_gauges U S M st) ''open_connections'' None = int (mc_connections s)
    \<and> val (refresh_gauges U S M st) ''upstream_healthy'' (Some (uri_show U (us_uri b)))
        = (if is_healthy b then 1 else 0)"
proof -
  have "sem_laws S \<and> config_in_range rt \<and> fresh_machine S rt s0"
    using assms(1,5) validated_in_range [OF assms(3,4)] by blast
  from running.run_inv [OF this assms(6)]
  have lim: "rt_limits_ok rt" and inv: "machine_inv S rt (map vu_uri (rt_upstreams rt)) s" by blast+
  have g: "i64_from_usize (sat_sub (as_concurrency_limit st) (of_nat (sm_available S (as_request_semaphore st))))
      = int (length (mc_flights s))"
    "i64_from_usize (sat_sub (as_max_connections st) (of_nat (sm_available S (as_connection_semaphore st))))
      = int (mc_connections s)"
    using inv lim assms(7-10) by (auto simp: machine_inv_def rt_limits_ok_def intro!: gauge_exact)
  have "map (\<lambda>b. uri_show U (us_uri b)) (lb_pool (ps_balancer (mc_proxy s)))
      = map (uri_show U) (map us_uri (lb_pool (ps_balancer (mc_proxy s))))" by simp
  also have "\<dots> = map (\<lambda>u. uri_show U (vu_uri u)) (rt_upstreams rt)"
    using inv by (simp add: machine_inv_def)
  finally have d: "distinct (map (\<lambda>b. uri_show U (us_uri b)) (lb_pool (ps_balancer (mc_proxy s))))"
    using assms(12) by simp
  show ?thesis
    using g val_healthy_pool [OF assms(2) d assms(13)] assms(11)
    by (simp add: refresh_gauges_def Let_def val_healthy_other [OF assms(2)] set_in_flight_def
        set_open_connections_def prom_laws.val_set [OF assms(2)])
qed

theorem scrape_reports_live_state_witness:
  "ref_val (refresh_gauges ref_uris ref_sem ref_prom
      \<lparr>as_metrics = metrics_new ref_prom, as_balancer = ps_balancer sample_state,
       as_request_semaphore = 1000, as_concurrency_limit = 1000,
       as_connection_semaphore = 9999, as_max_connections = 10000\<rparr>) ''open_connections'' None = 1"
proof -
  let ?s = "sample_machine\<lparr>mc_connection_semaphore := 9999, mc_connections := 1\<rparr>"
  let ?st = "\<lparr>as_metrics = metrics_new ref_prom, as_balancer = ps_balancer sample_state,
       as_request_semaphore = 1000, as_concurrency_limit = 1000,
       as_connection_semaphore = 9999, as_max_connections = 10000\<rparr>"
  have st: "steps (server_step sample_crates ref_sem sample_runtime ''/health'') sample_machine [Accept] ?s"
    using server_step.accept [of sample_machine ref_sem 9999 sample_crates sample_runtime "''/health''"]
    by (auto simp: sample_machine_def ref_sem_def)
  have u: "length (cfg_upstreams sample_config) < 2 ^ 31"
    "distinct (map (\<lambda>u. uri_show ref_uris (vu_uri u)) (rt_upstreams sample_runtime))"
    by code_simp+
  have "lb_pool (ps_balancer (mc_proxy ?s)) ! 0 \<in> set (lb_pool (ps_balancer (mc_proxy ?s)))"
    by (rule nth_mem) (simp add: sample_machine_def sample_state_def balancer_new_def from_validated_def sample_runtime_def)
  from scrape_reports_live_state [OF ref_semaphore.sem_laws_axioms ref_metrics.prom_laws_axioms sample_runtime_ok
      u(1) sample_machine_fresh st, of ?st, OF _ _ _ _ _ u(2) this]
  show ?thesis by (simp add: sample_machine_def sample_runtime_def)
qed

end
