(* ===== verification/Tls_Setup.thy ===== *)
theory Tls_Setup
  imports Proxy
begin

text \<open>
  \<open>tls.rs\<close>: building the TLS acceptor from the configured files, and the settings of the
  upstream connector. PEM parsing and the certificate check of rustls are parameters.
\<close>

record ('cert, 'key, 'srv) tls_api =
  tl_pem_file_iter :: "string \<Rightarrow> string + (string + 'cert) list"
  tl_key_from_pem_file :: "string \<Rightarrow> string + 'key"
  tl_with_single_cert :: "'cert list \<Rightarrow> 'key \<Rightarrow> string + 'srv"

record 'srv tls_acceptor =
  ta_config :: 'srv
  ta_alpn_protocols :: "string list"

definition load_certs :: "('cert, 'key, 'srv) tls_api \<Rightarrow> string \<Rightarrow> (proxy_error, 'cert list) result" where
  "load_certs T path =
     and_then (map_err (\<lambda>e. Tls (''failed to open cert file '' @ path @ '': '' @ e)) (tl_pem_file_iter T path))
       (\<lambda>items. map_err (\<lambda>e. Tls (''failed to parse certificates from '' @ path @ '': '' @ e))
          (collect_map (\<lambda>x. x) items))"

definition load_private_key :: "('cert, 'key, 'srv) tls_api \<Rightarrow> string \<Rightarrow> (proxy_error, 'key) result" where
  "load_private_key T path =
     map_err (\<lambda>e. Tls (''failed to load private key from '' @ path @ '': '' @ e)) (tl_key_from_pem_file T path)"

definition build_tls_acceptor ::
  "('cert, 'key, 'srv) tls_api \<Rightarrow> tls_config \<Rightarrow> (proxy_error, 'srv tls_acceptor) result" where
  "build_tls_acceptor T config =
     and_then (load_certs T (tls_cert_path config)) (\<lambda>certs.
     and_then (load_private_key T (tls_key_path config)) (\<lambda>key.
     and_then (map_err (\<lambda>e. Tls (''failed to build TLS server config: '' @ e))
                 (tl_with_single_cert T certs key)) (\<lambda>server_config.
     Inr \<lparr>ta_config = server_config, ta_alpn_protocols = [''h2'', ''http/1.1'']\<rparr>)))"

text \<open>The connector settings: connect timeout, both schemes, all HTTP versions over ALPN, and
  server verification against the given roots.\<close>

record 'roots https_connector =
  hx_roots :: 'roots
  hx_client_auth :: bool
  hx_connect_timeout :: "duration option"
  hx_enforce_http :: bool
  hx_https_only :: bool
  hx_http1 :: bool
  hx_http2 :: bool

definition build_https_connector :: "'roots \<Rightarrow> duration \<Rightarrow> 'roots https_connector" where
  "build_https_connector webpki_roots connect_timeout =
     \<lparr>hx_roots = webpki_roots, hx_client_auth = False, hx_connect_timeout = Some connect_timeout,
      hx_enforce_http = False, hx_https_only = False, hx_http1 = True, hx_http2 = True\<rparr>"

lemma tls_errors_only:
  "build_tls_acceptor T config = Inl e \<Longrightarrow> \<exists>m. e = Tls m"
  by (auto simp: build_tls_acceptor_def load_certs_def load_private_key_def result_simps)

lemma tls_acceptor_loads:
  assumes "build_tls_acceptor T config = Inr acc"
  obtains certs key where "load_certs T (tls_cert_path config) = Inr certs"
    "load_private_key T (tls_key_path config) = Inr key"
    "tl_with_single_cert T certs key = Inr (ta_config acc)" "ta_alpn_protocols acc = [''h2'', ''http/1.1'']"
  using assms by (auto simp: build_tls_acceptor_def result_simps)

end
