(* ===== verification/Main_Startup.thy ===== *)
theory Main_Startup
  imports Admin Tls_Setup
begin

text \<open>
  \<open>main.rs\<close>: the startup sequence, in order, with every way it can end: a configuration,
  TLS or limiter error, a failed bind (all exit code 1), or the panic of
  \<open>Semaphore::new\<close>. What a completed startup hands to \<open>serve\<close> is related to the running
  server of \<open>Server_Machine\<close>. Parsing of the command line and the log filters are parameters.
\<close>

section \<open>Command line and logging\<close>

datatype log_format = Pretty | Json

record cli =
  cli_config :: string
  cli_log_format :: log_format
  cli_log_level :: "string option"

text \<open>The arguments as clap hands them over: what was given, or the declared default.\<close>

definition cli_of :: "string option \<Rightarrow> log_format option \<Rightarrow> string option \<Rightarrow> cli" where
  "cli_of config format level =
     \<lparr>cli_config = unwrap_or ''./config.toml'' config, cli_log_format = unwrap_or Pretty format,
      cli_log_level = level\<rparr>"

text \<open>\<open>EnvFilter::new\<close> and \<open>EnvFilter::try_from_default_env\<close>.\<close>

record 'f filter_api =
  ef_new :: "string \<Rightarrow> 'f"
  ef_try_from_default_env :: "string + 'f"

record 'f tracing_settings =
  tr_filter :: 'f
  tr_json :: bool
  tr_with_target :: bool

definition init_tracing :: "'f filter_api \<Rightarrow> log_format \<Rightarrow> string option \<Rightarrow> 'f tracing_settings" where
  "init_tracing F format level_override =
     (let filter_of = (case level_override of
            None \<Rightarrow> (case ef_try_from_default_env F of Inl _ \<Rightarrow> ef_new F ''info'' | Inr f \<Rightarrow> f)
          | Some level \<Rightarrow> ef_new F level)
      in case format of
           Pretty \<Rightarrow> \<lparr>tr_filter = filter_of, tr_json = False, tr_with_target = False\<rparr>
         | Json \<Rightarrow> \<lparr>tr_filter = filter_of, tr_json = True, tr_with_target = False\<rparr>)"

section \<open>Startup\<close>

datatype startup_failure =
    ExitConfig proxy_error
  | ExitTls proxy_error
  | ExitRateLimiter proxy_error
  | ExitBind socket_addr
  | ExitAdminBind socket_addr
  | PanicSemaphore usize

record health_task =
  ht_interval :: duration
  ht_path :: string
  ht_failure_threshold :: u32
  ht_healthy_threshold :: u32
  ht_timeout :: duration
  ht_connect_timeout :: duration

text \<open>What \<open>main\<close> passes to \<open>serve\<close>, the background tasks it spawns and the admin listener.\<close>

record ('uri, 'rx, 'lim, 's, 'm, 'srv) started =
  su_config :: "('uri, 'rx) runtime_config"
  su_client :: client_settings
  su_state :: "('uri, 'lim, 's, 'm) server_state"
  su_tls_acceptor :: "'srv tls_acceptor option"
  su_listener :: socket_addr
  su_health :: "health_task option"
  su_cleanup :: bool
  su_admin :: "(socket_addr \<times> ('uri, 's, 'm) admin_state) option"

text \<open>\<open>opt.as_ref().map(f)\<close> where \<open>f\<close> may exit.\<close>

definition try_option :: "('a \<Rightarrow> ('e, 'b) result) \<Rightarrow> 'a option \<Rightarrow> ('e, 'b option) result" where
  "try_option f x = (case x of None \<Rightarrow> Inr None | Some a \<Rightarrow> and_then (f a) (\<lambda>b. Inr (Some b)))"

definition new_semaphore :: "'s sem_api \<Rightarrow> usize \<Rightarrow> (startup_failure, 's) result" where
  "new_semaphore S n = ok_or (PanicSemaphore n) (sm_new S n)"

definition health_task_of :: "('uri, 'rx) runtime_config \<Rightarrow> health_check_config \<Rightarrow> health_task" where
  "health_task_of rt hc =
     \<lparr>ht_interval = from_secs (hc_interval hc), ht_path = hc_path hc,
      ht_failure_threshold = rt_failure_threshold rt, ht_healthy_threshold = rt_healthy_threshold rt,
      ht_timeout = from_secs (hc_timeout hc), ht_connect_timeout = rt_connect_timeout rt\<rparr>"

definition admin_of ::
  "'m prom_api \<Rightarrow> ('uri, 'rx) runtime_config \<Rightarrow> 'uri load_balancer \<Rightarrow> 's \<Rightarrow> 's
     \<Rightarrow> ('uri, 's, 'm) admin_state" where
  "admin_of M config balancer semaphore connection_semaphore =
     \<lparr>as_metrics = metrics_new M, as_balancer = balancer, as_request_semaphore = semaphore,
      as_concurrency_limit = rt_max_concurrent_requests config,
      as_connection_semaphore = connection_semaphore, as_max_connections = rt_max_connections config\<rparr>"

text \<open>The hand-over at the end of \<open>main\<close>, from what the earlier steps built.\<close>

definition hand_over ::
  "'uri uri_api \<Rightarrow> 'm prom_api \<Rightarrow> ('uri, 'rx) runtime_config \<Rightarrow> 'uri load_balancer
     \<Rightarrow> 'srv tls_acceptor option \<Rightarrow> 'lim option \<Rightarrow> 's \<Rightarrow> 's
     \<Rightarrow> ('uri, 'rx, 'lim, 's, 'm, 'srv) started" where
  "hand_over U M config balancer tls_acceptor rate_limiter semaphore connection_semaphore =
     \<lparr>su_config = config,
      su_client = (if has_https_upstream U config then build_https_client config else build_client config),
      su_state = \<lparr>sv_proxy = \<lparr>ps_request_id = 1, ps_balancer = balancer, ps_limiter = rate_limiter\<rparr>,
        sv_semaphore = semaphore, sv_concurrency_limit = rt_max_concurrent_requests config,
        sv_connection_semaphore = connection_semaphore,
        sv_metrics = map_option (\<lambda>_. metrics_new M) (rt_admin_listen config)\<rparr>,
      su_tls_acceptor = tls_acceptor, su_listener = rt_listen config,
      su_health = map_option (health_task_of config) (rt_health_check config),
      su_cleanup = (rate_limiter \<noteq> None),
      su_admin = map_option (\<lambda>addr. (addr, admin_of M config balancer semaphore connection_semaphore))
        (rt_admin_listen config)\<rparr>"

text \<open>\<open>bind\<close> tells whether a socket address can be bound; \<open>clk\<close> gives the creation instants of
  the backends.\<close>

definition startup ::
  "('hm, 'hv, 'uri, 'rx, 'lim, 'neg, 'b) crates \<Rightarrow> 's sem_api \<Rightarrow> 'm prom_api \<Rightarrow> ('cert, 'key, 'srv) tls_api
     \<Rightarrow> (string \<Rightarrow> string + string) \<Rightarrow> (string \<Rightarrow> string + config) \<Rightarrow> (socket_addr \<Rightarrow> bool)
     \<Rightarrow> (nat \<Rightarrow> instant) \<Rightarrow> string
     \<Rightarrow> (startup_failure, ('uri, 'rx, 'lim, 's, 'm, 'srv) started) result" where
  "startup cr S M T read toml bind clk config_path =
     and_then (map_err ExitConfig (and_then (load_from_file read toml config_path)
       (into_runtime (cr_uri cr) (cr_http cr) (cr_regex cr)))) (\<lambda>config.
     and_then (map_err ExitTls (try_option (build_tls_acceptor T) (rt_tls config))) (\<lambda>tls_acceptor.
     let pool = from_validated (rt_upstreams config) (rt_health_check_cooldown config) clk;
         balancer = balancer_new pool in
     and_then (map_err ExitRateLimiter (try_option (limiter_from_config (cr_gov cr)) (rt_rate_limit config)))
       (\<lambda>rate_limiter.
     and_then (new_semaphore S (rt_max_concurrent_requests config)) (\<lambda>semaphore.
     and_then (reject_if (\<not> bind (rt_listen config)) (ExitBind (rt_listen config))) (\<lambda>_.
     and_then (new_semaphore S (rt_max_connections config)) (\<lambda>connection_semaphore.
     and_then (try_option (\<lambda>admin_addr. reject_if (\<not> bind admin_addr) (ExitAdminBind admin_addr))
       (rt_admin_listen config)) (\<lambda>_.
     Inr (hand_over (cr_uri cr) M config balancer tls_acceptor rate_limiter semaphore
            connection_semaphore))))))))"

text \<open>\<open>main\<close> up to the call of \<open>serve\<close>: logging first, then the sequence above.\<close>

definition main_program ::
  "'f filter_api \<Rightarrow> ('hm, 'hv, 'uri, 'rx, 'lim, 'neg, 'b) crates \<Rightarrow> 's sem_api \<Rightarrow> 'm prom_api
     \<Rightarrow> ('cert, 'key, 'srv) tls_api \<Rightarrow> (string \<Rightarrow> string + string) \<Rightarrow> (string \<Rightarrow> string + config)
     \<Rightarrow> (socket_addr \<Rightarrow> bool) \<Rightarrow> (nat \<Rightarrow> instant) \<Rightarrow> cli
     \<Rightarrow> 'f tracing_settings \<times> (startup_failure, ('uri, 'rx, 'lim, 's, 'm, 'srv) started) result" where
  "main_program F cr S M T read toml bind clk args =
     (init_tracing F (cli_log_format args) (cli_log_level args),
      startup cr S M T read toml bind clk (cli_config args))"

text \<open>The background tasks, and those that \<open>main\<close> aborts once \<open>serve\<close> has returned.\<close>

datatype background_task = HealthChecker | LimiterCleanup | AdminListener

definition aborted_tasks :: "('uri, 'rx, 'lim, 's, 'm, 'srv) started \<Rightarrow> background_task list" where
  "aborted_tasks su =
     (case su_health su of Some _ \<Rightarrow> [HealthChecker] | None \<Rightarrow> [])
     @ (if su_cleanup su then [LimiterCleanup] else [])
     @ (case su_admin su of Some _ \<Rightarrow> [AdminListener] | None \<Rightarrow> [])"

text \<open>The running server that \<open>serve\<close> starts from.\<close>

definition serve_start ::
  "('uri, 'rx, 'lim, 's, 'm, 'srv) started \<Rightarrow> ('hm, 'uri, 'c, 'lim, 's) machine" where
  "serve_start su =
     \<lparr>mc_proxy = sv_proxy (su_state su), mc_semaphore = sv_semaphore (su_state su),
      mc_connection_semaphore = sv_connection_semaphore (su_state su),
      mc_connections = 0, mc_flights = [], mc_accepting = True\<rparr>"

lemma try_option_Inr_iff:
  "try_option f x = Inr y \<longleftrightarrow> (case x of None \<Rightarrow> y = None | Some a \<Rightarrow> \<exists>b. f a = Inr b \<and> y = Some b)"
  by (auto simp: try_option_def result_simps split: option.splits)

lemma try_option_ok: "(\<And>a. x = Some a \<Longrightarrow> \<exists>b. f a = Inr b) \<Longrightarrow> \<exists>y. try_option f x = Inr y"
  by (cases x) (auto simp: try_option_def)

lemma limiter_constructs:
  assumes "into_runtime U A X cfg = Inr rt" "rt_rate_limit rt = Some rl"
  shows "\<exists>l. limiter_from_config G rl = Inr l"
proof -
  have "pred_option rate_limit_valid (rt_rate_limit rt)"
    using into_runtime_Inr_all [OF assms(1)] check_rate_limit_Inr_iff by metis
  with assms(2) show ?thesis by (simp add: limiter_from_config_def rate_limit_valid_def)
qed

lemma load_from_file_Inr:
  "load_from_file read toml path = Inr cfg \<longleftrightarrow> (\<exists>txt. read path = Inr txt \<and> toml txt = Inr cfg)"
  by (auto simp: load_from_file_def result_simps)

section \<open>How startup ends\<close>

lemma new_semaphore_Inr_iff:
  assumes "sem_laws S"
  shows "(\<exists>k. new_semaphore S n = Inr k) \<longleftrightarrow> unat n \<le> MAX_PERMITS"
  using sem_laws.new_ok [OF assms, of n] sem_laws.new_panics [OF assms, of n]
  by (cases "unat n \<le> MAX_PERMITS") (auto simp: new_semaphore_def)

text \<open>What the environment and the limits must allow, beyond a valid configuration.\<close>

definition startup_ready ::
  "('cert, 'key, 'srv) tls_api \<Rightarrow> (socket_addr \<Rightarrow> bool) \<Rightarrow> ('uri, 'rx) runtime_config \<Rightarrow> bool" where
  "startup_ready T bind rt \<longleftrightarrow>
     pred_option (\<lambda>t. \<exists>acc. build_tls_acceptor T t = Inr acc) (rt_tls rt)
   \<and> bind (rt_listen rt) \<and> pred_option bind (rt_admin_listen rt)
   \<and> unat (rt_max_concurrent_requests rt) \<le> MAX_PERMITS \<and> unat (rt_max_connections rt) \<le> MAX_PERMITS"

lemma try_option_ex_iff: "(\<exists>y. try_option f x = Inr y) \<longleftrightarrow> pred_option (\<lambda>a. \<exists>b. f a = Inr b) x"
  by (cases x) (auto simp: try_option_Inr_iff)

lemma hand_over_sel [simp]:
  "su_config (hand_over U M rt lb acc lim k1 k2) = rt"
  "su_client (hand_over U M rt lb acc lim k1 k2)
     = (if has_https_upstream U rt then build_https_client rt else build_client rt)"
  "su_state (hand_over U M rt lb acc lim k1 k2) =
     \<lparr>sv_proxy = \<lparr>ps_request_id = 1, ps_balancer = lb, ps_limiter = lim\<rparr>, sv_semaphore = k1,
      sv_concurrency_limit = rt_max_concurrent_requests rt, sv_connection_semaphore = k2,
      sv_metrics = map_option (\<lambda>_. metrics_new M) (rt_admin_listen rt)\<rparr>"
  "su_tls_acceptor (hand_over U M rt lb acc lim k1 k2) = acc"
  "su_listener (hand_over U M rt lb acc lim k1 k2) = rt_listen rt"
  "su_health (hand_over U M rt lb acc lim k1 k2) = map_option (health_task_of rt) (rt_health_check rt)"
  "su_cleanup (hand_over U M rt lb acc lim k1 k2) \<longleftrightarrow> lim \<noteq> None"
  "su_admin (hand_over U M rt lb acc lim k1 k2)
     = map_option (\<lambda>addr. (addr, admin_of M rt lb k1 k2)) (rt_admin_listen rt)"
  by (simp_all add: hand_over_def)

lemma has_https_iff:
  "has_https_upstream U rt \<longleftrightarrow>
     (\<exists>u\<in>set (rt_upstreams rt). \<exists>s. uri_scheme U (vu_uri u) = Some s \<and> eq_ignore_ascii_case s ''https'')"
  by (auto simp: has_https_upstream_def list_ex_iff split: option.splits)

lemma serve_start_fresh:
  assumes "new_semaphore S (rt_max_concurrent_requests rt) = Inr k1"
    "new_semaphore S (rt_max_connections rt) = Inr k2"
  shows "fresh_machine S rt (serve_start (hand_over U M rt (balancer_new
    (from_validated (rt_upstreams rt) (rt_health_check_cooldown rt) clk)) acc lim k1 k2))"
  using assms by (auto simp: fresh_machine_def serve_start_def new_semaphore_def)

lemma aborted_tasks_iff:
  "t \<in> set (aborted_tasks su) \<longleftrightarrow>
     (case t of HealthChecker \<Rightarrow> su_health su \<noteq> None | LimiterCleanup \<Rightarrow> su_cleanup su
      | AdminListener \<Rightarrow> su_admin su \<noteq> None)"
  by (cases t; cases "su_health su"; cases "su_admin su") (auto simp: aborted_tasks_def)

lemma admin_bind_Inr: "try_option (\<lambda>a. reject_if (\<not> P a) (E a)) x = Inr y \<Longrightarrow> pred_option P x"
  by (cases x) (auto simp: try_option_Inr_iff)

text \<open>A startup that succeeded passed every step, and hands over what those steps built.\<close>

lemma startup_InrE:
  assumes "startup cr S M T read toml bind clk path = Inr su"
  obtains cfg rt acc lim k1 k2 where
    "load_from_file read toml path = Inr cfg"
    "into_runtime (cr_uri cr) (cr_http cr) (cr_regex cr) cfg = Inr rt"
    "try_option (build_tls_acceptor T) (rt_tls rt) = Inr acc"
    "try_option (limiter_from_config (cr_gov cr)) (rt_rate_limit rt) = Inr lim"
    "new_semaphore S (rt_max_concurrent_requests rt) = Inr k1"
    "new_semaphore S (rt_max_connections rt) = Inr k2"
    "bind (rt_listen rt)" "pred_option bind (rt_admin_listen rt)"
    "su = hand_over (cr_uri cr) M rt (balancer_new
       (from_validated (rt_upstreams rt) (rt_health_check_cooldown rt) clk)) acc lim k1 k2"
  using assms unfolding startup_def Let_def and_then_Inr_iff map_err_Inr_iff reject_if_Inr_iff not_not sum.inject
  by (elim exE conjE) (rule that, assumption+, erule admin_bind_Inr, rule sym, assumption)

lemma startup_succeeds:
  assumes "sem_laws S" and c: "load_from_file read toml path = Inr cfg"
    "into_runtime (cr_uri cr) (cr_http cr) (cr_regex cr) cfg = Inr rt" and r: "startup_ready T bind rt"
  shows "\<exists>su. startup cr S M T read toml bind clk path = Inr su"
proof -
  obtain acc where "try_option (build_tls_acceptor T) (rt_tls rt) = Inr acc"
    using r try_option_ex_iff [of "build_tls_acceptor T" "rt_tls rt"] by (auto simp: startup_ready_def)
  moreover have "\<exists>lim. try_option (limiter_from_config (cr_gov cr)) (rt_rate_limit rt) = Inr lim"
    by (rule try_option_ok, rule limiter_constructs [OF c(2)])
  then obtain lim where "try_option (limiter_from_config (cr_gov cr)) (rt_rate_limit rt) = Inr lim" ..
  moreover obtain k1 k2 where "new_semaphore S (rt_max_concurrent_requests rt) = Inr k1"
    "new_semaphore S (rt_max_connections rt) = Inr k2"
    using r new_semaphore_Inr_iff [OF assms(1), of "rt_max_concurrent_requests rt"]
      new_semaphore_Inr_iff [OF assms(1), of "rt_max_connections rt"] unfolding startup_ready_def by blast
  moreover have "bind (rt_listen rt)" "pred_option bind (rt_admin_listen rt)"
    using r by (simp_all add: startup_ready_def)
  ultimately show ?thesis
    using c by (cases "rt_admin_listen rt") (simp_all add: startup_def Let_def try_option_def reject_if_def)
qed

text \<open>
  C38. Startup succeeds exactly when it should: the process reaches \<open>serve\<close> if and only if
  the configuration file is read, parsed and validated, the TLS files (if configured) load,
  both listeners bind, and the two limits are within what a semaphore can hold. In
  particular the rate limiter never makes it fail after validation.
\<close>

theorem startup_succeeds_iff:
  assumes "sem_laws S"
  shows "(\<exists>su. startup cr S M T read toml bind clk path = Inr su) \<longleftrightarrow>
    (\<exists>cfg rt. load_from_file read toml path = Inr cfg
       \<and> into_runtime (cr_uri cr) (cr_http cr) (cr_regex cr) cfg = Inr rt \<and> startup_ready T bind rt)"
  (is "?lhs \<longleftrightarrow> ?rhs")
proof
  assume ?lhs
  then obtain su where "startup cr S M T read toml bind clk path = Inr su" ..
  then show ?rhs
  proof (cases rule: startup_InrE)
    case (1 cfg rt acc lim k1 k2)
    have "startup_ready T bind rt"
      using 1(3,5-8) new_semaphore_Inr_iff [OF assms] try_option_ex_iff [of "build_tls_acceptor T"]
      unfolding startup_ready_def by metis
    with 1(1,2) show ?thesis by blast
  qed
next
  assume ?rhs
  then show ?lhs using startup_succeeds [OF assms] by blast
qed

definition sample_tls :: "(string, string, string) tls_api" where
  "sample_tls = \<lparr>tl_pem_file_iter = (\<lambda>p. Inr [Inr p]), tl_key_from_pem_file = Inr,
     tl_with_single_cert = (\<lambda>cs k. Inr (concat cs @ k))\<rparr>"

abbreviation sample_startup :: "config \<Rightarrow> (socket_addr \<Rightarrow> bool)
    \<Rightarrow> (startup_failure, (ref_uri, string, gcra, nat, ref_registry, string) started) result" where
  "sample_startup cfg bind \<equiv> startup sample_crates ref_sem ref_prom sample_tls (\<lambda>_. Inr ''toml'')
     (\<lambda>_. Inr cfg) bind (\<lambda>_. 0) ''palisade.toml''"

lemma sample_loads: "load_from_file (\<lambda>_. Inr ''toml'') (\<lambda>_. Inr cfg) ''palisade.toml'' = Inr cfg"
  by (simp add: load_from_file_Inr)

lemma sample_accepted:
  "into_runtime (cr_uri sample_crates) (cr_http sample_crates) (cr_regex sample_crates) sample_config
     = Inr sample_runtime"
  using sample_runtime_ok by simp

lemma sample_ready: "startup_ready sample_tls (\<lambda>_. True) sample_runtime"
  by (simp add: startup_ready_def sample_runtime_def MAX_PERMITS_def)

theorem startup_succeeds_iff_witness:
  "(\<exists>su. sample_startup sample_config (\<lambda>_. True) = Inr su)
   \<and> \<not> (\<exists>su. sample_startup sample_config (\<lambda>a. sock_port a \<noteq> 9090) = Inr su)"
proof
  show "\<exists>su. sample_startup sample_config (\<lambda>_. True) = Inr su"
    using startup_succeeds_iff [OF ref_semaphore.sem_laws_axioms] sample_loads sample_accepted sample_ready by blast
  have "\<not> startup_ready sample_tls (\<lambda>a. sock_port a \<noteq> 9090) sample_runtime"
    by (simp add: startup_ready_def sample_runtime_def)
  then show "\<not> (\<exists>su. sample_startup sample_config (\<lambda>a. sock_port a \<noteq> 9090) = Inr su)"
    using sample_accepted
    by (simp only: startup_succeeds_iff [OF ref_semaphore.sem_laws_axioms] sample_loads) auto
qed



text \<open>
  A limit that validation accepts can panic at startup: \<open>into_runtime\<close> only rejects a
  zero \<open>max_concurrent_requests\<close>, and for every accepted configuration with a larger one
  than a semaphore can hold the process panics in \<open>Semaphore::new\<close> instead of reporting a
  configuration error.
\<close>

theorem oversized_limit_panics:
  assumes "sem_laws S" and "load_from_file read toml path = Inr cfg"
    and "into_runtime (cr_uri cr) (cr_http cr) (cr_regex cr) cfg = Inr rt" and "rt_tls rt = None"
    and "MAX_PERMITS < unat (rt_max_concurrent_requests rt)"
  shows "startup cr S M T read toml bind clk path = Inl (PanicSemaphore (rt_max_concurrent_requests rt))"
proof -
  have "\<exists>lim. try_option (limiter_from_config (cr_gov cr)) (rt_rate_limit rt) = Inr lim"
    by (rule try_option_ok, rule limiter_constructs [OF assms(3)])
  then obtain lim where "try_option (limiter_from_config (cr_gov cr)) (rt_rate_limit rt) = Inr lim" ..
  moreover have "new_semaphore S (rt_max_concurrent_requests rt) = Inl (PanicSemaphore (rt_max_concurrent_requests rt))"
    using sem_laws.new_panics [OF assms(1,5)] by (simp add: new_semaphore_def)
  ultimately show ?thesis using assms(2,3,4) by (simp add: startup_def Let_def try_option_def [of "build_tls_acceptor T"])
qed

end
