(* ===== verification/Server_Lifecycle.thy ===== *)
theory Server_Lifecycle
  imports Main_Startup
begin

text \<open>
  The server from startup to shutdown: what holds in every run of the machine that a
  successful \<open>main\<close> hands to \<open>serve\<close>. The theory composes \<open>Main_Startup\<close> with the step relation
  of \<open>Server_Machine\<close>: request numbers are never reused, and shutdown stops admission and
  gives everything back.
\<close>

section \<open>Started servers\<close>

lemma startup_serves:
  assumes "startup cr S M T read toml bind clk path = Inr su"
  obtains cfg where "into_runtime (cr_uri cr) (cr_http cr) (cr_regex cr) cfg = Inr (su_config su)"
    "length (rt_upstreams (su_config su)) = length (cfg_upstreams cfg)"
    "fresh_machine S (su_config su) (serve_start su :: ('hm, 'uri, 'c, 'lim, 's) machine)"
    "ps_request_id (mc_proxy (serve_start su :: ('hm, 'uri, 'c, 'lim, 's) machine)) = 1"
  using assms
proof (cases rule: startup_InrE)
  case (1 cfg rt acc lim k1 k2)
  have "length (rt_upstreams rt) = length (cfg_upstreams cfg)"
    using into_runtime_Inr_all [OF 1(2)] by (simp add: validate_upstreams_Inr_iff)
  then show ?thesis
    using 1(2) serve_start_fresh [OF 1(5,6)] by (intro that [of cfg]) (simp_all add: 1(9) serve_start_def)
qed

lemma started_run_inv:
  fixes s :: "('hm, 'uri, 'c, 'lim, 's) machine"
  assumes "sem_laws S" and "startup cr S M T read toml bind clk path = Inr su"
    and "length (rt_upstreams (su_config su)) < 2 ^ 31"
    and "steps (server_step cr S (su_config su) hpath) (serve_start su) es s"
  shows "rt_limits_ok (su_config su)
    \<and> machine_inv S (su_config su) (map vu_uri (rt_upstreams (su_config su))) s"
proof -
  obtain cfg where "into_runtime (cr_uri cr) (cr_http cr) (cr_regex cr) cfg = Inr (su_config su)"
    "length (rt_upstreams (su_config su)) = length (cfg_upstreams cfg)"
    "fresh_machine S (su_config su) (serve_start su :: ('hm, 'uri, 'c, 'lim, 's) machine)"
    using startup_serves [OF assms(2), where ?'c = 'c] by metis
  then have "sem_laws S \<and> config_in_range (su_config su)
      \<and> fresh_machine S (su_config su) (serve_start su :: ('hm, 'uri, 'c, 'lim, 's) machine)"
    using assms(1,3) validated_in_range by metis
  from running.run_inv [OF this assms(4)] show ?thesis by blast
qed

section \<open>Request numbers\<close>

lemma begin_request_seq:
  assumes "begin_request cr rt st req addr tls ck = (r, ps)"
  shows "ps_request_id ps = ps_request_id st + 1"
    and "r = Inr fl \<Longrightarrow> if_seq fl = ps_request_id st"
proof -
  let ?st = "st\<lparr>ps_request_id := ps_request_id st + 1\<rparr>"
  obtain q st1 where c: "check_limiter (cr_gov cr) ?st (sock_ip addr) ck = (q, st1)" by force
  have "ps_request_id st1 = ps_request_id st + 1"
    using check_limiter_frame(2) [of "cr_gov cr" ?st "sock_ip addr" ck] c by simp
  then show "ps_request_id ps = ps_request_id st + 1" "r = Inr fl \<Longrightarrow> if_seq fl = ps_request_id st"
    using assms c by (auto simp: begin_request_def Let_def split: sum.splits prod.splits)
qed

lemma complete_request_seq:
  "complete_request cr rt st fl out now = (r, ps) \<Longrightarrow> ps_request_id ps = ps_request_id st"
  by (auto simp: complete_request_def on_backend_def split: outcome.splits if_splits)

text \<open>The numbers of the requests in flight are different and have been handed out.\<close>

definition seqs_ok :: "('hm, 'uri, 'c, 'lim, 's) machine \<Rightarrow> bool" where
  "seqs_ok s \<longleftrightarrow> distinct (map if_seq (mc_flights s))
     \<and> (\<forall>fl\<in>set (mc_flights s). if_seq fl < ps_request_id (mc_proxy s))"

lemma distinct_remove_nth: "distinct (map f xs) \<Longrightarrow> distinct (map f (remove_nth i xs))"
proof -
  assume "distinct (map f xs)"
  then have "distinct (map f (take i xs)) \<and> distinct (map f (drop i xs))
      \<and> set (map f (take i xs)) \<inter> set (map f (drop i xs)) = {}"
    by (metis append_take_drop_id distinct_append map_append)
  moreover have "drop (Suc i) xs = tl (drop i xs)" by (metis drop_Suc tl_drop)
  ultimately show ?thesis
    unfolding remove_nth_def by (cases "drop i xs") auto
qed

lemma seqs_step:
  assumes "server_step cr S rt path s e t" "seqs_ok s" "unat (ps_request_id (mc_proxy s)) + 1 < 2 ^ 64"
  shows "seqs_ok t \<and> ps_request_id (mc_proxy s) \<le> ps_request_id (mc_proxy t)
    \<and> unat (ps_request_id (mc_proxy t)) \<le> unat (ps_request_id (mc_proxy s)) + 1"
proof -
  let ?n = "ps_request_id (mc_proxy s)"
  have inc: "unat (?n + 1) = unat ?n + 1" using assms(3) by (simp add: unat_word_ariths)
  then have lt: "?n < ?n + 1" by (simp add: word_less_nat_alt)
  have up: "x < ?n \<Longrightarrow> x < ?n + 1" for x by (rule less_trans [OF _ lt])
  have keep: "seqs_ok t" if "ps_request_id (mc_proxy t) = ?n \<or> ps_request_id (mc_proxy t) = ?n + 1"
      "distinct (map if_seq (mc_flights t))" "set (mc_flights t) \<subseteq> set (mc_flights s)"
  proof -
    have "if_seq fl < ?n" if "fl \<in> set (mc_flights t)" for fl
      using that \<open>set (mc_flights t) \<subseteq> set (mc_flights s)\<close> assms(2) by (auto simp: seqs_ok_def)
    then show ?thesis using that(1,2) up by (auto simp: seqs_ok_def)
  qed
  have old: "distinct (map if_seq (mc_flights s))" using assms(2) by (simp add: seqs_ok_def)
  from assms(1) show ?thesis
  proof cases
    case (refused k req addr tls ck e ps)
    then show ?thesis using keep old lt inc begin_request_seq(1) [OF refused(5)] by auto
  next
    case (admitted k req addr tls ck fl ps)
    have "if_seq fl = ?n" "ps_request_id ps = ?n + 1"
      using begin_request_seq [OF admitted(5)] by simp_all
    then show ?thesis
      using admitted(2) assms(2) lt up inc by (auto simp: seqs_ok_def)
  next
    case (finish i out now r ps)
    then show ?thesis
      using keep distinct_remove_nth [OF old, of i] set_remove_nth [of i "mc_flights s"] complete_request_seq [OF finish(4)] by auto
  next
    case (cancel i)
    then show ?thesis using keep distinct_remove_nth [OF old, of i] set_remove_nth [of i "mc_flights s"] by auto
  qed (use keep old in \<open>auto simp: on_backend_def\<close>)
qed

lemma seqs_run:
  assumes "steps (server_step cr S rt path) s es t" "seqs_ok s"
    and "unat (ps_request_id (mc_proxy s)) + length es < 2 ^ 64"
  shows "seqs_ok t \<and> ps_request_id (mc_proxy s) \<le> ps_request_id (mc_proxy t)
    \<and> unat (ps_request_id (mc_proxy t)) \<le> unat (ps_request_id (mc_proxy s)) + length es"
  using assms
proof (induction rule: steps.induct)
  case (steps_Cons s e t es u)
  have "seqs_ok t \<and> ps_request_id (mc_proxy s) \<le> ps_request_id (mc_proxy t)
      \<and> unat (ps_request_id (mc_proxy t)) \<le> unat (ps_request_id (mc_proxy s)) + 1"
    using steps_Cons by (intro seqs_step) auto
  then show ?case using steps_Cons.IH steps_Cons.prems(2) by auto
qed simp

text \<open>
  C15. Request numbers are not reused: in every run of a started server of fewer than
  \<open>2^64 - 1\<close> steps, the requests in flight have different numbers, and a request that is
  admitted at any later point gets a number that none of them has.
\<close>

theorem request_ids_unique:
  fixes s s' :: "('hm, 'uri, 'c, 'lim, 's) machine"
  assumes "startup cr S M T read toml bind clk path = Inr su"
    and "steps (server_step cr S (su_config su) hpath) (serve_start su) es s"
    and "steps (server_step cr S (su_config su) hpath) s fs s'"
    and "length es + length fs < 2 ^ 64 - 1"
    and "begin_request cr (su_config su) (mc_proxy s') req addr tls ck = (Inr fl, ps)"
  shows "distinct (map if_seq (mc_flights s)) \<and> if_seq fl \<notin> if_seq ` set (mc_flights s)
    \<and> if_seq fl \<notin> if_seq ` set (mc_flights s')"
proof -
  have "ps_request_id (mc_proxy (serve_start su :: ('hm, 'uri, 'c, 'lim, 's) machine)) = 1"
    using startup_serves [OF assms(1), where ?'c = 'c] by metis
  moreover have "seqs_ok (serve_start su :: ('hm, 'uri, 'c, 'lim, 's) machine)"
    by (simp add: seqs_ok_def serve_start_def)
  ultimately have s: "seqs_ok s" "unat (ps_request_id (mc_proxy s)) \<le> 1 + length es"
    using seqs_run [OF assms(2)] assms(4) by auto
  then have "seqs_ok s' \<and> ps_request_id (mc_proxy s) \<le> ps_request_id (mc_proxy s')"
    using seqs_run [OF assms(3)] assms(4) by auto
  moreover have "if_seq fl = ps_request_id (mc_proxy s')"
    using begin_request_seq(2) [OF assms(5)] by simp
  ultimately show ?thesis using s(1) by (fastforce simp: seqs_ok_def)
qed

section \<open>Shutdown\<close>

text \<open>The events of the accept loop itself.\<close>

definition accepting_event :: "('hm, 'uri, 'c, 'b) server_event \<Rightarrow> bool" where
  "accepting_event e = (case e of Accept \<Rightarrow> True | AcceptError \<Rightarrow> True | Shutdown \<Rightarrow> True | _ \<Rightarrow> False)"

lemma draining_step:
  assumes "server_step cr S rt path s e t" "\<not> mc_accepting s"
  shows "\<not> mc_accepting t \<and> mc_connections t \<le> mc_connections s \<and> \<not> accepting_event e"
  using assms by cases (auto simp: accepting_event_def)

lemma draining_run:
  assumes "steps (server_step cr S rt path) s es t" "\<not> mc_accepting s"
  shows "\<not> mc_accepting t \<and> mc_connections t \<le> mc_connections s \<and> (\<forall>e\<in>set es. \<not> accepting_event e)"
  using assms
proof (induction rule: steps.induct)
  case (steps_Cons s e t es u)
  then show ?case using draining_step [OF steps_Cons(1)] by force
qed simp

text \<open>
  Shutdown gives everything back: once the shutdown signal has been handled nothing is
  accepted any more and the number of connections never grows; and from every state the
  draining server can be in, aborting the rest leaves no connection and no request, with
  every permit of both semaphores free.
\<close>

lemma shutdown_drains:
  fixes s s' :: "('hm, 'uri, 'c, 'lim, 's) machine"
  assumes "sem_laws S" and "startup cr S M T read toml bind clk path = Inr su"
    and "length (rt_upstreams (su_config su)) < 2 ^ 31"
    and "steps (server_step cr S (su_config su) hpath) (serve_start su) es s"
    and "steps (server_step cr S (su_config su) hpath) s (Shutdown # fs) s'"
  shows "(\<forall>e\<in>set fs. \<not> accepting_event e) \<and> mc_connections s' \<le> mc_connections s
    \<and> (\<exists>t. server_step cr S (su_config su) hpath s' AbortAll t
        \<and> mc_connections t = 0 \<and> mc_flights t = []
        \<and> sm_available S (mc_connection_semaphore t) = unat (rt_max_connections (su_config su))
        \<and> sm_available S (mc_semaphore t) = unat (rt_max_concurrent_requests (su_config su)))"
proof -
  obtain u where "server_step cr S (su_config su) hpath s Shutdown u"
    and u: "steps (server_step cr S (su_config su) hpath) u fs s'"
    using assms(5) by (auto simp: steps_Cons_iff)
  then have "\<not> mc_accepting u" "mc_connections u = mc_connections s" by (auto elim: server_step.cases)
  with draining_run [OF u] have d: "\<not> mc_accepting s'" "mc_connections s' \<le> mc_connections s"
    "\<forall>e\<in>set fs. \<not> accepting_event e" by auto
  from server_step.abort [OF d(1)] obtain t where
    t: "server_step cr S (su_config su) hpath s' AbortAll t" "mc_connections t = 0" "mc_flights t = []"
    by fastforce
  have "steps (server_step cr S (su_config su) hpath) s' [AbortAll] t" using t(1) by blast
  from steps_append [OF assms(4) steps_append [OF assms(5) this]]
  have "steps (server_step cr S (su_config su) hpath) (serve_start su) (es @ (Shutdown # fs) @ [AbortAll]) t" .
  from started_run_inv [OF assms(1-3) this] t(2,3)
  have "sm_available S (mc_connection_semaphore t) = unat (rt_max_connections (su_config su))"
    "sm_available S (mc_semaphore t) = unat (rt_max_concurrent_requests (su_config su))"
    by (simp_all add: machine_inv_def)
  with t d show ?thesis by blast
qed

section \<open>Concrete runs\<close>

type_synonym sample_machines = "((string \<times> string) list, ref_uri, string list, gcra, nat) machine"

abbreviation sample_begin ::
  "(ref_uri, string, gcra, nat, ref_registry, string) started \<Rightarrow> (ref_uri, gcra) proxy_state
     \<Rightarrow> (proxy_error, ((string \<times> string) list, ref_uri, string list) in_flight) result \<times> (ref_uri, gcra) proxy_state" where
  "sample_begin su st \<equiv> begin_request sample_crates (su_config su) st (sample_request [] ''/a'')
     sample_addr False sample_clock"

lemma sample_begins:
  "case sample_startup sample_config (\<lambda>_. True) of Inl _ \<Rightarrow> False
   | Inr su \<Rightarrow> length (rt_upstreams (su_config su)) = 2
       \<and> sv_connection_semaphore (su_state su) = 10000 \<and> sv_semaphore (su_state su) = 1000
       \<and> (case sample_begin su (sv_proxy (su_state su)) of (Inl _, _) \<Rightarrow> False
          | (Inr fl, ps) \<Rightarrow> \<not> isl (fst (sample_begin su ps)))"
  by code_simp

lemma sample_started:
  obtains su fl ps fl' ps' where "sample_startup sample_config (\<lambda>_. True) = Inr su"
    "length (rt_upstreams (su_config su)) < 2 ^ 31"
    "sv_connection_semaphore (su_state su) = 10000" "sv_semaphore (su_state su) = 1000"
    "sample_begin su (sv_proxy (su_state su)) = (Inr fl, ps)" "sample_begin su ps = (Inr fl', ps')"
proof (cases "sample_startup sample_config (\<lambda>_. True)")
  case (Inr su)
  obtain r ps where b: "sample_begin su (sv_proxy (su_state su)) = (r, ps)" by force
  obtain r' ps' where b': "sample_begin su ps = (r', ps')" by force
  show ?thesis
    using sample_begins Inr b b' by (cases r; cases r') (auto intro!: that)
qed (use sample_begins in simp)

theorem request_ids_unique_witness:
  "\<exists>su fl fl' ps ps'. sample_startup sample_config (\<lambda>_. True) = Inr su
    \<and> sample_begin su (sv_proxy (su_state su)) = (Inr fl, ps) \<and> sample_begin su ps = (Inr fl', ps')
    \<and> if_seq fl' \<noteq> if_seq fl"
proof (rule sample_started, goal_cases)
  case (1 su fl ps fl' ps')
  let ?R = "server_step sample_crates ref_sem (su_config su) ''/health''"
  let ?start = "serve_start su :: sample_machines"
  let ?open = "?start\<lparr>mc_connection_semaphore := 9999, mc_connections := Suc (mc_connections ?start)\<rparr>"
  let ?busy = "?open\<lparr>mc_proxy := ps, mc_semaphore := 999, mc_flights := mc_flights ?open @ [fl]\<rparr>"
  let ?arrive = "Arrive (sample_request [] ''/a'') sample_addr False sample_clock"
  have "?R ?start Accept ?open"
    by (rule server_step.accept) (simp_all add: serve_start_def ref_sem_def 1(3))
  moreover have "?R ?open ?arrive ?busy"
    by (rule server_step.admitted) (simp_all add: serve_start_def ref_sem_def 1(4,5))
  ultimately have st: "steps ?R ?start [Accept, ?arrive] ?busy" by blast
  have "steps ?R ?busy [] ?busy" by simp
  from request_ids_unique [OF 1(1) st this, of "sample_request [] ''/a''" sample_addr False sample_clock fl' ps'] 1
  show ?case by (auto simp: serve_start_def)
qed

end
