(* ===== verification/Serve_Loop.thy ===== *)
theory Serve_Loop
  imports Server_Lifecycle
begin

text \<open>
  \<open>serve\<close> in detail: the accept loop with its \<open>JoinSet\<close> and graceful-shutdown watchers, each
  connection task through handshake, service and end, the service closure with its metrics on
  both sides of the upstream call, and the drain with its deadline. The machine has a clock;
  which events happen when is up to the environment, except that the timeout of the drain
  cannot fire early. A request may outlive its connection task, as HTTP/2 streams do until
  they notice. The machine is shown to simulate \<open>Server_Machine\<close>, so the invariants proved there
  carry over; \<open>Serve_Drain\<close> and \<open>Serve_Metrics\<close> have the properties that need the detail.
\<close>

section \<open>State\<close>

text \<open>A spawned connection task: in the TLS handshake, serving requests, or finished but not yet
  reaped. It holds its connection permit and its watcher until it finishes.\<close>

datatype conn_phase = Handshaking | Serving | Finished

record conn_task =
  ct_addr :: socket_addr
  ct_phase :: conn_phase

text \<open>In the loop, waiting in \<open>timeout(shutdown_timeout, graceful.shutdown())\<close> with its deadline,
  or returned.\<close>

datatype loop_phase = Accepting | Draining instant | Returned

text \<open>A call of the service closure waiting for the upstream, with the locals it keeps.\<close>

record ('hm, 'uri, 'c) service_wait =
  sw_started :: instant
  sw_flight :: "('hm, 'uri, 'c) in_flight"

text \<open>\<open>sl_answers\<close> is the history of answers: the error of the handler, if any, and the status.\<close>

record ('hm, 'uri, 'c, 'lim, 's, 'm) loop_state =
  sl_now :: instant
  sl_phase :: loop_phase
  sl_tasks :: "conn_task list"
  sl_waits :: "('hm, 'uri, 'c) service_wait list"
  sl_proxy :: "('uri, 'lim) proxy_state"
  sl_semaphore :: 's
  sl_connection_semaphore :: 's
  sl_metrics :: "'m option"
  sl_answers :: "(proxy_error option \<times> u16) list"

datatype ('hm, 'uri, 'c, 'b) loop_event =
    Tick instant
  | Incoming socket_addr
  | IncomingError
  | Reap nat
  | Signal
  | HandshakeDone nat
  | HandshakeFailed nat
  | ConnectionDone nat
  | Request nat "('hm, 'uri, 'c) request" request_clock
  | UpstreamDone nat "('hm, 'b) outcome"
  | RequestDropped nat
  | ProbeDone nat "'uri \<Rightarrow> probe_result"
  | CleanupTick
  | Drained
  | Deadline

definition live :: "conn_task \<Rightarrow> bool" where
  "live t \<longleftrightarrow> ct_phase t \<noteq> Finished"

text \<open>\<open>graceful.count()\<close>: the watchers not yet dropped.\<close>

definition watchers :: "('hm, 'uri, 'c, 'lim, 's, 'm) loop_state \<Rightarrow> nat" where
  "watchers s = length (filter live (sl_tasks s))"

section \<open>Operations\<close>

text \<open>\<open>connections.spawn\<close>: with an acceptor the task starts with the handshake.\<close>

definition spawn_task :: "bool \<Rightarrow> socket_addr \<Rightarrow> conn_task" where
  "spawn_task client_tls addr =
     \<lparr>ct_addr = addr, ct_phase = (if client_tls then Handshaking else Serving)\<rparr>"

text \<open>The end of a task drops its permit.\<close>

definition finish_task ::
  "'s sem_api \<Rightarrow> nat \<Rightarrow> ('hm, 'uri, 'c, 'lim, 's, 'm) loop_state \<Rightarrow> ('hm, 'uri, 'c, 'lim, 's, 'm) loop_state" where
  "finish_task S i s =
     s\<lparr>sl_tasks := (sl_tasks s)[i := (sl_tasks s ! i)\<lparr>ct_phase := Finished\<rparr>],
       sl_connection_semaphore := sm_release S (sl_connection_semaphore s)\<rparr>"

text \<open>The end of the service closure: the metrics of the answer. Nothing is sent or counted if
  building the response panics.\<close>

definition answer ::
  "'m prom_api \<Rightarrow> proxy_error option \<Rightarrow> ('hm, 'b box_body) response option \<Rightarrow> instant
     \<Rightarrow> ('hm, 'uri, 'c, 'lim, 's, 'm) loop_state \<Rightarrow> ('hm, 'uri, 'c, 'lim, 's, 'm) loop_state" where
  "answer M err resp started s =
     (let metrics = (case err of None \<Rightarrow> sl_metrics s | Some e \<Rightarrow> note_error M (sl_metrics s) e)
      in s\<lparr>sl_metrics := note_response M metrics resp (elapsed (sl_now s) started),
           sl_answers := sl_answers s @ (case resp of None \<Rightarrow> [] | Some r \<Rightarrow> [(err, rs_status r)])\<rparr>)"

text \<open>The service closure up to the upstream call: 503 without a permit, the error response of a
  refused request, or the wait for the upstream.\<close>

definition serve_request ::
  "('hm, 'hv, 'uri, 'rx, 'lim, 'neg, 'b) crates \<Rightarrow> 's sem_api \<Rightarrow> 'm prom_api
     \<Rightarrow> ((string \<times> string) list \<Rightarrow> string) \<Rightarrow> ('uri, 'rx) runtime_config \<Rightarrow> bool
     \<Rightarrow> socket_addr \<Rightarrow> ('hm, 'uri, 'c) request \<Rightarrow> request_clock
     \<Rightarrow> ('hm, 'uri, 'c, 'lim, 's, 'm) loop_state \<Rightarrow> ('hm, 'uri, 'c, 'lim, 's, 'm) loop_state" where
  "serve_request cr S M json rt tls addr req ck s =
     (case sm_try_acquire S (sl_semaphore s) of
        None \<Rightarrow>
          answer M None
            (error_response (cr_http cr) json (ServiceUnavailable (rt_max_concurrent_requests rt)) :: ('hm, 'b box_body) response option)
            (sl_now s) s
      | Some k \<Rightarrow>
          (case begin_request cr rt (sl_proxy s) req addr tls ck of
             (Inl e, ps) \<Rightarrow>
               answer M (Some e) (error_response (cr_http cr) json e :: ('hm, 'b box_body) response option) (sl_now s)
                 (s\<lparr>sl_proxy := ps, sl_semaphore := sm_release S k\<rparr>)
           | (Inr fl, ps) \<Rightarrow>
               s\<lparr>sl_proxy := ps, sl_semaphore := k,
                 sl_waits := sl_waits s @ [\<lparr>sw_started = sl_now s, sw_flight = fl\<rparr>]\<rparr>))"

text \<open>The rest of the closure once the upstream has answered, failed or timed out.\<close>

definition resume_request ::
  "('hm, 'hv, 'uri, 'rx, 'lim, 'neg, 'b) crates \<Rightarrow> 's sem_api \<Rightarrow> 'm prom_api
     \<Rightarrow> ((string \<times> string) list \<Rightarrow> string) \<Rightarrow> ('uri, 'rx) runtime_config
     \<Rightarrow> nat \<Rightarrow> ('hm, 'b) outcome
     \<Rightarrow> ('hm, 'uri, 'c, 'lim, 's, 'm) loop_state \<Rightarrow> ('hm, 'uri, 'c, 'lim, 's, 'm) loop_state" where
  "resume_request cr S M json rt j out s =
     (let w = sl_waits s ! j in
      case complete_request cr rt (sl_proxy s) (sw_flight w) out (sl_now s) of
        (r, ps) \<Rightarrow>
          (let s' = s\<lparr>sl_proxy := ps, sl_semaphore := sm_release S (sl_semaphore s),
                      sl_waits := remove_nth j (sl_waits s)\<rparr>
           in case r of
                Inr resp \<Rightarrow> answer M None (Some resp) (sw_started w) s'
              | Inl e \<Rightarrow>
                  answer M (Some e) (error_response (cr_http cr) json e :: ('hm, 'b box_body) response option)
                    (sw_started w) s'))"

section \<open>The steps of serve\<close>

inductive loop_step ::
  "('hm, 'hv, 'uri, 'rx, 'lim, 'neg, 'b) crates \<Rightarrow> 's sem_api \<Rightarrow> 'm prom_api
     \<Rightarrow> ((string \<times> string) list \<Rightarrow> string) \<Rightarrow> ('uri, 'rx) runtime_config \<Rightarrow> bool \<Rightarrow> string
     \<Rightarrow> ('hm, 'uri, 'c, 'lim, 's, 'm) loop_state \<Rightarrow> ('hm, 'uri, 'c, 'b) loop_event
     \<Rightarrow> ('hm, 'uri, 'c, 'lim, 's, 'm) loop_state \<Rightarrow> bool"
  for cr S M json rt tls path where
  tick: "sl_now s \<le> t \<Longrightarrow> loop_step cr S M json rt tls path s (Tick t) (s\<lparr>sl_now := t\<rparr>)"
| incoming: "sl_phase s = Accepting \<Longrightarrow> sm_try_acquire S (sl_connection_semaphore s) = Some k \<Longrightarrow>
    loop_step cr S M json rt tls path s (Incoming addr)
      (s\<lparr>sl_connection_semaphore := k, sl_tasks := sl_tasks s @ [spawn_task tls addr]\<rparr>)"
| saturated: "sl_phase s = Accepting \<Longrightarrow> sm_try_acquire S (sl_connection_semaphore s) = None \<Longrightarrow>
    loop_step cr S M json rt tls path s (Incoming addr) s"
| incoming_error: "sl_phase s = Accepting \<Longrightarrow> loop_step cr S M json rt tls path s IncomingError s"
| reap: "sl_phase s = Accepting \<Longrightarrow> i < length (sl_tasks s) \<Longrightarrow> \<not> live (sl_tasks s ! i) \<Longrightarrow>
    loop_step cr S M json rt tls path s (Reap i) (s\<lparr>sl_tasks := remove_nth i (sl_tasks s)\<rparr>)"
| signal: "sl_phase s = Accepting \<Longrightarrow>
    loop_step cr S M json rt tls path s Signal
      (s\<lparr>sl_phase := Draining (sl_now s + rt_shutdown_timeout rt)\<rparr>)"
| handshake_done: "i < length (sl_tasks s) \<Longrightarrow> ct_phase (sl_tasks s ! i) = Handshaking \<Longrightarrow>
    loop_step cr S M json rt tls path s (HandshakeDone i)
      (s\<lparr>sl_tasks := (sl_tasks s)[i := (sl_tasks s ! i)\<lparr>ct_phase := Serving\<rparr>]\<rparr>)"
| handshake_failed: "i < length (sl_tasks s) \<Longrightarrow> ct_phase (sl_tasks s ! i) = Handshaking \<Longrightarrow>
    loop_step cr S M json rt tls path s (HandshakeFailed i) (finish_task S i s)"
| connection_done: "i < length (sl_tasks s) \<Longrightarrow> ct_phase (sl_tasks s ! i) = Serving \<Longrightarrow>
    loop_step cr S M json rt tls path s (ConnectionDone i) (finish_task S i s)"
| request: "i < length (sl_tasks s) \<Longrightarrow> ct_phase (sl_tasks s ! i) = Serving \<Longrightarrow>
    loop_step cr S M json rt tls path s (Request i req ck)
      (serve_request cr S M json rt tls (ct_addr (sl_tasks s ! i)) req ck s)"
| upstream_done: "j < length (sl_waits s) \<Longrightarrow>
    loop_step cr S M json rt tls path s (UpstreamDone j out) (resume_request cr S M json rt j out s)"
| request_dropped: "j < length (sl_waits s) \<Longrightarrow>
    loop_step cr S M json rt tls path s (RequestDropped j)
      (s\<lparr>sl_semaphore := sm_release S (sl_semaphore s), sl_waits := remove_nth j (sl_waits s)\<rparr>)"
| probe_done: "i < length (lb_pool (ps_balancer (sl_proxy s))) \<Longrightarrow>
    loop_step cr S M json rt tls path s (ProbeDone i net)
      (s\<lparr>sl_proxy := on_backend i (\<lambda>b. probe_backend (cr_uri cr) net path
           (rt_failure_threshold rt) (rt_healthy_threshold rt) b (sl_now s)) (sl_proxy s)\<rparr>)"
| cleanup_tick: "loop_step cr S M json rt tls path s CleanupTick
      (s\<lparr>sl_proxy := (sl_proxy s)\<lparr>ps_limiter :=
           map_option (\<lambda>l. limiter_retain_recent (cr_gov cr) l (sl_now s)) (ps_limiter (sl_proxy s))\<rparr>\<rparr>)"
| drained: "sl_phase s = Draining d \<Longrightarrow> watchers s = 0 \<Longrightarrow>
    loop_step cr S M json rt tls path s Drained (s\<lparr>sl_phase := Returned, sl_tasks := []\<rparr>)"
| deadline: "sl_phase s = Draining d \<Longrightarrow> d \<le> sl_now s \<Longrightarrow> watchers s \<noteq> 0 \<Longrightarrow>
    loop_step cr S M json rt tls path s Deadline
      (s\<lparr>sl_phase := Returned, sl_tasks := [],
         sl_connection_semaphore := (sm_release S ^^ watchers s) (sl_connection_semaphore s)\<rparr>)"

inductive_cases loop_step_incoming: "loop_step cr S M json rt tls path s (Incoming addr) t"

section \<open>Simulation of the server machine\<close>

definition loop_abs :: "('hm, 'uri, 'c, 'lim, 's, 'm) loop_state \<Rightarrow> ('hm, 'uri, 'c, 'lim, 's) machine" where
  "loop_abs s =
     \<lparr>mc_proxy = sl_proxy s, mc_semaphore = sl_semaphore s,
      mc_connection_semaphore = sl_connection_semaphore s, mc_connections = watchers s,
      mc_flights = map sw_flight (sl_waits s), mc_accepting = (sl_phase s = Accepting)\<rparr>"

fun loop_image ::
  "bool \<Rightarrow> ('hm, 'uri, 'c, 'lim, 's, 'm) loop_state \<Rightarrow> ('hm, 'uri, 'c, 'b) loop_event
     \<Rightarrow> ('hm, 'uri, 'c, 'b) server_event list" where
  "loop_image tls s (Incoming addr) = [Accept]"
| "loop_image tls s IncomingError = [AcceptError]"
| "loop_image tls s Signal = [Shutdown]"
| "loop_image tls s (HandshakeFailed i) = [ConnectionEnd]"
| "loop_image tls s (ConnectionDone i) = [ConnectionEnd]"
| "loop_image tls s (Request i req ck) = [Arrive req (ct_addr (sl_tasks s ! i)) tls ck]"
| "loop_image tls s (UpstreamDone j out) = [Finish j out (sl_now s)]"
| "loop_image tls s (RequestDropped j) = [Cancel j]"
| "loop_image tls s (ProbeDone i net) = [Probe i net (sl_now s)]"
| "loop_image tls s CleanupTick = [PruneLimiter (sl_now s)]"
| "loop_image tls s Deadline = replicate (watchers s) ConnectionEnd"
| "loop_image tls s (Tick t) = []"
| "loop_image tls s (Reap i) = []"
| "loop_image tls s (HandshakeDone i) = []"
| "loop_image tls s Drained = []"

lemma map_remove_nth: "map f (remove_nth i xs) = remove_nth i (map f xs)"
  by (simp add: remove_nth_def take_map drop_map)

lemma length_filter_remove_nth:
  "i < length xs \<Longrightarrow> length (filter P (remove_nth i xs)) + (if P (xs ! i) then 1 else 0) = length (filter P xs)"
proof -
  assume "i < length xs"
  then have "filter P xs = filter P (take i xs) @ (if P (xs ! i) then [xs ! i] else []) @ filter P (drop (Suc i) xs)"
    by (subst id_take_nth_drop [of i]) auto
  then show ?thesis by (simp add: remove_nth_def)
qed

lemma steps_single: "R s e t \<Longrightarrow> steps R s [e] t"
  by blast

lemma answer_frame [simp]:
  "sl_now (answer M err resp t s) = sl_now s" "sl_phase (answer M err resp t s) = sl_phase s"
  "sl_tasks (answer M err resp t s) = sl_tasks s" "sl_waits (answer M err resp t s) = sl_waits s"
  "sl_proxy (answer M err resp t s) = sl_proxy s" "sl_semaphore (answer M err resp t s) = sl_semaphore s"
  "sl_connection_semaphore (answer M err resp t s) = sl_connection_semaphore s"
  "watchers (answer M err resp t s) = watchers s"
  by (simp_all add: answer_def Let_def watchers_def)

lemma watchers_update [simp]:
  "watchers (s\<lparr>sl_now := a\<rparr>) = watchers s" "watchers (s\<lparr>sl_phase := b\<rparr>) = watchers s"
  "watchers (s\<lparr>sl_waits := c\<rparr>) = watchers s" "watchers (s\<lparr>sl_proxy := d\<rparr>) = watchers s"
  "watchers (s\<lparr>sl_semaphore := e\<rparr>) = watchers s" "watchers (s\<lparr>sl_connection_semaphore := f\<rparr>) = watchers s"
  "watchers (s\<lparr>sl_tasks := ts\<rparr>) = length (filter live ts)"
  by (simp_all add: watchers_def)

lemma live_task_watched: "i < length (sl_tasks s) \<Longrightarrow> live (sl_tasks s ! i) \<Longrightarrow> 0 < watchers s"
  using length_filter_remove_nth [of i "sl_tasks s" live] by (auto simp: watchers_def)

lemma watchers_task_update:
  "i < length (sl_tasks s) \<Longrightarrow>
   length (filter live ((sl_tasks s)[i := t])) + (if live (sl_tasks s ! i) then 1 else 0)
     = watchers s + (if live t then 1 else 0)"
  by (simp add: watchers_def length_filter_update)

lemma connections_end:
  assumes "n \<le> mc_connections s"
  shows "steps (server_step cr S rt path) s (replicate n ConnectionEnd)
    (s\<lparr>mc_connection_semaphore := (sm_release S ^^ n) (mc_connection_semaphore s),
       mc_connections := mc_connections s - n\<rparr>)"
  using assms
proof (induction n arbitrary: s)
  case (Suc n)
  let ?t = "s\<lparr>mc_connection_semaphore := sm_release S (mc_connection_semaphore s),
    mc_connections := mc_connections s - 1\<rparr>"
  have "server_step cr S rt path s ConnectionEnd ?t"
    using Suc.prems by (intro server_step.conn_end) simp
  moreover have "steps (server_step cr S rt path) ?t (replicate n ConnectionEnd)
      (?t\<lparr>mc_connection_semaphore := (sm_release S ^^ n) (mc_connection_semaphore ?t),
          mc_connections := mc_connections ?t - n\<rparr>)"
    using Suc.prems by (intro Suc.IH) simp
  ultimately show ?case by (auto simp: funpow_swap1)
qed auto

lemma finish_task_abs:
  assumes "i < length (sl_tasks s)" "live (sl_tasks s ! i)"
  shows "server_step cr S rt path (loop_abs s) ConnectionEnd (loop_abs (finish_task S i s))"
proof -
  have "length (filter live ((sl_tasks s)[i := (sl_tasks s ! i)\<lparr>ct_phase := Finished\<rparr>])) = watchers s - 1"
    using watchers_task_update [OF assms(1), of "(sl_tasks s ! i)\<lparr>ct_phase := Finished\<rparr>"] assms(2)
    by (simp add: live_def)
  then have "loop_abs (finish_task S i s) = (loop_abs s)
      \<lparr>mc_connection_semaphore := sm_release S (mc_connection_semaphore (loop_abs s)),
       mc_connections := mc_connections (loop_abs s) - 1\<rparr>"
    by (simp add: loop_abs_def finish_task_def)
  then show ?thesis
    using server_step.conn_end [of "loop_abs s"] live_task_watched [OF assms] by (simp add: loop_abs_def)
qed

lemma serve_request_abs:
  assumes "0 < watchers s"
  shows "server_step cr S rt path (loop_abs s) (Arrive req addr tls ck)
    (loop_abs (serve_request cr S M json rt tls addr req ck s))"
proof (cases "sm_try_acquire S (sl_semaphore s)")
  case None
  then have "loop_abs (serve_request cr S M json rt tls addr req ck s) = loop_abs s"
    by (simp add: serve_request_def loop_abs_def)
  then show ?thesis using server_step.busy [of "loop_abs s"] None assms by (simp add: loop_abs_def)
next
  case (Some k)
  obtain r ps where b: "begin_request cr rt (sl_proxy s) req addr tls ck = (r, ps)" by force
  show ?thesis
  proof (cases r)
    case (Inl e)
    then have "loop_abs (serve_request cr S M json rt tls addr req ck s) =
        (loop_abs s)\<lparr>mc_proxy := ps, mc_semaphore := sm_release S k\<rparr>"
      using Some b by (simp add: serve_request_def loop_abs_def)
    then show ?thesis
      using server_step.refused [of "loop_abs s" S k cr rt req addr tls ck e ps] Some b Inl assms
      by (simp add: loop_abs_def)
  next
    case (Inr fl)
    then have "loop_abs (serve_request cr S M json rt tls addr req ck s) =
        (loop_abs s)\<lparr>mc_proxy := ps, mc_semaphore := k, mc_flights := mc_flights (loop_abs s) @ [fl]\<rparr>"
      using Some b by (simp add: serve_request_def loop_abs_def)
    then show ?thesis
      using server_step.admitted [of "loop_abs s" S k cr rt req addr tls ck fl ps] Some b Inr assms
      by (simp add: loop_abs_def)
  qed
qed

lemma resume_request_abs:
  assumes "j < length (sl_waits s)"
  shows "server_step cr S rt path (loop_abs s) (Finish j out (sl_now s))
    (loop_abs (resume_request cr S M json rt j out s))"
proof -
  obtain r ps where c: "complete_request cr rt (sl_proxy s) (sw_flight (sl_waits s ! j)) out (sl_now s) = (r, ps)"
    by force
  then have "loop_abs (resume_request cr S M json rt j out s) = (loop_abs s)\<lparr>mc_proxy := ps,
      mc_semaphore := sm_release S (mc_semaphore (loop_abs s)), mc_flights := remove_nth j (mc_flights (loop_abs s))\<rparr>"
    by (cases r) (simp_all add: resume_request_def Let_def loop_abs_def map_remove_nth)
  then show ?thesis
    using server_step.finish [of j "loop_abs s" cr rt out "sl_now s" r ps] assms c by (simp add: loop_abs_def)
qed

lemma loop_step_sim:
  assumes "loop_step cr S M json rt tls path s e t"
  shows "steps (server_step cr S rt path) (loop_abs s) (loop_image tls s e) (loop_abs t)"
  using assms
proof cases
  case (tick u)
  then show ?thesis by (simp add: loop_abs_def)
next
  case (incoming k addr)
  have "loop_abs t = (loop_abs s)\<lparr>mc_connection_semaphore := k, mc_connections := Suc (mc_connections (loop_abs s))\<rparr>"
    using incoming by (simp add: loop_abs_def spawn_task_def live_def watchers_def)
  then show ?thesis
    using incoming server_step.accept [of "loop_abs s" S k cr rt path] by (auto simp: loop_abs_def)
next
  case (saturated addr)
  then show ?thesis using server_step.full [of "loop_abs s" S cr rt path] by (auto simp: loop_abs_def)
next
  case incoming_error
  then show ?thesis using server_step.failed [of "loop_abs s" cr S rt path] by (auto simp: loop_abs_def)
next
  case (reap i)
  then show ?thesis
    using length_filter_remove_nth [of i "sl_tasks s" live] by (simp add: loop_abs_def watchers_def)
next
  case signal
  then show ?thesis using server_step.shutdown [of "loop_abs s" cr S rt path] by (auto simp: loop_abs_def)
next
  case (handshake_done i)
  then show ?thesis
    using watchers_task_update [of i s "(sl_tasks s ! i)\<lparr>ct_phase := Serving\<rparr>"]
    by (simp add: loop_abs_def live_def)
next
  case (handshake_failed i)
  then show ?thesis by (auto simp: live_def intro!: steps_single finish_task_abs)
next
  case (connection_done i)
  then show ?thesis by (auto simp: live_def intro!: steps_single finish_task_abs)
next
  case (request i req ck)
  have "0 < watchers s" by (rule live_task_watched [of i]) (simp_all add: request live_def)
  then show ?thesis using request by (auto intro!: steps_single serve_request_abs)
next
  case (upstream_done j out)
  then show ?thesis by (auto intro!: steps_single resume_request_abs)
next
  case (request_dropped j)
  then have "loop_abs t = (loop_abs s)\<lparr>mc_semaphore := sm_release S (mc_semaphore (loop_abs s)),
      mc_flights := remove_nth j (mc_flights (loop_abs s))\<rparr>" by (simp add: loop_abs_def map_remove_nth)
  then show ?thesis using request_dropped server_step.cancel [of j "loop_abs s" cr S rt path] by (auto simp: loop_abs_def)
next
  case (probe_done i net)
  then show ?thesis using server_step.probe [of i "loop_abs s" cr S rt path net "sl_now s"] by (auto simp: loop_abs_def)
next
  case cleanup_tick
  then show ?thesis using server_step.prune [of cr S rt path "loop_abs s" "sl_now s"] by (auto simp: loop_abs_def)
next
  case (drained d)
  then show ?thesis by (simp add: loop_abs_def)
next
  case (deadline d)
  have "loop_abs t = (loop_abs s)\<lparr>mc_connection_semaphore :=
      (sm_release S ^^ watchers s) (mc_connection_semaphore (loop_abs s)),
      mc_connections := mc_connections (loop_abs s) - watchers s\<rparr>"
    using deadline by (simp add: loop_abs_def)
  then show ?thesis using deadline connections_end [of "watchers s" "loop_abs s" cr S rt path] by (simp add: loop_abs_def)
qed

interpretation serve_sim: simulated_machine loop_abs "loop_image tls" "loop_step cr S M json rt tls path"
  "server_step cr S rt path" "\<lambda>s. sem_laws S \<and> config_in_range rt \<and> fresh_machine S rt s"
  "\<lambda>s. sem_laws S \<and> rt_limits_ok rt \<and> machine_inv S rt (map vu_uri (rt_upstreams rt)) s"
  for cr S M json rt tls path
  by unfold_locales (rule loop_step_sim)

lemma serve_request_frame [simp]:
  "sl_now (serve_request cr S M json rt tls addr req ck s) = sl_now s"
  "sl_phase (serve_request cr S M json rt tls addr req ck s) = sl_phase s"
  "sl_tasks (serve_request cr S M json rt tls addr req ck s) = sl_tasks s"
  "sl_connection_semaphore (serve_request cr S M json rt tls addr req ck s) = sl_connection_semaphore s"
  by (auto simp: serve_request_def split: option.splits sum.splits prod.splits)

lemma resume_request_frame [simp]:
  "sl_now (resume_request cr S M json rt j out s) = sl_now s"
  "sl_phase (resume_request cr S M json rt j out s) = sl_phase s"
  "sl_tasks (resume_request cr S M json rt j out s) = sl_tasks s"
  "sl_connection_semaphore (resume_request cr S M json rt j out s) = sl_connection_semaphore s"
  by (auto simp: resume_request_def Let_def split: option.splits sum.splits prod.splits)

section \<open>Started servers\<close>

text \<open>The state in which \<open>serve\<close> enters its loop at the instant \<open>now\<close>.\<close>

definition loop_start ::
  "('uri, 'rx, 'lim, 's, 'm, 'srv) started \<Rightarrow> instant \<Rightarrow> ('hm, 'uri, 'c, 'lim, 's, 'm) loop_state" where
  "loop_start su now =
     \<lparr>sl_now = now, sl_phase = Accepting, sl_tasks = [], sl_waits = [],
      sl_proxy = sv_proxy (su_state su), sl_semaphore = sv_semaphore (su_state su),
      sl_connection_semaphore = sv_connection_semaphore (su_state su),
      sl_metrics = sv_metrics (su_state su), sl_answers = []\<rparr>"

abbreviation serve_step ::
  "('hm, 'hv, 'uri, 'rx, 'lim, 'neg, 'b) crates \<Rightarrow> 's sem_api \<Rightarrow> 'm prom_api
     \<Rightarrow> ((string \<times> string) list \<Rightarrow> string) \<Rightarrow> ('uri, 'rx, 'lim, 's, 'm, 'srv) started \<Rightarrow> string
     \<Rightarrow> ('hm, 'uri, 'c, 'lim, 's, 'm) loop_state \<Rightarrow> ('hm, 'uri, 'c, 'b) loop_event
     \<Rightarrow> ('hm, 'uri, 'c, 'lim, 's, 'm) loop_state \<Rightarrow> bool" where
  "serve_step cr S M json su \<equiv> loop_step cr S M json (su_config su) (su_tls_acceptor su \<noteq> None)"

lemma loop_start_abs: "loop_abs (loop_start su now) = serve_start su"
  by (simp add: loop_abs_def loop_start_def serve_start_def watchers_def)

lemma started_loop_inv:
  fixes s :: "('hm, 'uri, 'c, 'lim, 's, 'm) loop_state"
  assumes "sem_laws S" and "startup cr S M T read toml bind clk path = Inr su"
    and "length (rt_upstreams (su_config su)) < 2 ^ 31"
    and "steps (serve_step cr S M json su hpath) (loop_start su now) es s"
  shows "sm_available S (sl_connection_semaphore s) + watchers s = unat (rt_max_connections (su_config su))"
    and "sm_available S (sl_semaphore s) + length (sl_waits s) = unat (rt_max_concurrent_requests (su_config su))"
    and "rt_limits_ok (su_config su)"
proof -
  obtain fs where "steps (server_step cr S (su_config su) hpath) (serve_start su) fs (loop_abs s)"
    using serve_sim.run_sim [OF assms(4)] by (auto simp: loop_start_abs)
  from started_run_inv [OF assms(1-3) this]
  show "sm_available S (sl_connection_semaphore s) + watchers s = unat (rt_max_connections (su_config su))"
    "sm_available S (sl_semaphore s) + length (sl_waits s) = unat (rt_max_concurrent_requests (su_config su))"
    "rt_limits_ok (su_config su)"
    by (simp_all add: machine_inv_def loop_abs_def)
qed

text \<open>
  C3. \<open>serve\<close> refines the server machine: every run of the detailed loop of a started server, with
  its tasks, handshakes, metrics, clock and drain, is matched by a run of the coarse machine to
  the abstraction of the same state; so connection permits are exactly those of the live
  connection tasks, and request permits exactly those of the requests waiting for an upstream.
\<close>

theorem serve_refines_machine:
  fixes s :: "('hm, 'uri, 'c, 'lim, 's, 'm) loop_state"
  assumes "sem_laws S" and "startup cr S M T read toml bind clk path = Inr su"
    and "length (rt_upstreams (su_config su)) < 2 ^ 31"
    and "steps (serve_step cr S M json su hpath) (loop_start su now) es s"
  shows "(\<exists>fs. steps (server_step cr S (su_config su) hpath) (serve_start su) fs (loop_abs s))
    \<and> sm_available S (sl_connection_semaphore s) + watchers s = unat (rt_max_connections (su_config su))
    \<and> sm_available S (sl_semaphore s) + length (sl_waits s)
        = unat (rt_max_concurrent_requests (su_config su))"
  using serve_sim.run_sim [OF assms(4)] started_loop_inv [OF assms] by (simp add: loop_start_abs)

section \<open>Concrete runs\<close>

type_synonym sample_loop = "((string \<times> string) list, ref_uri, string list, gcra, nat, ref_registry) loop_state"

abbreviation sample_serve ::
  "(ref_uri, string, gcra, nat, ref_registry, string) started \<Rightarrow> sample_loop
     \<Rightarrow> ((string \<times> string) list, ref_uri, string list, string list) loop_event \<Rightarrow> sample_loop \<Rightarrow> bool" where
  "sample_serve su \<equiv> serve_step sample_crates ref_sem ref_prom sample_json su ''/health''"

abbreviation one_open :: "(ref_uri, string, gcra, nat, ref_registry, string) started \<Rightarrow> sample_loop" where
  "one_open su \<equiv> (loop_start su 0)\<lparr>sl_connection_semaphore := 9999,
     sl_tasks := [spawn_task (su_tls_acceptor su \<noteq> None) sample_addr]\<rparr>"

lemma sample_incoming:
  "sv_connection_semaphore (su_state su) = 10000 \<Longrightarrow>
   sample_serve su (loop_start su 0) (Incoming sample_addr) (one_open su)"
  using loop_step.incoming [of "loop_start su 0 :: sample_loop" ref_sem 9999 sample_crates ref_prom sample_json
      "su_config su" "su_tls_acceptor su \<noteq> None" "''/health''" sample_addr]
  by (simp add: loop_start_def ref_sem_def)

lemma sample_incoming_run:
  "sv_connection_semaphore (su_state su) = 10000 \<Longrightarrow>
   steps (sample_serve su) (loop_start su 0) [Incoming sample_addr] (one_open su)"
  by (rule steps_single) (rule sample_incoming)

theorem serve_refines_machine_witness:
  "\<exists>su s. sample_startup sample_config (\<lambda>_. True) = Inr su
    \<and> steps (sample_serve su) (loop_start su 0) [Incoming sample_addr] s
    \<and> watchers s = 1 \<and> sm_available ref_sem (sl_connection_semaphore s) + 1
        = unat (rt_max_connections (su_config su))"
proof (rule sample_started, goal_cases)
  case (1 su fl ps fl' ps')
  have st: "steps (sample_serve su) (loop_start su 0) [Incoming sample_addr] (one_open su)"
    by (rule sample_incoming_run [OF 1(3)])
  have "watchers (one_open su) = 1" by (simp add: spawn_task_def live_def)
  with serve_refines_machine [OF ref_semaphore.sem_laws_axioms 1(1,2) st] st 1(1) show ?case by metis
qed

end
