(* ===== verification/Serve_Drain.thy ===== *)
theory Serve_Drain
  imports Serve_Loop
begin

text \<open>
  Connections in time: what \<open>serve\<close> does with the open connections on shutdown, and what a
  client that never finishes its TLS handshake does to it.
\<close>

section \<open>Shutdown\<close>

text \<open>What a draining or returned loop keeps: its deadline, and no connection once returned.\<close>

definition drain_inv :: "instant \<Rightarrow> ('hm, 'uri, 'c, 'lim, 's, 'm) loop_state \<Rightarrow> bool" where
  "drain_inv d s \<longleftrightarrow> sl_phase s = Draining d \<or> (sl_phase s = Returned \<and> sl_tasks s = [])"

lemma drain_step:
  assumes "loop_step cr S M json rt tls path s e t" "drain_inv d s"
  shows "drain_inv d t \<and> sl_now s \<le> sl_now t \<and> (\<forall>addr. e \<noteq> Incoming addr)
    \<and> (e = Deadline \<longrightarrow> d \<le> sl_now t)"
  using assms by cases (auto simp: drain_inv_def finish_task_def)

lemma drain_run:
  assumes "steps (loop_step cr S M json rt tls path) s es t" "drain_inv d s"
  shows "drain_inv d t \<and> sl_now s \<le> sl_now t \<and> (\<forall>addr. Incoming addr \<notin> set es)
    \<and> (Deadline \<in> set es \<longrightarrow> d \<le> sl_now t)"
  using assms
proof (induction rule: steps.induct)
  case (steps_Cons s e t es u)
  note step = drain_step [OF steps_Cons(1) steps_Cons.prems]
  with steps_Cons.IH have "drain_inv d u \<and> sl_now t \<le> sl_now u \<and> (\<forall>addr. Incoming addr \<notin> set es)
    \<and> (Deadline \<in> set es \<longrightarrow> d \<le> sl_now u)" by blast
  with step show ?case by auto
qed simp



section \<open>Stalled handshakes\<close>

text \<open>The events by which a connection in its handshake moves on: the client's handshake, or the
  abort after the shutdown deadline. The passing of time is not among them.\<close>

definition handshake_progress :: "('hm, 'uri, 'c, 'b) loop_event \<Rightarrow> bool" where
  "handshake_progress e = (case e of
     HandshakeDone _ \<Rightarrow> True | HandshakeFailed _ \<Rightarrow> True | Deadline \<Rightarrow> True | _ \<Rightarrow> False)"

definition all_stalled :: "'s sem_api \<Rightarrow> conn_task list \<Rightarrow> ('hm, 'uri, 'c, 'lim, 's, 'm) loop_state \<Rightarrow> bool" where
  "all_stalled S ts s \<longleftrightarrow> sl_tasks s = ts \<and> ts \<noteq> [] \<and> (\<forall>t\<in>set ts. ct_phase t = Handshaking)
     \<and> sm_try_acquire S (sl_connection_semaphore s) = None"

lemma stalled_step:
  assumes "loop_step cr S M json rt tls path s e t" "all_stalled S ts s" "\<not> handshake_progress e"
  shows "all_stalled S ts t"
proof -
  have stuck: "ct_phase (sl_tasks s ! i) = Handshaking" if "i < length (sl_tasks s)" for i
    using assms(2) that by (simp add: all_stalled_def)
  have "watchers s \<noteq> 0"
    using assms(2) stuck [of 0] live_task_watched [of 0 s] by (simp add: all_stalled_def live_def)
  with assms stuck show ?thesis
    by cases (auto simp: all_stalled_def handshake_progress_def live_def)
qed

lemma stalled_run:
  assumes "steps (loop_step cr S M json rt tls path) s es t" "all_stalled S ts s" "\<not> list_ex handshake_progress es"
  shows "all_stalled S ts t"
  using assms
proof (induction rule: steps.induct)
  case (steps_Cons s e t es u)
  have "all_stalled S ts t"
    using stalled_step [OF steps_Cons(1) steps_Cons.prems(1)] steps_Cons.prems(2) by simp
  with steps_Cons.IH steps_Cons.prems(2) show ?case by simp
qed simp

lemma incoming_run:
  assumes "sem_laws S" "sl_phase s = Accepting" "sm_available S (sl_connection_semaphore s) = length addrs"
  shows "\<exists>t. steps (loop_step cr S M json rt tls path) s (map Incoming addrs) t
    \<and> sl_tasks t = sl_tasks s @ map (spawn_task tls) addrs \<and> sl_phase t = Accepting
    \<and> sm_available S (sl_connection_semaphore t) = 0"
  using assms(2,3)
proof (induction addrs arbitrary: s)
  case (Cons a addrs)
  have "sm_try_acquire S (sl_connection_semaphore s) \<noteq> None"
    using sem_laws.acquire_None [OF assms(1)] Cons.prems(2) by simp
  then obtain k where k: "sm_try_acquire S (sl_connection_semaphore s) = Some k" by blast
  let ?u = "s\<lparr>sl_connection_semaphore := k, sl_tasks := sl_tasks s @ [spawn_task tls a]\<rparr>"
  have "loop_step cr S M json rt tls path s (Incoming a) ?u" by (rule loop_step.incoming [OF Cons.prems(1) k])
  moreover have "\<exists>t. steps (loop_step cr S M json rt tls path) ?u (map Incoming addrs) t
    \<and> sl_tasks t = sl_tasks ?u @ map (spawn_task tls) addrs \<and> sl_phase t = Accepting
    \<and> sm_available S (sl_connection_semaphore t) = 0"
    using Cons.prems sem_laws.acquire_Some [OF assms(1) k] by (intro Cons.IH) simp_all
  ultimately show ?case by (simp add: steps_Cons_iff) blast
qed simp


text \<open>A server with client TLS and room for one connection.\<close>

definition tls_sample_config :: config where
  "tls_sample_config = sample_config\<lparr>cfg_max_connections := Some 1,
     cfg_tls := Some \<lparr>tls_cert_path = ''cert.pem'', tls_key_path = ''key.pem''\<rparr>\<rparr>"

lemma tls_sample_starts:
  "case sample_startup tls_sample_config (\<lambda>_. True) of Inl _ \<Rightarrow> False
   | Inr su \<Rightarrow> length (rt_upstreams (su_config su)) = 2 \<and> su_tls_acceptor su \<noteq> None
       \<and> unat (rt_max_connections (su_config su)) = 1"
  by code_simp


end
