(* ===== verification/Serve_Metrics.thy ===== *)
theory Serve_Metrics
  imports Serve_Loop
begin

text \<open>
  The metrics of \<open>serve\<close> against the answers it gave, over every run. Scrapes of the admin
  listener only set gauges and are not steps of this machine.
\<close>

section \<open>Counters and answers\<close>

text \<open>
  The registry \<open>m\<close> after the answers \<open>as\<close>, from the registry \<open>m0\<close>: the counter of each status
  has grown by the answers with that status, the latency histogram by their number, and the
  rate-limit counter by the answers to rate-limited requests.
\<close>

definition counts ::
  "('m \<Rightarrow> string \<Rightarrow> string option \<Rightarrow> int) \<Rightarrow> ('m \<Rightarrow> string \<Rightarrow> nat) \<Rightarrow> 'm
     \<Rightarrow> (proxy_error option \<times> u16) list \<Rightarrow> 'm \<Rightarrow> bool" where
  "counts val obs m0 as m \<longleftrightarrow>
     (\<forall>l. val m ''requests'' (Some l) = val m0 ''requests'' (Some l)
        + int (length (filter (\<lambda>(_, st). status_label st = l) as)))
   \<and> obs m ''request_duration_seconds'' = obs m0 ''request_duration_seconds'' + length as
   \<and> val m ''rate_limited_requests'' None = val m0 ''rate_limited_requests'' None
        + int (length (filter (\<lambda>(e, _). \<exists>ms. e = Some (RateLimited ms)) as))"

definition metrics_match ::
  "('m \<Rightarrow> string \<Rightarrow> string option \<Rightarrow> int) \<Rightarrow> ('m \<Rightarrow> string \<Rightarrow> nat) \<Rightarrow> 'm
     \<Rightarrow> ('hm, 'uri, 'c, 'lim, 's, 'm) loop_state \<Rightarrow> bool" where
  "metrics_match val obs m0 s \<longleftrightarrow> (\<exists>m. sl_metrics s = Some m \<and> counts val obs m0 (sl_answers s) m)"

lemma answer_counted:
  assumes "prom_laws M val obs" "metrics_match val obs m0 s"
  shows "metrics_match val obs m0 (answer M err (Some r) t s)"
proof -
  obtain m where m: "sl_metrics s = Some m" "counts val obs m0 (sl_answers s) m"
    using assms(2) by (auto simp: metrics_match_def)
  obtain m1 where m1: "(case err of None \<Rightarrow> Some m | Some e \<Rightarrow> note_error M (Some m) e) = Some m1"
    "\<And>s l. val m1 s l = val m s l + (if s = ''rate_limited_requests'' \<and> l = None \<and> (\<exists>ms. err = Some (RateLimited ms)) then 1 else 0)"
    "\<And>s. obs m1 s = obs m s"
  proof (cases err)
    case None
    then show ?thesis by (intro that [of m]) simp_all
  next
    case (Some e)
    obtain m1 where "note_error M (Some m) e = Some m1"
      "\<And>s l. val m1 s l = val m s l + (if s = ''rate_limited_requests'' \<and> l = None \<and> (\<exists>ms. e = RateLimited ms) then 1 else 0)"
      "\<And>s. obs m1 s = obs m s"
      using note_error_counts [OF assms(1), of m e] by metis
    then show ?thesis using Some by (intro that [of m1]) simp_all
  qed
  have "counts val obs m0 (sl_answers s @ [(err, rs_status r)])
      (record_response M m1 (rs_status r) (elapsed (sl_now s) t))"
    using m(2) unfolding counts_def
    by (auto simp: prom_laws.val_record_response [OF assms(1)] prom_laws.obs_record_response [OF assms(1)] m1(2,3))
  then show ?thesis
    using m(1) m1(1) by (auto simp: metrics_match_def answer_def note_response_def Let_def split: option.splits)
qed

lemma metrics_match_update:
  "metrics_match val obs m0 (s\<lparr>sl_proxy := ps, sl_semaphore := k\<rparr>) = metrics_match val obs m0 s"
  "metrics_match val obs m0 (s\<lparr>sl_proxy := ps, sl_semaphore := k, sl_waits := ws\<rparr>) = metrics_match val obs m0 s"
  by (simp_all add: metrics_match_def)

text \<open>The requests that arrived and those whose future was dropped, in a sequence of events; and
  that every other request has been answered or is waiting.\<close>

definition is_request :: "('hm, 'uri, 'c, 'b) loop_event \<Rightarrow> bool" where
  "is_request e = (case e of Request _ _ _ \<Rightarrow> True | _ \<Rightarrow> False)"

definition is_drop :: "('hm, 'uri, 'c, 'b) loop_event \<Rightarrow> bool" where
  "is_drop e = (case e of RequestDropped _ \<Rightarrow> True | _ \<Rightarrow> False)"

lemma length_answers_answer [simp]:
  "length (sl_answers (answer M err (Some r) t s)) = Suc (length (sl_answers s))"
  by (simp add: answer_def Let_def)

lemma error_responses:
  assumes "header_laws A"
  shows "\<exists>f. \<forall>e. error_response A json e = Some (f e)"
  by (rule choice) (use error_response_Some [OF assms] in metis)

lemma serve_request_counted:
  fixes cr :: "('hm, 'hv, 'uri, 'rx, 'lim, 'neg, 'b) crates"
  assumes "header_laws (cr_http cr)" "prom_laws M val obs"
  shows "metrics_match val obs m0 s \<Longrightarrow> metrics_match val obs m0 (serve_request cr S M json rt tls addr req ck s)"
    and "length (sl_answers (serve_request cr S M json rt tls addr req ck s))
        + length (sl_waits (serve_request cr S M json rt tls addr req ck s))
      = Suc (length (sl_answers s) + length (sl_waits s))"
proof -
  obtain f where "\<And>e. error_response (cr_http cr) json e = Some (f e :: ('hm, 'b box_body) response)"
    using error_responses [OF assms(1), of json] by blast
  then show "metrics_match val obs m0 s \<Longrightarrow>
      metrics_match val obs m0 (serve_request cr S M json rt tls addr req ck s)"
    "length (sl_answers (serve_request cr S M json rt tls addr req ck s))
        + length (sl_waits (serve_request cr S M json rt tls addr req ck s))
      = Suc (length (sl_answers s) + length (sl_waits s))"
    by (auto simp: serve_request_def metrics_match_update intro: answer_counted [OF assms(2)]
        split: option.splits prod.splits sum.splits)
qed

lemma resume_request_counted:
  fixes cr :: "('hm, 'hv, 'uri, 'rx, 'lim, 'neg, 'b) crates"
  assumes "header_laws (cr_http cr)" "prom_laws M val obs" "j < length (sl_waits s)"
  shows "metrics_match val obs m0 s \<Longrightarrow> metrics_match val obs m0 (resume_request cr S M json rt j out s)"
    and "length (sl_answers (resume_request cr S M json rt j out s))
        + length (sl_waits (resume_request cr S M json rt j out s)) = length (sl_answers s) + length (sl_waits s)"
proof -
  obtain f where "\<And>e. error_response (cr_http cr) json e = Some (f e :: ('hm, 'b box_body) response)"
    using error_responses [OF assms(1), of json] by blast
  then show "metrics_match val obs m0 s \<Longrightarrow> metrics_match val obs m0 (resume_request cr S M json rt j out s)"
    "length (sl_answers (resume_request cr S M json rt j out s))
        + length (sl_waits (resume_request cr S M json rt j out s)) = length (sl_answers s) + length (sl_waits s)"
    using length_remove_nth [OF assms(3)]
    by (auto simp: resume_request_def Let_def metrics_match_update intro: answer_counted [OF assms(2)]
        split: prod.splits sum.splits)
qed

lemma counted_step:
  assumes "loop_step cr S M json rt tls path s e t" "header_laws (cr_http cr)" "prom_laws M val obs"
    and "metrics_match val obs m0 s"
  shows "metrics_match val obs m0 t
    \<and> length (sl_answers t) + length (sl_waits t) + (if is_drop e then 1 else 0)
      = length (sl_answers s) + length (sl_waits s) + (if is_request e then 1 else 0)"
  using assms(1)
proof cases
  case (request i req ck)
  then show ?thesis
    using serve_request_counted(1) [OF assms(2-4)] serve_request_counted(2) [OF assms(2,3)]
    by (simp add: is_request_def is_drop_def)
next
  case (upstream_done j out)
  then show ?thesis
    using resume_request_counted(1) [OF assms(2,3) upstream_done(3) assms(4)]
      resume_request_counted(2) [OF assms(2,3) upstream_done(3)]
    by (simp add: is_request_def is_drop_def)
next
  case (request_dropped j)
  then show ?thesis
    using assms(4) length_remove_nth [of j "sl_waits s"]
    by (simp add: is_request_def is_drop_def metrics_match_def)
qed (use assms(4) in \<open>auto simp: is_request_def is_drop_def metrics_match_def finish_task_def\<close>)

lemma counted_run:
  assumes "steps (loop_step cr S M json rt tls path) s es t" "header_laws (cr_http cr)" "prom_laws M val obs"
    and "metrics_match val obs m0 s"
  shows "metrics_match val obs m0 t
    \<and> length (sl_answers t) + length (sl_waits t) + length (filter is_drop es)
      = length (sl_answers s) + length (sl_waits s) + length (filter is_request es)"
  using assms(1,4)
proof (induction rule: steps.induct)
  case (steps_Cons s e t es u)
  note step = counted_step [OF steps_Cons(1) assms(2,3) steps_Cons.prems]
  with steps_Cons.IH show ?case by auto
qed simp

text \<open>
  C5. The metrics tell the truth: on a started server with an admin listener, after every run,
  the counter of each status code has grown by exactly the number of answers with that code,
  the latency histogram by the number of answers, and the rate-limit counter by the number of
  requests the limiter refused; and every request that arrived has been answered, is waiting
  for its upstream, or was dropped with its connection.
\<close>

theorem metrics_match_answers:
  fixes s :: "('hm, 'uri, 'c, 'lim, 's, 'm) loop_state"
  assumes "header_laws (cr_http cr)" and "prom_laws M val obs"
    and "startup cr S M T read toml bind clk path = Inr su"
    and "rt_admin_listen (su_config su) \<noteq> None"
    and "steps (serve_step cr S M json su hpath) (loop_start su now) es s"
  shows "(\<exists>m. sl_metrics s = Some m \<and> counts val obs (metrics_new M) (sl_answers s) m)
    \<and> length (filter is_request es) = length (sl_answers s) + length (sl_waits s) + length (filter is_drop es)"
proof -
  have "sv_metrics (su_state su) = Some (metrics_new M)"
    using assms(3,4) by (cases rule: startup_InrE) auto
  then have "metrics_match val obs (metrics_new M) (loop_start su now :: ('hm, 'uri, 'c, 'lim, 's, 'm) loop_state)"
    by (simp add: metrics_match_def loop_start_def counts_def)
  from counted_run [OF assms(5,1,2) this] show ?thesis
    by (simp add: metrics_match_def loop_start_def)
qed

lemma sample_has_admin:
  "case sample_startup sample_config (\<lambda>_. True) of Inl _ \<Rightarrow> False
   | Inr su \<Rightarrow> su_tls_acceptor su = None \<and> rt_admin_listen (su_config su) \<noteq> None"
  by code_simp

theorem metrics_match_answers_witness:
  "\<exists>su s m. sample_startup sample_config (\<lambda>_. True) = Inr su
    \<and> steps (sample_serve su) (loop_start su 0) [Incoming sample_addr,
        Request 0 (sample_request [] ''/a'') sample_clock, UpstreamDone 0 Elapsed] s
    \<and> sl_metrics s = Some m \<and> counts ref_val ref_obs (metrics_new ref_prom) (sl_answers s) m
    \<and> length (sl_answers s) = 1"
proof (rule sample_started, goal_cases)
  case (1 su fl ps fl' ps')
  let ?req = "Request 0 (sample_request [] ''/a'') sample_clock"
  let ?s1 = "(one_open su)\<lparr>sl_proxy := ps, sl_semaphore := 999,
    sl_waits := [\<lparr>sw_started = 0, sw_flight = fl\<rparr>]\<rparr>"
  let ?s2 = "resume_request sample_crates ref_sem ref_prom sample_json (su_config su) 0 Elapsed ?s1"
  have tls: "su_tls_acceptor su = None" and adm: "rt_admin_listen (su_config su) \<noteq> None"
    using sample_has_admin 1(1) by simp_all
  let ?served = "serve_request sample_crates ref_sem ref_prom sample_json (su_config su) (su_tls_acceptor su \<noteq> None)
      (ct_addr (sl_tasks (one_open su) ! 0)) (sample_request [] ''/a'') sample_clock (one_open su)"
  have served: "?served = ?s1"
    using 1(4,5) tls by (simp add: serve_request_def loop_start_def ref_sem_def spawn_task_def)
  have "sample_serve su (one_open su) ?req ?served"
    by (rule loop_step.request) (simp_all add: spawn_task_def tls)
  then have "sample_serve su (one_open su) ?req ?s1" unfolding served .
  moreover have "sample_serve su ?s1 (UpstreamDone 0 Elapsed) ?s2" by (rule loop_step.upstream_done) simp
  ultimately have st: "steps (sample_serve su) (loop_start su 0) [Incoming sample_addr, ?req, UpstreamDone 0 Elapsed] ?s2"
    using sample_incoming [OF 1(3)] by (meson steps.intros)
  have "sl_waits ?s2 = []"
    by (auto simp: resume_request_def Let_def remove_nth_def split: prod.splits sum.splits)
  with metrics_match_answers [OF _ ref_metrics.prom_laws_axioms 1(1) adm st] st 1(1) ref_http.header_laws_axioms
  show ?case by (auto simp: is_request_def is_drop_def)
qed

end
