(* ===== verification/Balancer_Fairness.thy ===== *)
theory Balancer_Fairness
  imports Balancer
begin

text \<open>
  Proportional fairness of smooth weighted round-robin. The locale \<open>fair_selector\<close> states
  what the argument needs of a selection rule (it picks a backend of greatest current plus
  configured weight); the balancer's own scan is an interpretation of it, and the counting
  theorems about \<open>LoadBalancer::next\<close> are its facts.
\<close>

section \<open>The abstract rule\<close>

definition weights_ok :: "int list \<Rightarrow> bool" where
  "weights_ok w \<longleftrightarrow> w \<noteq> [] \<and> (\<forall>x\<in>set w. 0 < x) \<and> int (length w) * sum_list w < 2 ^ 63"

definition above :: "int list \<Rightarrow> int list \<Rightarrow> bool" where
  "above w c \<longleftrightarrow> length c = length w \<and> (\<forall>i<length w. - sum_list w < c ! i)"

definition swrr_advance :: "(int list \<Rightarrow> int list \<Rightarrow> nat) \<Rightarrow> int list \<Rightarrow> int list \<Rightarrow> int list" where
  "swrr_advance pick w c =
     (map2 (+) c w)[pick w c := c ! pick w c + w ! pick w c - sum_list w]"

fun swrr_run :: "(int list \<Rightarrow> int list \<Rightarrow> nat) \<Rightarrow> int list \<Rightarrow> nat \<Rightarrow> int list \<Rightarrow> nat list \<times> int list" where
  "swrr_run pick w 0 c = ([], c)"
| "swrr_run pick w (Suc k) c =
     (case swrr_run pick w k (swrr_advance pick w c) of (ps, c') \<Rightarrow> (pick w c # ps, c'))"

lemma fst_swrr_run_Suc [simp]:
  "fst (swrr_run pick w (Suc k) c) = pick w c # fst (swrr_run pick w k (swrr_advance pick w c))"
  by (simp split: prod.splits)

lemma snd_swrr_run_Suc [simp]:
  "snd (swrr_run pick w (Suc k) c) = snd (swrr_run pick w k (swrr_advance pick w c))"
  by (simp split: prod.splits)

declare swrr_run.simps(2) [simp del]

lemma sum_list_pos: "w \<noteq> [] \<Longrightarrow> \<forall>x\<in>set w. 0 < x \<Longrightarrow> 0 < sum_list w" for w :: "int list"
  by (induction w rule: list_nonempty_induct) (auto simp: add_pos_pos)

lemma weights_ok_sum:
  assumes "weights_ok w"
  shows "0 < sum_list w" and "sum_list w < 2 ^ 63"
proof -
  show W: "0 < sum_list w" using assms sum_list_pos by (simp add: weights_ok_def)
  have "0 < length w" using assms by (simp add: weights_ok_def)
  with W have "1 * sum_list w \<le> int (length w) * sum_list w"
    by (intro mult_right_mono) (simp_all add: Suc_le_eq)
  then show "sum_list w < 2 ^ 63" using assms by (simp add: weights_ok_def)
qed

lemma sum_list_map2_add: "length c = length w \<Longrightarrow> sum_list (map2 (+) c w) = sum_list c + sum_list w"
  for c w :: "int list"
  by (induction c w rule: list_induct2) simp_all

lemma sum_count_lt:
  fixes xs :: "nat list"
  assumes "\<forall>i\<in>set xs. i < n"
  shows "(\<Sum>i<n. count_list xs i) = length xs"
  using assms by (intro sum_count_set) auto

lemma exists_max_pos:
  fixes xs :: "int list"
  assumes "0 < sum_list xs" "\<forall>x\<in>set xs. x \<le> m"
  shows "0 < m"
proof (rule ccontr)
  assume "\<not> 0 < m"
  then have "\<forall>x\<in>set xs. x \<le> 0" using assms(2) by force
  then have "sum_list xs \<le> 0" by (induction xs) auto
  with assms(1) show False by simp
qed

locale fair_selector =
  fixes pick :: "int list \<Rightarrow> int list \<Rightarrow> nat"
  assumes pick_range: "weights_ok w \<Longrightarrow> above w c \<Longrightarrow> pick w c < length w"
    and pick_max: "weights_ok w \<Longrightarrow> above w c \<Longrightarrow> i < length w \<Longrightarrow>
      c ! i + w ! i \<le> c ! pick w c + w ! pick w c"
begin

definition balanced :: "int list \<Rightarrow> int list \<Rightarrow> bool" where
  "balanced w c \<longleftrightarrow> above w c \<and> sum_list c = 0"

lemma balanced_zero: "weights_ok w \<Longrightarrow> balanced w (replicate (length w) 0)"
  using sum_list_pos [of w] by (auto simp: balanced_def above_def weights_ok_def sum_list_replicate)

lemma balanced_advance:
  assumes "weights_ok w" "balanced w c"
  shows "balanced w (swrr_advance pick w c)"
proof -
  have ab: "above w c" and len: "length c = length w" and sum0: "sum_list c = 0"
    using assms(2) by (simp_all add: balanced_def above_def)
  have W: "0 < sum_list w" using assms(1) sum_list_pos by (simp add: weights_ok_def)
  let ?p = "pick w c"
  have p: "?p < length w" by (rule pick_range [OF assms(1) ab])
  have max: "0 < c ! ?p + w ! ?p"
  proof (rule exists_max_pos)
    show "0 < sum_list (map2 (+) c w)" using len sum0 W by (simp add: sum_list_map2_add)
    show "\<forall>x\<in>set (map2 (+) c w). x \<le> c ! ?p + w ! ?p"
      using pick_max [OF assms(1) ab] len by (auto simp: set_zip)
  qed
  have wpos: "0 < w ! i" if "i < length w" for i
    using assms(1) that by (simp add: weights_ok_def)
  have "- sum_list w < swrr_advance pick w c ! i" if "i < length w" for i
  proof (cases "i = ?p")
    case False
    have "- sum_list w < c ! i" using ab that by (simp add: above_def)
    with wpos [OF that] False that len show ?thesis by (simp add: swrr_advance_def)
  qed (use max p len in \<open>simp add: swrr_advance_def\<close>)
  moreover have "sum_list (swrr_advance pick w c) = 0"
    using p len sum0 by (simp add: swrr_advance_def sum_list_update sum_list_map2_add)
  ultimately show ?thesis using len by (simp add: balanced_def above_def swrr_advance_def)
qed

lemma swrr_run_state:
  assumes "weights_ok w" "balanced w c"
  shows "balanced w (snd (swrr_run pick w k c))
    \<and> length (fst (swrr_run pick w k c)) = k
    \<and> (\<forall>i\<in>set (fst (swrr_run pick w k c)). i < length w)
    \<and> (\<forall>i<length w. snd (swrr_run pick w k c) ! i
         = c ! i + int k * w ! i - sum_list w * int (count_list (fst (swrr_run pick w k c)) i))"
  using assms(2)
proof (induction k arbitrary: c)
  case (Suc k)
  have len: "length c = length w" using Suc.prems by (simp add: balanced_def above_def)
  have p: "pick w c < length w"
    using pick_range [OF assms(1)] Suc.prems by (simp add: balanced_def)
  have nth: "swrr_advance pick w c ! i = c ! i + w ! i - (if i = pick w c then sum_list w else 0)"
    if "i < length w" for i
    using that len p by (simp add: swrr_advance_def)
  show ?case
    using Suc.IH [OF balanced_advance [OF assms(1) Suc.prems]] p nth
    by (auto simp: algebra_simps)
qed simp

lemma upper_quota:
  assumes "weights_ok w" "i < length w"
  shows "sum_list w * int (count_list (fst (swrr_run pick w k (replicate (length w) 0))) i)
       < int k * w ! i + sum_list w"
proof -
  let ?r = "swrr_run pick w k (replicate (length w) 0)"
  note st = swrr_run_state [OF assms(1) balanced_zero [OF assms(1)], of k]
  have "- sum_list w < snd ?r ! i" using st assms(2) unfolding balanced_def above_def by blast
  moreover have "snd ?r ! i = int k * w ! i - sum_list w * int (count_list (fst ?r) i)"
    using st assms(2) by simp
  ultimately show ?thesis by simp
qed

lemma exact_shares:
  assumes "weights_ok w" "i < length w"
  shows "int (count_list (fst (swrr_run pick w (m * nat (sum_list w)) (replicate (length w) 0))) i)
       = int m * w ! i"
proof -
  let ?W = "sum_list w" and ?k = "m * nat (sum_list w)"
  let ?xs = "fst (swrr_run pick w ?k (replicate (length w) 0))"
  have W: "0 < ?W" using assms(1) sum_list_pos by (simp add: weights_ok_def)
  have le: "int (count_list ?xs j) \<le> int m * w ! j" if "j < length w" for j
  proof -
    have "?W * int (count_list ?xs j) < ?W * (int m * w ! j + 1)"
      using upper_quota [OF assms(1) that, of ?k] W by (simp add: algebra_simps)
    with W show ?thesis by (simp add: mult_less_cancel_left_pos)
  qed
  have "(\<Sum>j<length w. count_list ?xs j) = ?k"
    using swrr_run_state [OF assms(1) balanced_zero [OF assms(1)], of ?k]
    by (simp add: sum_count_lt)
  then have "(\<Sum>j<length w. int (count_list ?xs j)) = int m * ?W"
    using W by (simp flip: of_nat_sum)
  also have "\<dots> = (\<Sum>j<length w. int m * w ! j)"
    by (simp add: sum_list_map_upt flip: sum_distrib_left)
  finally have "(\<Sum>j<length w. int (count_list ?xs j)) = (\<Sum>j<length w. int m * w ! j)" .
  from sum_mono_inv [OF this] le assms(2) show ?thesis by blast
qed

lemma run_returns:
  assumes "weights_ok w"
  shows "snd (swrr_run pick w (m * nat (sum_list w)) (replicate (length w) 0)) = replicate (length w) 0"
proof (rule nth_equalityI)
  let ?r = "swrr_run pick w (m * nat (sum_list w)) (replicate (length w) 0)"
  note st = swrr_run_state [OF assms balanced_zero [OF assms], of "m * nat (sum_list w)"]
  show "length (snd ?r) = length (replicate (length w) 0)"
    using st by (simp add: balanced_def above_def)
  have W: "0 < sum_list w" using assms sum_list_pos by (simp add: weights_ok_def)
  fix i assume "i < length (snd ?r)"
  then have i: "i < length w" using st by (simp add: balanced_def above_def)
  have "snd ?r ! i = int (m * nat (sum_list w)) * w ! i - sum_list w * (int m * w ! i)"
    using st i exact_shares [OF assms i, of m] by simp
  with W i show "snd ?r ! i = replicate (length w) 0 ! i" by simp
qed

lemma balanced_upper:
  assumes "weights_ok w" "balanced w c" "i < length w"
  shows "c ! i + w ! i \<le> int (length w) * sum_list w"
proof -
  let ?W = "sum_list w"
  have len: "length c = length w" and low: "\<forall>j<length w. - ?W < c ! j" and s0: "sum_list c = 0"
    using assms(2) by (auto simp: balanced_def above_def)
  have "(\<Sum>j<length w. c ! j) = 0" using s0 len sum_list_map_upt [of c] by simp
  then have "c ! i = - (\<Sum>j\<in>{..<length w} - {i}. c ! j)"
    using assms(3) by (subst (asm) sum.remove [of _ i]) auto
  also have "\<dots> = (\<Sum>j\<in>{..<length w} - {i}. - (c ! j))" by (simp add: sum_negf)
  also have "\<dots> \<le> (\<Sum>j\<in>{..<length w} - {i}. ?W)"
    using low by (intro sum_mono) force
  also have "\<dots> = int (length w - 1) * ?W" using assms(3) by simp
  finally have "c ! i \<le> int (length w - 1) * ?W" .
  moreover have "w ! i \<le> ?W"
    using assms(1,3) by (intro member_le_sum_list) (auto simp: weights_ok_def less_imp_le)
  ultimately show ?thesis using assms(3)
    by (cases "length w") (auto simp: algebra_simps)
qed

end

section \<open>The balancer's scan is a fair selector\<close>

text \<open>The pick of the code's loop when every backend is eligible.\<close>

definition scan_pick :: "int list \<Rightarrow> int list \<Rightarrow> nat" where
  "scan_pick w c =
     (case best_scan (enumerate 0 (map2 (+) c w)) None i64_min of Some i \<Rightarrow> i | None \<Rightarrow> length w)"

lemma enumerate_mem:
  "length c = length w \<Longrightarrow>
   (i, x) \<in> set (enumerate 0 (map2 (+) c w)) \<longleftrightarrow> i < length w \<and> x = c ! i + w ! i"
  for c w :: "int list"
  by (auto simp: in_set_enumerate_eq)

lemma scan_pick_Some:
  assumes "weights_ok w" "above w c"
  obtains i where "best_scan (enumerate 0 (map2 (+) c w)) None i64_min = Some i"
    "scan_pick w c = i" "i < length w"
    "\<And>j. j < length w \<Longrightarrow> c ! j + w ! j \<le> c ! i + w ! i"
proof -
  let ?xs = "enumerate 0 (map2 (+) c w)"
  have len: "length c = length w" using assms(2) by (simp add: above_def)
  have n: "0 < length w" using assms(1) by (simp add: weights_ok_def)
  have big: "sum_list w < 2 ^ 63" by (rule weights_ok_sum [OF assms(1)])
  have "0 < w ! 0" "- sum_list w < c ! 0" using assms n by (auto simp: weights_ok_def above_def)
  with big have "i64_min < c ! 0 + w ! 0" by (simp add: i64_min_def)
  moreover have "(0, c ! 0 + w ! 0) \<in> set ?xs" using len n by (simp only: enumerate_mem)
  ultimately have "best_scan ?xs None i64_min \<noteq> None"
    unfolding best_scan_None by (metis (no_types, lifting) case_prod_conv linorder_not_less)
  then obtain i where i: "best_scan ?xs None i64_min = Some i" by blast
  from best_scan_Some [OF i] obtain ys x zs where sp: "?xs = ys @ (i, x) # zs"
      "\<forall>(k, d)\<in>set ys. d < x" "\<forall>(k, d)\<in>set zs. d \<le> x" by auto
  have "(i, x) \<in> set ?xs" using sp(1) by simp
  then have ix: "i < length w" "x = c ! i + w ! i" using len by (simp_all only: enumerate_mem)
  have "c ! j + w ! j \<le> c ! i + w ! i" if "j < length w" for j
  proof -
    have "(j, c ! j + w ! j) \<in> set ?xs" using len that by (simp only: enumerate_mem simp_thms)
    with sp ix(2) show ?thesis by fastforce
  qed
  with i ix(1) show ?thesis by (intro that [of i]) (simp_all add: scan_pick_def)
qed

interpretation wrr: fair_selector scan_pick
proof (unfold_locales, goal_cases)
  case (1 w c)
  then show ?case by (metis scan_pick_Some)
next
  case (2 w c i)
  then show ?case by (metis scan_pick_Some)
qed

section \<open>Bridging to \<open>LoadBalancer::next\<close>\<close>

definition weights_of :: "'uri inner_state list \<Rightarrow> int list" where
  "weights_of pool = map wt pool"

lemma elig_all_healthy:
  "list_all is_healthy pool \<Longrightarrow> elig clk idx pool = enumerate idx pool"
  by (induction pool arbitrary: idx) (simp_all add: elig_Cons is_eligible_def, simp add: elig_def)

lemma add_weights_enumerate:
  assumes "length c = length pool" "\<forall>i<length pool. in_i64 (c ! i + wt (pool ! i))"
  shows "add_weights (enumerate 0 pool) c = map2 (+) c (weights_of pool)"
proof (rule nth_equalityI)
  show "length (add_weights (enumerate 0 pool) c) = length (map2 (+) c (weights_of pool))"
    using assms(1) by (simp add: weights_of_def)
  fix i assume "i < length (add_weights (enumerate 0 pool) c)"
  then have i: "i < length pool" using assms(1) by simp
  have "map_of (enumerate 0 pool) i = Some (pool ! i)"
    using i by (intro map_of_is_SomeI) (auto simp: in_set_enumerate_eq)
  then show "add_weights (enumerate 0 pool) c ! i = map2 (+) c (weights_of pool) ! i"
    using i assms by (simp add: add_weights_nth weights_of_def wrap_i64_id)
qed

lemma wsum_enumerate: "wsum (enumerate idx pool) = sum_list (weights_of pool)"
  by (induction pool arbitrary: idx) (simp_all add: weights_of_def)

lemma balanced_in_range:
  assumes "weights_ok w" "wrr.balanced w c" "i < length w"
  shows "in_i64 (c ! i + w ! i)"
proof -
  have up: "c ! i + w ! i < 2 ^ 63"
    using wrr.balanced_upper [OF assms] assms(1) by (simp add: weights_ok_def)
  have low: "- sum_list w < c ! i" using assms(2,3) by (simp add: wrr.balanced_def above_def)
  have w: "0 < w ! i" using assms(1,3) by (simp add: weights_ok_def)
  show ?thesis
    using up low w weights_ok_sum [OF assms(1)] by (simp add: in_i64_def i64_min_def i64_max_def)
qed

lemma balancer_next_healthy:
  assumes "weights_ok (weights_of pool)" "list_all is_healthy pool"
    and "wrr.balanced (weights_of pool) c"
  shows "balancer_next \<lparr>lb_pool = pool, lb_current_weights = c\<rparr> clk t =
      (Inr (scan_pick (weights_of pool) c),
       \<lparr>lb_pool = pool, lb_current_weights = swrr_advance scan_pick (weights_of pool) c\<rparr>)"
proof -
  let ?w = "weights_of pool" and ?lb = "\<lparr>lb_pool = pool, lb_current_weights = c\<rparr>"
  have len: "length c = length pool" "length ?w = length pool"
    using assms(3) by (simp_all add: wrr.balanced_def above_def weights_of_def)
  have rng: "in_i64 (c ! i + wt (pool ! i))" if "i < length pool" for i
    using balanced_in_range [OF assms(1,3), of i] that by (simp add: weights_of_def)
  have el: "elig clk 0 pool = enumerate 0 pool" by (rule elig_all_healthy [OF assms(2)])
  have cand: "candidates ?lb clk = enumerate 0 (map2 (+) c ?w)"
    using len rng by (intro nth_equalityI) (auto simp: el nth_enumerate_eq weights_of_def sat_i64_id)
  obtain i where i: "best_scan (enumerate 0 (map2 (+) c ?w)) None i64_min = Some i"
      "scan_pick ?w c = i" "i < length ?w"
    using scan_pick_Some [OF assms(1)] assms(3) unfolding wrr.balanced_def by metis
  have tot: "sat_total 0 (enumerate 0 pool) = sum_list ?w"
    using sat_total_eq [of 0 "enumerate 0 pool"] weights_ok_sum [OF assms(1)]
    by (simp add: wsum_enumerate i64_max_def)
  have adv: "wrr.balanced ?w (swrr_advance scan_pick ?w c)"
    by (rule wrr.balanced_advance [OF assms(1,3)])
  have "swrr_advance scan_pick ?w c ! i = c ! i + ?w ! i - sum_list ?w"
    using i len by (simp add: swrr_advance_def)
  then have "- sum_list ?w < c ! i + ?w ! i - sum_list ?w"
    using adv i(3) unfolding wrr.balanced_def above_def by metis
  then have "in_i64 (c ! i + ?w ! i - sum_list ?w)"
    using rng [of i] i(3) len weights_ok_sum [OF assms(1)]
    by (simp add: in_i64_def i64_min_def i64_max_def weights_of_def)
  moreover have "is_healthy (pool ! i)" using assms(2) i(3) len by (simp add: list_all_length)
  moreover have "add_weights (enumerate 0 pool) c = map2 (+) c ?w"
    using add_weights_enumerate len rng by blast
  ultimately show ?thesis
    using balancer_next_Some [of ?lb clk i t] i len cand
    by (simp add: el tot swrr_advance_def wrap_i64_id)
qed

text \<open>A sequence of selections with nothing in between; each call reads its own clock.\<close>

fun balancer_nexts ::
  "'uri load_balancer \<Rightarrow> ((nat \<Rightarrow> instant) \<times> instant) list
     \<Rightarrow> (proxy_error, nat) result list \<times> 'uri load_balancer" where
  "balancer_nexts lb [] = ([], lb)"
| "balancer_nexts lb ((clk, t) # ts) =
     (case balancer_next lb clk t of
        (r, lb') \<Rightarrow> (case balancer_nexts lb' ts of (rs, lb'') \<Rightarrow> (r # rs, lb'')))"

lemma balancer_nexts_healthy:
  assumes "weights_ok (weights_of pool)" "list_all is_healthy pool"
    and "wrr.balanced (weights_of pool) c"
  shows "balancer_nexts \<lparr>lb_pool = pool, lb_current_weights = c\<rparr> ts =
      (map Inr (fst (swrr_run scan_pick (weights_of pool) (length ts) c)),
       \<lparr>lb_pool = pool,
        lb_current_weights = snd (swrr_run scan_pick (weights_of pool) (length ts) c)\<rparr>)"
  using assms(3)
proof (induction ts arbitrary: c)
  case (Cons t ts)
  obtain clk at where t: "t = (clk, at)" by force
  have "wrr.balanced (weights_of pool) (swrr_advance scan_pick (weights_of pool) c)"
    by (rule wrr.balanced_advance [OF assms(1) Cons.prems])
  from Cons.IH [OF this] show ?case
    by (simp add: t balancer_next_healthy [OF assms(1,2) Cons.prems])
qed simp

text \<open>
  C1. Exact proportional fairness: from a fresh balancer whose backends are healthy, any
  \<open>m\<close> times the total weight consecutive selections pick backend \<open>i\<close> exactly \<open>m\<close> times its
  weight, every selection succeeds, and the balancer is back in its initial state. Nothing
  overflows as long as the number of backends times the total weight fits an \<open>i64\<close>.
\<close>

theorem exact_weighted_shares:
  assumes "weights_ok (weights_of pool)" and "list_all is_healthy pool"
    and "length ts = m * nat (sum_list (weights_of pool))" and "i < length pool"
  shows "\<exists>picks. balancer_nexts (balancer_new pool) ts = (map Inr picks, balancer_new pool)
    \<and> count_list picks i = m * unat (us_weight (pool ! i))"
proof -
  let ?w = "weights_of pool"
  have new: "balancer_new pool = \<lparr>lb_pool = pool, lb_current_weights = replicate (length ?w) 0\<rparr>"
    by (simp add: balancer_new_def weights_of_def map_replicate_const)
  have "int (count_list (fst (swrr_run scan_pick ?w (length ts) (replicate (length ?w) 0))) i)
      = int m * wt (pool ! i)"
    using wrr.exact_shares [OF assms(1), of i m] assms(3,4) by (simp add: weights_of_def)
  then have "count_list (fst (swrr_run scan_pick ?w (length ts) (replicate (length ?w) 0))) i
      = m * unat (us_weight (pool ! i))"
    by (metis of_nat_eq_iff of_nat_mult uint_nat)
  then show ?thesis
    using balancer_nexts_healthy [OF assms(1,2) wrr.balanced_zero [OF assms(1)], of ts]
      wrr.run_returns [OF assms(1), of m] assms(3)
    by (auto simp: new)
qed

definition demo_pool :: "u32 list \<Rightarrow> nat inner_state list" where
  "demo_pool ws =
     from_validated (map (\<lambda>(i, w). \<lparr>vu_uri = i, vu_weight = w\<rparr>) (enumerate 0 ws)) (from_secs 30) (\<lambda>_. 0)"

theorem exact_weighted_shares_witness:
  "\<exists>picks. balancer_nexts (balancer_new (demo_pool [3, 1])) (replicate 400 (\<lambda>_. 0, 0))
      = (map Inr picks, balancer_new (demo_pool [3, 1]))
    \<and> count_list picks 0 = 300"
proof -
  let ?pool = "demo_pool [3, 1]"
  have w: "weights_of ?pool = [3, 1]" "length ?pool = 2" "us_weight (?pool ! 0) = 3"
    by (simp_all add: demo_pool_def from_validated_def weights_of_def upstream_new_def)
  have ok: "weights_ok (weights_of ?pool)" "list_all is_healthy ?pool"
    by (simp add: w weights_ok_def)
       (simp add: demo_pool_def from_validated_def upstream_new_def is_healthy_def)
  show ?thesis
    using exact_weighted_shares [OF ok, of "replicate 400 (\<lambda>_. 0, 0)" 100 0] w by simp
qed

text \<open>
  C20. At every moment of a run of selections over healthy backends, no backend is ahead of
  its proportional share by a whole request: after \<open>n\<close> selections, the number of picks of
  backend \<open>i\<close> is less than \<open>n\<close> times its weight over the total weight, plus one.
\<close>

theorem never_a_request_ahead:
  assumes "weights_ok (weights_of pool)" and "list_all is_healthy pool" and "i < length pool"
  shows "\<exists>picks lb'. balancer_nexts (balancer_new pool) ts = (map Inr picks, lb')
    \<and> sum_list (weights_of pool) * int (count_list picks i)
        < int (length ts) * uint (us_weight (pool ! i)) + sum_list (weights_of pool)"
proof -
  let ?w = "weights_of pool"
  have new: "balancer_new pool = \<lparr>lb_pool = pool, lb_current_weights = replicate (length ?w) 0\<rparr>"
    by (simp add: balancer_new_def weights_of_def map_replicate_const)
  show ?thesis
    using balancer_nexts_healthy [OF assms(1,2) wrr.balanced_zero [OF assms(1)], of ts]
      wrr.upper_quota [OF assms(1), of i "length ts"] assms(3)
    by (auto simp: new weights_of_def)
qed

theorem never_a_request_ahead_witness:
  "\<exists>picks lb'. balancer_nexts (balancer_new (demo_pool [5, 1, 1])) (replicate 3 (\<lambda>_. 0, 0)) = (map Inr picks, lb')
    \<and> 7 * int (count_list picks 0) < 3 * 5 + 7"
proof -
  let ?pool = "demo_pool [5, 1, 1]"
  have w: "weights_of ?pool = [5, 1, 1]" "length ?pool = 3" "us_weight (?pool ! 0) = 5"
    by (simp_all add: demo_pool_def from_validated_def weights_of_def upstream_new_def)
  have ok: "weights_ok (weights_of ?pool)" "list_all is_healthy ?pool"
    by (simp add: w weights_ok_def)
       (simp add: demo_pool_def from_validated_def upstream_new_def is_healthy_def)
  show ?thesis
    using never_a_request_ahead [OF ok, of 0 "replicate 3 (\<lambda>_. 0, 0)"] w by simp
qed

text \<open>
  The running current-weights are not confined to plus or minus the total weight: with
  six healthy backends of weights 1, 1, 1, 5, 5, 5 (total 18), after eleven selections from
  a fresh balancer a current weight is 19.
\<close>

theorem current_weight_exceeds_total:
  "sum_list (weights_of (demo_pool [1, 1, 1, 5, 5, 5])) = 18
   \<and> list_all is_healthy (demo_pool [1, 1, 1, 5, 5, 5])
   \<and> 19 \<in> set (lb_current_weights
        (snd (balancer_nexts (balancer_new (demo_pool [1, 1, 1, 5, 5, 5])) (replicate 11 (\<lambda>_. 0, 0)))))"
proof -
  let ?pool = "demo_pool [1, 1, 1, 5, 5, 5]"
  have w: "weights_of ?pool = [1, 1, 1, 5, 5, 5]" "length ?pool = 6"
    by (simp_all add: demo_pool_def from_validated_def weights_of_def upstream_new_def)
  have ok: "weights_ok (weights_of ?pool)" "list_all is_healthy ?pool"
    by (simp add: w weights_ok_def)
       (simp add: demo_pool_def from_validated_def upstream_new_def is_healthy_def)
  have new: "balancer_new ?pool = \<lparr>lb_pool = ?pool, lb_current_weights = replicate (length (weights_of ?pool)) 0\<rparr>"
    by (simp add: balancer_new_def weights_of_def map_replicate_const)
  have "19 \<in> set (snd (swrr_run scan_pick [1, 1, 1, 5, 5, 5] 11 [0, 0, 0, 0, 0, 0]))"
    by code_simp
  moreover have "replicate (length (weights_of ?pool)) 0 = [0, 0, 0, 0, 0, 0::int]"
    by (simp add: w)
  ultimately show ?thesis
    using balancer_nexts_healthy [OF ok wrr.balanced_zero [OF ok(1)], of "replicate 11 (\<lambda>_. 0, 0)"] ok(2)
    by (simp add: new w)
qed

end
