(* ===== verification/Unit_Tests_Pool.thy ===== *)
theory Unit_Tests_Pool
  imports Balancer_Fairness
begin

text \<open>
  The unit tests of the source, replayed on the model. A test is a boolean function of the
  clock readings it takes, in program order; \<open>assert!\<close> is a conjunct and an \<open>unwrap\<close> or
  \<open>expect\<close> that would panic makes the test fail. The crates are the
  reference instances.
\<close>

section \<open>Running tests\<close>

definition passes :: "('e, bool) result \<Rightarrow> bool" where
  "passes r \<longleftrightarrow> (case r of Inl _ \<Rightarrow> False | Inr b \<Rightarrow> b)"

definition is_err :: "('e, 'a) result \<Rightarrow> bool" where
  "is_err r \<longleftrightarrow> (case r of Inl _ \<Rightarrow> True | Inr _ \<Rightarrow> False)"

abbreviation is_ok :: "('e, 'a) result \<Rightarrow> bool" where
  "is_ok r \<equiv> \<not> is_err r"

text \<open>A clock that advances by a microsecond between readings and sleeps 40 milliseconds before
  reading number \<open>n\<close>.\<close>

definition sleep_clock :: "nat \<Rightarrow> nat \<Rightarrow> instant" where
  "sleep_clock n k = (if k < n then 1000 * k else 1000 * k + 40000000)"

definition from_millis :: "nat \<Rightarrow> duration" where
  "from_millis ms = 1000000 * ms"

section \<open>Tests of upstream.rs\<close>

definition LONG_COOLDOWN :: duration where
  "LONG_COOLDOWN = from_secs 30"

definition test_upstream :: "string \<Rightarrow> u32 \<Rightarrow> (string, ref_uri validated_upstream) result" where
  "test_upstream addr weight =
     and_then (uri_parse ref_uris addr) (\<lambda>uri. Inr \<lparr>vu_uri = uri, vu_weight = weight\<rparr>)"

definition test_state :: "string \<Rightarrow> duration \<Rightarrow> instant \<Rightarrow> (string, ref_uri inner_state) result" where
  "test_state addr cooldown now =
     and_then (test_upstream addr 1) (\<lambda>u. Inr (upstream_new u cooldown now))"

definition new_upstream_starts_healthy :: "(nat \<Rightarrow> instant) \<Rightarrow> bool" where
  "new_upstream_starts_healthy clk = passes (and_then
     (test_state ''http://localhost:3000'' LONG_COOLDOWN (clk 0)) (\<lambda>s.
     Inr (is_healthy s \<and> is_eligible s (clk 1))))"

text \<open>The state after a sequence of calls with fixed thresholds.\<close>

abbreviation after_calls ::
  "u32 \<Rightarrow> u32 \<Rightarrow> 'uri inner_state \<Rightarrow> health_event list \<Rightarrow> 'uri inner_state" where
  "after_calls ft ht s es \<equiv> foldl (health_step ft ht) s es"

definition record_success_resets_failures :: "(nat \<Rightarrow> instant) \<Rightarrow> bool" where
  "record_success_resets_failures clk = passes (and_then
     (test_state ''http://localhost:3000'' LONG_COOLDOWN (clk 0)) (\<lambda>s.
     Inr (is_healthy (after_calls 3 1 s [EvFailure (clk 1), EvFailure (clk 2)])
        \<and> is_healthy (after_calls 3 1 s [EvFailure (clk 1), EvFailure (clk 2), EvSuccess,
             EvFailure (clk 3), EvFailure (clk 4)])
        \<and> fst (record_failure (after_calls 3 1 s [EvFailure (clk 1), EvFailure (clk 2), EvSuccess,
             EvFailure (clk 3), EvFailure (clk 4)]) 3 (clk 5))
        \<and> \<not> is_healthy (after_calls 3 1 s [EvFailure (clk 1), EvFailure (clk 2), EvSuccess,
             EvFailure (clk 3), EvFailure (clk 4), EvFailure (clk 5)]))))"

definition record_success_requires_threshold_for_recovery :: "(nat \<Rightarrow> instant) \<Rightarrow> bool" where
  "record_success_requires_threshold_for_recovery clk = passes (and_then
     (test_state ''http://localhost:3000'' LONG_COOLDOWN (clk 0)) (\<lambda>s.
     Inr (\<not> fst (record_success (after_calls 3 3 s [EvMarkUnhealthy (clk 1)]) 3)
        \<and> \<not> is_healthy (after_calls 3 3 s [EvMarkUnhealthy (clk 1), EvSuccess])
        \<and> \<not> fst (record_success (after_calls 3 3 s [EvMarkUnhealthy (clk 1), EvSuccess]) 3)
        \<and> \<not> is_healthy (after_calls 3 3 s [EvMarkUnhealthy (clk 1), EvSuccess, EvSuccess])
        \<and> fst (record_success (after_calls 3 3 s [EvMarkUnhealthy (clk 1), EvSuccess, EvSuccess]) 3)
        \<and> is_healthy (after_calls 3 3 s [EvMarkUnhealthy (clk 1), EvSuccess, EvSuccess, EvSuccess]))))"

definition failure_resets_consecutive_successes :: "(nat \<Rightarrow> instant) \<Rightarrow> bool" where
  "failure_resets_consecutive_successes clk = passes (and_then
     (test_state ''http://localhost:3000'' LONG_COOLDOWN (clk 0)) (\<lambda>s.
     Inr (\<not> is_healthy (after_calls 10 3 s [EvMarkUnhealthy (clk 1), EvSuccess, EvSuccess, EvFailure (clk 2)])
        \<and> \<not> is_healthy (after_calls 10 3 s [EvMarkUnhealthy (clk 1), EvSuccess, EvSuccess, EvFailure (clk 2),
             EvSuccess]))))"

definition record_failure_marks_unhealthy_at_threshold :: "(nat \<Rightarrow> instant) \<Rightarrow> bool" where
  "record_failure_marks_unhealthy_at_threshold clk = passes (and_then
     (test_state ''http://localhost:3000'' LONG_COOLDOWN (clk 0)) (\<lambda>s.
     Inr (\<not> fst (record_failure s 3 (clk 1))
        \<and> \<not> fst (record_failure (after_calls 3 1 s [EvFailure (clk 1)]) 3 (clk 2))
        \<and> fst (record_failure (after_calls 3 1 s [EvFailure (clk 1), EvFailure (clk 2)]) 3 (clk 3))
        \<and> \<not> is_healthy (after_calls 3 1 s [EvFailure (clk 1), EvFailure (clk 2), EvFailure (clk 3)]))))"

definition record_failure_beyond_threshold_does_not_retrigger :: "(nat \<Rightarrow> instant) \<Rightarrow> bool" where
  "record_failure_beyond_threshold_does_not_retrigger clk = passes (and_then
     (test_state ''http://localhost:3000'' LONG_COOLDOWN (clk 0)) (\<lambda>s.
     Inr (fst (record_failure (after_calls 2 1 s [EvFailure (clk 1)]) 2 (clk 2))
        \<and> \<not> fst (record_failure (after_calls 2 1 s [EvFailure (clk 1), EvFailure (clk 2)]) 2 (clk 3)))))"

definition ejected_backend_is_not_eligible_during_cooldown :: "(nat \<Rightarrow> instant) \<Rightarrow> bool" where
  "ejected_backend_is_not_eligible_during_cooldown clk = passes (and_then
     (test_state ''http://localhost:3000'' LONG_COOLDOWN (clk 0)) (\<lambda>s.
     let s1 = mark_unhealthy s (clk 1)
     in Inr (\<not> is_healthy s1 \<and> \<not> trial_ready s1 (clk 2) \<and> \<not> is_eligible s1 (clk 3))))"

definition ejected_backend_becomes_trial_ready_after_cooldown :: "(nat \<Rightarrow> instant) \<Rightarrow> bool" where
  "ejected_backend_becomes_trial_ready_after_cooldown clk = passes (and_then
     (test_state ''http://localhost:3000'' (from_millis 20) (clk 0)) (\<lambda>s.
     let s1 = mark_unhealthy s (clk 1);
         s2 = arm_cooldown s1 (clk 5)
     in Inr (\<not> trial_ready s1 (clk 2) \<and> trial_ready s1 (clk 3) \<and> is_eligible s1 (clk 4)
          \<and> \<not> trial_ready s2 (clk 6))))"

definition promotion_clears_cooldown :: "(nat \<Rightarrow> instant) \<Rightarrow> bool" where
  "promotion_clears_cooldown clk = passes (and_then
     (test_state ''http://localhost:3000'' (from_millis 20) (clk 0)) (\<lambda>s.
     let s1 = mark_unhealthy s (clk 1);
         (r, s2) = record_success s1 1
     in Inr (r \<and> is_healthy s2 \<and> is_eligible s2 (clk 2))))"

section \<open>Tests of balancer.rs\<close>

definition make_pool_with_cooldown ::
  "(string \<times> u32) list \<Rightarrow> duration \<Rightarrow> instant \<Rightarrow> (string, ref_uri inner_state list) result" where
  "make_pool_with_cooldown specs cooldown now =
     and_then (collect_map (\<lambda>(addr, weight). test_upstream addr weight) specs) (\<lambda>validated.
     Inr (from_validated validated cooldown (\<lambda>_. now)))"

definition make_pool :: "(string \<times> u32) list \<Rightarrow> instant \<Rightarrow> (string, ref_uri inner_state list) result" where
  "make_pool specs now = make_pool_with_cooldown specs LONG_COOLDOWN now"

text \<open>\<open>n\<close> calls of \<open>next\<close>, call \<open>k\<close> at the reading \<open>clk (from + k)\<close>: the URI of each selected
  backend, or None for an error.\<close>

definition next_uris :: "(nat \<Rightarrow> instant) \<Rightarrow> nat \<Rightarrow> nat \<Rightarrow> 'uri load_balancer \<Rightarrow> 'uri option list" where
  "next_uris clk from n lb =
     map (\<lambda>r. case r of Inl _ \<Rightarrow> None | Inr i \<Rightarrow> Some (us_uri (lb_pool lb ! i)))
       (fst (balancer_nexts lb (map (\<lambda>k. (\<lambda>_. clk k, clk k)) [from..<from + n])))"

definition on_pool :: "nat \<Rightarrow> ('uri inner_state \<Rightarrow> 'uri inner_state) \<Rightarrow> 'uri load_balancer \<Rightarrow> 'uri load_balancer" where
  "on_pool i f lb = lb\<lparr>lb_pool := (lb_pool lb)[i := f (lb_pool lb ! i)]\<rparr>"

definition selects :: "ref_uri option \<Rightarrow> string \<Rightarrow> bool" where
  "selects u addr \<longleftrightarrow> (case (u, uri_parse ref_uris addr) of
     (Some v, Inr w) \<Rightarrow> uri_eq ref_uris v w | _ \<Rightarrow> False)"

definition single_backend_always_selected :: "(nat \<Rightarrow> instant) \<Rightarrow> bool" where
  "single_backend_always_selected clk = passes (and_then
     (make_pool [(''http://b1:3000'', 1)] (clk 0)) (\<lambda>pool.
     Inr (list_all (\<lambda>u. selects u ''http://b1:3000'') (next_uris clk 1 10 (balancer_new pool)))))"

definition equal_weight_round_robins :: "(nat \<Rightarrow> instant) \<Rightarrow> bool" where
  "equal_weight_round_robins clk = passes (and_then
     (make_pool [(''http://b1:3000'', 1), (''http://b2:3000'', 1)] (clk 0)) (\<lambda>pool.
     case next_uris clk 1 3 (balancer_new pool) of
       [Some first, Some second, Some third] \<Rightarrow>
         Inr (\<not> uri_eq ref_uris first second \<and> uri_eq ref_uris first third)
     | _ \<Rightarrow> Inr False))"

definition weighted_distribution_respects_weights :: "(nat \<Rightarrow> instant) \<Rightarrow> bool" where
  "weighted_distribution_respects_weights clk = passes (and_then
     (make_pool [(''http://b1:3000'', 3), (''http://b2:3000'', 1)] (clk 0)) (\<lambda>pool.
     let us = next_uris clk 1 400 (balancer_new pool);
         b1_count = length (filter (\<lambda>u. selects u ''http://b1:3000'') us);
         b2_count = length (filter (\<lambda>u. u \<noteq> None \<and> \<not> selects u ''http://b1:3000'') us)
     in Inr (b1_count = 300 \<and> b2_count = 100)))"

definition skips_unhealthy_backends :: "(nat \<Rightarrow> instant) \<Rightarrow> bool" where
  "skips_unhealthy_backends clk = passes (and_then
     (make_pool [(''http://b1:3000'', 1), (''http://b2:3000'', 1)] (clk 0)) (\<lambda>pool.
     let lb = on_pool 0 (\<lambda>b. mark_unhealthy b (clk 1)) (balancer_new pool)
     in Inr (list_all (\<lambda>u. selects u ''http://b2:3000'') (next_uris clk 2 10 lb))))"

definition all_unhealthy_returns_error :: "(nat \<Rightarrow> instant) \<Rightarrow> bool" where
  "all_unhealthy_returns_error clk = passes (and_then
     (make_pool [(''http://b1:3000'', 1), (''http://b2:3000'', 1)] (clk 0)) (\<lambda>pool.
     let lb = on_pool 1 (\<lambda>b. mark_unhealthy b (clk 2))
                (on_pool 0 (\<lambda>b. mark_unhealthy b (clk 1)) (balancer_new pool))
     in Inr (is_err (fst (balancer_next lb (\<lambda>_. clk 3) (clk 3))))))"

definition recovery_after_mark_healthy :: "(nat \<Rightarrow> instant) \<Rightarrow> bool" where
  "recovery_after_mark_healthy clk = passes (and_then
     (make_pool [(''http://b1:3000'', 1), (''http://b2:3000'', 1)] (clk 0)) (\<lambda>pool.
     let lb = on_pool 1 (\<lambda>b. mark_unhealthy b (clk 2))
                (on_pool 0 (\<lambda>b. mark_unhealthy b (clk 1)) (balancer_new pool));
         (r, lb1) = balancer_next lb (\<lambda>_. clk 3) (clk 3);
         lb2 = on_pool 0 mark_healthy lb1
     in Inr (is_err r \<and> list_all (\<lambda>u. selects u ''http://b1:3000'') (next_uris clk 4 1 lb2))))"

definition large_weight_does_not_allocate_slot_table :: "(nat \<Rightarrow> instant) \<Rightarrow> bool" where
  "large_weight_does_not_allocate_slot_table clk = passes (and_then
     (make_pool [(''http://b1:3000'', u_max)] (clk 0)) (\<lambda>pool.
     Inr (list_all (\<lambda>u. selects u ''http://b1:3000'') (next_uris clk 1 5 (balancer_new pool)))))"

definition ejected_backend_recovers_after_cooldown :: "(nat \<Rightarrow> instant) \<Rightarrow> bool" where
  "ejected_backend_recovers_after_cooldown clk = passes (and_then
     (make_pool_with_cooldown [(''http://b1:3000'', 1)] (from_millis 20) (clk 0)) (\<lambda>pool.
     let lb = on_pool 0 (\<lambda>b. mark_unhealthy b (clk 1)) (balancer_new pool);
         (r, lb1) = balancer_next lb (\<lambda>_. clk 2) (clk 2);
         (r', lb2) = balancer_next lb1 (\<lambda>_. clk 3) (clk 3)
     in Inr (is_err r \<and> is_ok r')))"

section \<open>The tests pass\<close>

abbreviation test_uri :: "string \<Rightarrow> ref_uri" where
  "test_uri authority \<equiv> \<lparr>ru_scheme = Some ''http'', ru_authority = Some authority, ru_pq = Some ''/''\<rparr>"

lemma test_uris:
  "uri_parse ref_uris ''http://localhost:3000'' = Inr (test_uri ''localhost:3000'')"
  "uri_parse ref_uris ''http://b1:3000'' = Inr (test_uri ''b1:3000'')"
  "uri_parse ref_uris ''http://b2:3000'' = Inr (test_uri ''b2:3000'')"
  by code_simp+

lemma passes_Inr: "passes (Inr b) = b"
  by (simp add: passes_def)

lemma test_states:
  "test_state ''http://localhost:3000'' c t = Inr (upstream_new \<lparr>vu_uri = test_uri ''localhost:3000'', vu_weight = 1\<rparr> c t)"
  "make_pool_with_cooldown [(''http://b1:3000'', w)] c t =
     Inr (from_validated [\<lparr>vu_uri = test_uri ''b1:3000'', vu_weight = w\<rparr>] c (\<lambda>_. t))"
  "make_pool_with_cooldown [(''http://b1:3000'', w), (''http://b2:3000'', w')] c t =
     Inr (from_validated [\<lparr>vu_uri = test_uri ''b1:3000'', vu_weight = w\<rparr>,
       \<lparr>vu_uri = test_uri ''b2:3000'', vu_weight = w'\<rparr>] c (\<lambda>_. t))"
  by (simp_all add: test_state_def test_upstream_def make_pool_with_cooldown_def test_uris)

lemmas test_setup = passes_Inr and_then_simps test_states make_pool_def

text \<open>The counting tests hold for every clock.\<close>

lemma u32_counts:
  "sat_add 0 1 = (1 :: u32)" "sat_add 1 1 = (2 :: u32)" "sat_add 2 1 = (3 :: u32)"
  "\<not> (2 :: u32) \<le> 1" "\<not> (3 :: u32) \<le> 1" "\<not> (3 :: u32) \<le> 2" "\<not> (10 :: u32) \<le> 1"
  by (simp_all add: sat_add_def word_le_nat_alt)

lemma upstream_tests_pass:
  "new_upstream_starts_healthy clk"
  "record_success_resets_failures clk"
  "record_success_requires_threshold_for_recovery clk"
  "failure_resets_consecutive_successes clk"
  "record_failure_marks_unhealthy_at_threshold clk"
  "record_failure_beyond_threshold_does_not_retrigger clk"
  "promotion_clears_cooldown clk"
  by (simp_all add: test_setup u32_counts upstream_new_def upstream_defs
      new_upstream_starts_healthy_def
      record_success_resets_failures_def
      record_success_requires_threshold_for_recovery_def
      failure_resets_consecutive_successes_def
      record_failure_marks_unhealthy_at_threshold_def
      record_failure_beyond_threshold_does_not_retrigger_def
      promotion_clears_cooldown_def)

lemma ejected_backend_becomes_trial_ready_after_cooldown_passes:
  "ejected_backend_becomes_trial_ready_after_cooldown (sleep_clock 3)"
  by (simp only: test_setup ejected_backend_becomes_trial_ready_after_cooldown_def) code_simp

lemma selects_b2: "selects (Some (test_uri ''b2:3000'')) ''http://b2:3000''"
  by code_simp

lemma selects_b1:
  "selects (Some (test_uri ''b1:3000'')) ''http://b1:3000''"
  "\<not> selects (Some (test_uri ''b2:3000'')) ''http://b1:3000''"
  by code_simp+

text \<open>
  The balancer tests hold for every clock whose readings are all taken within the cooldown of
  thirty seconds, as the tests take for granted.
\<close>

definition quick_clock :: "(nat \<Rightarrow> instant) \<Rightarrow> bool" where
  "quick_clock clk \<longleftrightarrow> (\<forall>k. clk k < clk 0 + LONG_COOLDOWN)"

lemma ejected_quick:
  assumes "quick_clock clk" "us_created b = clk 0" "us_cooldown_ms b = try_from_or_max (as_millis LONG_COOLDOWN)"
  shows "\<not> is_eligible (mark_unhealthy b (clk i)) (clk k)"
proof -
  have L: "LONG_COOLDOWN = 30000000000" by (simp add: LONG_COOLDOWN_def from_secs_def)
  then have ms: "as_millis LONG_COOLDOWN = 30000" by (simp add: as_millis_def)
  have "clk k < clk 0 + 30000000000" using assms(1) L unfolding quick_clock_def by metis
  then have "clk k - clk 0 < 30000 * 10 ^ 6" by simp
  then have "(clk k - clk 0) div 10 ^ 6 < 30000" by (simp add: div_less_iff_less_mult)
  then have "unat (now_ms b (clk k)) < 30000" by (simp add: unat_now_ms assms(2))
  moreover have "30000 \<le> deadline b (clk i)"
    by (simp add: deadline_def assms(3) ms unat_try_from_or_max)
  ultimately show ?thesis
    using unat_arm_until [of b "clk i"]
    by (simp add: is_eligible_def trial_ready_def is_healthy_def mark_unhealthy_def arm_cooldown_def
        word_le_nat_alt)
qed

text \<open>A selection that leaves the balancer as it was is repeated by every later one.\<close>

lemma balancer_nexts_fixpoint:
  assumes "\<And>clk t. (clk, t) \<in> set ts \<Longrightarrow> balancer_next lb clk t = (r, lb)"
  shows "fst (balancer_nexts lb ts) = replicate (length ts) r"
proof -
  have "balancer_nexts lb ts = (replicate (length ts) r, lb)"
    using assms by (induction ts) auto
  then show ?thesis by simp
qed

lemma next_uris_fixpoint:
  assumes "\<And>k. balancer_next lb (\<lambda>_. clk k) (clk k) = (Inr i, lb)"
  shows "next_uris clk from n lb = replicate n (Some (us_uri (lb_pool lb ! i)))"
proof -
  have "fst (balancer_nexts lb (map (\<lambda>k. (\<lambda>_. clk k, clk k)) [from..<from + n])) = replicate n (Inr i)"
    using balancer_nexts_fixpoint [of "map (\<lambda>k. (\<lambda>_. clk k, clk k)) [from..<from + n]" lb "Inr i"] assms by auto
  then show ?thesis by (simp add: next_uris_def)
qed

lemmas next_eval = balancer_next_def balancer_new_def from_validated_def upstream_new_def is_healthy_def
  is_eligible_def sat_i64_def wrap_i64_def i64_min_def i64_max_def Let_def

lemma single_backend_next:
  "balancer_next (balancer_new (from_validated [v] c f)) clk t = (Inr 0, balancer_new (from_validated [v] c f))"
proof -
  let ?w = "uint (vu_weight v)"
  have "0 \<le> ?w" by simp
  then have "\<not> ?w < - 9223372036854775808" "- 9223372036854775808 < ?w" by linarith+
  moreover have "?w < 2 ^ 32" using uint_lt2p [of "vu_weight v"] by simp
  ultimately show ?thesis by (simp add: next_eval)
qed

lemma single_backend_tests_pass: "single_backend_always_selected clk" "large_weight_does_not_allocate_slot_table clk"
  by (simp_all add: single_backend_always_selected_def large_weight_does_not_allocate_slot_table_def
      test_setup next_uris_fixpoint [OF single_backend_next] list_all_iff selects_b1)
     (simp_all add: balancer_new_def from_validated_def upstream_new_def selects_b1)

abbreviation pair_pool :: "instant \<Rightarrow> ref_uri inner_state list" where
  "pair_pool t \<equiv> from_validated [\<lparr>vu_uri = test_uri ''b1:3000'', vu_weight = 1\<rparr>,
     \<lparr>vu_uri = test_uri ''b2:3000'', vu_weight = 1\<rparr>] LONG_COOLDOWN (\<lambda>_. t)"

abbreviation fresh_backend :: "string \<Rightarrow> instant \<Rightarrow> ref_uri inner_state" where
  "fresh_backend authority t \<equiv> upstream_new \<lparr>vu_uri = test_uri authority, vu_weight = 1\<rparr> LONG_COOLDOWN t"

lemma fresh_backend_simps:
  "us_uri (fresh_backend a t) = test_uri a" "us_weight (fresh_backend a t) = 1"
  "is_healthy (fresh_backend a t)" "is_eligible (fresh_backend a t) t'"
  "us_created (fresh_backend a t) = t"
  "us_cooldown_ms (fresh_backend a t) = try_from_or_max (as_millis LONG_COOLDOWN)"
  by (simp_all add: upstream_new_def is_healthy_def is_eligible_def)

lemma ejected_fresh:
  "quick_clock clk \<Longrightarrow> \<not> is_eligible (mark_unhealthy (fresh_backend a (clk 0)) (clk i)) (clk k)"
  by (rule ejected_quick) (simp_all add: fresh_backend_simps)

lemma mark_unhealthy_weight: "us_weight (mark_unhealthy b t) = us_weight b" "us_uri (mark_unhealthy b t) = us_uri b"
  by (simp_all add: mark_unhealthy_def arm_cooldown_def)

lemma mark_healthy_simps:
  "is_healthy (mark_healthy b)" "is_eligible (mark_healthy b) t"
  "us_weight (mark_healthy b) = us_weight b" "us_uri (mark_healthy b) = us_uri b"
  by (simp_all add: mark_healthy_def is_healthy_def is_eligible_def)

lemma ejected_backend_is_not_eligible_during_cooldown_passes:
  assumes "quick_clock clk"
  shows "ejected_backend_is_not_eligible_during_cooldown clk"
proof -
  let ?b = "mark_unhealthy (fresh_backend ''localhost:3000'' (clk 0)) (clk 1)"
  have "\<not> is_eligible ?b (clk k)" for k by (rule ejected_fresh [OF assms])
  moreover have "\<not> is_healthy ?b" by (simp add: mark_unhealthy_def arm_cooldown_def is_healthy_def)
  ultimately show ?thesis
    by (simp add: ejected_backend_is_not_eligible_during_cooldown_def test_setup Let_def is_eligible_def)
qed

lemmas pair_eval = test_setup on_pool_def balancer_next_def balancer_new_def from_validated_def
  fresh_backend_simps ejected_fresh mark_unhealthy_weight sat_i64_def wrap_i64_def i64_min_def i64_max_def
  Let_def is_err_def

lemma all_unhealthy_returns_error_passes:
  "quick_clock clk \<Longrightarrow> all_unhealthy_returns_error clk"
  by (simp add: all_unhealthy_returns_error_def pair_eval)

lemma skips_unhealthy_backends_passes:
  assumes "quick_clock clk"
  shows "skips_unhealthy_backends clk"
proof -
  let ?lb = "on_pool 0 (\<lambda>b. mark_unhealthy b (clk 1)) (balancer_new (pair_pool (clk 0)))"
  have "balancer_next ?lb (\<lambda>_. clk k) (clk k) = (Inr 1, ?lb)" for k
    using assms by (simp add: pair_eval)
  from next_uris_fixpoint [OF this] show ?thesis
    by (simp add: skips_unhealthy_backends_def test_setup Let_def list_all_iff)
       (simp add: on_pool_def balancer_new_def from_validated_def fresh_backend_simps selects_b2)
qed

lemma recovery_after_mark_healthy_passes:
  assumes "quick_clock clk"
  shows "recovery_after_mark_healthy clk"
  using assms
  by (simp add: recovery_after_mark_healthy_def next_uris_def pair_eval selects_b1 mark_healthy_simps)

lemma equal_weight_round_robins_passes: "equal_weight_round_robins clk"
  by (simp add: equal_weight_round_robins_def next_uris_def pair_eval upt_rec ref_uris_def)

lemma ejected_backend_recovers_after_cooldown_passes:
  "ejected_backend_recovers_after_cooldown (sleep_clock 3)"
  by (simp only: ejected_backend_recovers_after_cooldown_def test_setup) code_simp

text \<open>The long test follows from the exact shares of the balancer, for every clock.\<close>

lemma length_filter_picks:
  assumes "set picks \<subseteq> {0, 1 :: nat}" "P (f 0)" "\<not> P (f 1)"
  shows "length (filter P (map f picks)) = count_list picks 0"
    and "length (filter (\<lambda>x. \<not> P x) (map f picks)) = count_list picks 1"
  using assms by (induction picks) auto

lemma weighted_distribution_respects_weights_passes: "weighted_distribution_respects_weights clk"
proof -
  let ?pool = "from_validated [\<lparr>vu_uri = test_uri ''b1:3000'', vu_weight = 3\<rparr>,
    \<lparr>vu_uri = test_uri ''b2:3000'', vu_weight = 1\<rparr>] LONG_COOLDOWN (\<lambda>_. clk 0)"
  let ?picks = "fst (swrr_run scan_pick [3, 1] 400 [0, 0])"
  let ?uri = "\<lambda>i. Some (us_uri (?pool ! i))"
  have pool: "weights_of ?pool = [3, 1]" "list_all is_healthy ?pool"
    "us_uri (?pool ! 0) = test_uri ''b1:3000''" "us_uri (?pool ! 1) = test_uri ''b2:3000''"
    by (simp_all add: from_validated_def weights_of_def upstream_new_def is_healthy_def)
  have ok: "weights_ok (weights_of ?pool)" "weights_ok [3, 1]" by (simp_all add: pool weights_ok_def)
  have new: "balancer_new ?pool = \<lparr>lb_pool = ?pool, lb_current_weights = [0, 0]\<rparr>"
    by (simp add: balancer_new_def from_validated_def)
  have "set ?picks \<subseteq> {..<length [3, 1 :: int]}"
    using wrr.swrr_run_state [OF ok(2) wrr.balanced_zero [OF ok(2)], of 400] by (auto simp: numeral_2_eq_2)
  then have two: "set ?picks \<subseteq> {0, 1}" by (auto simp: numeral_2_eq_2 less_Suc_eq)
  have uris: "next_uris clk 1 400 (balancer_new ?pool) = map ?uri ?picks"
    using balancer_nexts_healthy [OF ok(1) pool(2), of "[0, 0]" "map (\<lambda>k. (\<lambda>_. clk k, clk k)) [1..<1 + 400]"]
      wrr.balanced_zero [OF ok(2)]
    by (simp add: next_uris_def new pool(1) numeral_2_eq_2)
  have sel: "selects (?uri 0) ''http://b1:3000''" "\<not> selects (?uri 1) ''http://b1:3000''"
    unfolding pool(3,4) by (rule selects_b1)+
  have "int (count_list ?picks 0) = 300" "int (count_list ?picks 1) = 100"
    using wrr.exact_shares [OF ok(2), of 0 100] wrr.exact_shares [OF ok(2), of 1 100]
    by (simp_all add: numeral_2_eq_2)
  then have "count_list ?picks 0 = 300" "count_list ?picks 1 = 100" by linarith+
  then show ?thesis
    using length_filter_picks [of ?picks "\<lambda>u. selects u ''http://b1:3000''" ?uri, OF two sel]
    by (simp add: weighted_distribution_respects_weights_def test_setup uris [unfolded One_nat_def] Let_def comp_def)
qed

section \<open>The suites\<close>

definition upstream_suite :: "(nat \<Rightarrow> instant) \<Rightarrow> bool" where
  "upstream_suite clk \<longleftrightarrow>
     new_upstream_starts_healthy clk
   \<and> record_success_resets_failures clk
   \<and> record_success_requires_threshold_for_recovery clk
   \<and> failure_resets_consecutive_successes clk
   \<and> record_failure_marks_unhealthy_at_threshold clk
   \<and> record_failure_beyond_threshold_does_not_retrigger clk
   \<and> ejected_backend_is_not_eligible_during_cooldown clk
   \<and> promotion_clears_cooldown clk
   \<and> ejected_backend_becomes_trial_ready_after_cooldown (sleep_clock 3)"

definition balancer_suite :: "(nat \<Rightarrow> instant) \<Rightarrow> bool" where
  "balancer_suite clk \<longleftrightarrow>
     single_backend_always_selected clk
   \<and> equal_weight_round_robins clk
   \<and> weighted_distribution_respects_weights clk
   \<and> skips_unhealthy_backends clk
   \<and> all_unhealthy_returns_error clk
   \<and> recovery_after_mark_healthy clk
   \<and> large_weight_does_not_allocate_slot_table clk
   \<and> ejected_backend_recovers_after_cooldown (sleep_clock 3)"

lemma upstream_suite_passes: "quick_clock clk \<Longrightarrow> upstream_suite clk"
  by (simp add: upstream_suite_def upstream_tests_pass ejected_backend_is_not_eligible_during_cooldown_passes
      ejected_backend_becomes_trial_ready_after_cooldown_passes)

lemma balancer_suite_passes: "quick_clock clk \<Longrightarrow> balancer_suite clk"
  by (simp add: balancer_suite_def single_backend_tests_pass equal_weight_round_robins_passes
      weighted_distribution_respects_weights_passes skips_unhealthy_backends_passes
      all_unhealthy_returns_error_passes recovery_after_mark_healthy_passes
      ejected_backend_recovers_after_cooldown_passes)

end
