(* ===== verification/Unit_Tests_Config.thy ===== *)
theory Unit_Tests_Config
  imports Unit_Tests_Pool Config_Load
begin

text \<open>
  The unit tests of \<open>config.rs\<close>, replayed on the model: what \<open>into_runtime\<close> rejects, the values
  it fills in, and the examples of masking. \<open>Config { .. }\<close> is an update of the default
  configuration. \<open>example_config\<close> is what \<open>config.example.toml\<close> says; that the TOML parser reads
  it so is a hypothesis of the test that loads it.
\<close>

abbreviation test_runtime :: "config \<Rightarrow> (proxy_error, (ref_uri, string) runtime_config) result" where
  "test_runtime \<equiv> into_runtime ref_uris ref_headers ref_regex"

definition single_upstream :: "string \<Rightarrow> upstream_config list" where
  "single_upstream addr = [\<lparr>uc_address = addr, uc_weight = 1\<rparr>]"

definition example_config :: config where
  "example_config = default_config
     \<lparr>cfg_listen := Some ''127.0.0.1:8100'',
      cfg_blocked_headers := [''X-Debug-Token'', ''X-Internal-Auth''],
      cfg_blocked_params := [''access_token'', ''secret_key''],
      cfg_masked_params := [''password'', ''ssn'', ''credit_card''],
      cfg_max_body_size := Some 10485760, cfg_mask_max_body_size := Some 1048576,
      cfg_strip_response_headers := [''server'', ''x-powered-by''],
      cfg_trust_forwarded_headers := False,
      cfg_max_concurrent_requests := Some 1000, cfg_max_connections := Some 10000,
      cfg_header_read_timeout := Some 10,
      cfg_upstreams := [\<lparr>uc_address = ''http://localhost:3000'', uc_weight = 1\<rparr>],
      cfg_timeouts := \<lparr>to_connect = 5, to_request = 30\<rparr>,
      cfg_pool := \<lparr>po_idle_timeout = 60, po_max_idle_per_host = 32\<rparr>,
      cfg_rate_limit := Some \<lparr>rl_requests_per_second = 100, rl_burst = 50\<rparr>\<rparr>"

definition loads_config_from_file ::
  "(string \<Rightarrow> string + string) \<Rightarrow> (string \<Rightarrow> string + config) \<Rightarrow> bool" where
  "loads_config_from_file read toml \<longleftrightarrow>
     (case load_from_file read toml ''./config.example.toml'' of Inl _ \<Rightarrow> False
      | Inr config \<Rightarrow>
          cfg_listen config = Some ''127.0.0.1:8100''
        \<and> length (cfg_upstreams config) = 1
        \<and> uc_address (cfg_upstreams config ! 0) = ''http://localhost:3000''
        \<and> cfg_blocked_headers config = [''X-Debug-Token'', ''X-Internal-Auth'']
        \<and> cfg_blocked_params config = [''access_token'', ''secret_key'']
        \<and> cfg_masked_params config = [''password'', ''ssn'', ''credit_card'']
        \<and> to_connect (cfg_timeouts config) = 5 \<and> to_request (cfg_timeouts config) = 30
        \<and> po_idle_timeout (cfg_pool config) = 60 \<and> po_max_idle_per_host (cfg_pool config) = 32
        \<and> cfg_max_concurrent_requests config = Some 1000
        \<and> cfg_rate_limit config = Some \<lparr>rl_requests_per_second = 100, rl_burst = 50\<rparr>)"

definition into_runtime_rejects_empty_upstreams :: bool where
  "into_runtime_rejects_empty_upstreams \<longleftrightarrow>
     is_err (test_runtime default_config)"

definition into_runtime_rejects_malformed_upstream :: bool where
  "into_runtime_rejects_malformed_upstream \<longleftrightarrow>
     is_err (test_runtime (default_config\<lparr>cfg_upstreams := [\<lparr>uc_address = ''not a valid uri %%'', uc_weight = 1\<rparr>]\<rparr>))"

definition into_runtime_lowercases_blocked_headers :: bool where
  "into_runtime_lowercases_blocked_headers \<longleftrightarrow>
     passes (and_then (test_runtime (default_config\<lparr>cfg_upstreams := single_upstream ''http://localhost:3000'',
       cfg_blocked_headers := [''X-Custom-Header'']\<rparr>)) (\<lambda>rt.
     Inr (rt_blocked_headers rt = [''x-custom-header''])))"

definition into_runtime_rejects_invalid_blocked_header_name :: bool where
  "into_runtime_rejects_invalid_blocked_header_name \<longleftrightarrow>
     is_err (test_runtime (default_config\<lparr>cfg_upstreams := single_upstream ''http://localhost:3000'',
       cfg_blocked_headers := [''invalid header'']\<rparr>))"

definition into_runtime_rejects_duplicate_upstreams :: bool where
  "into_runtime_rejects_duplicate_upstreams \<longleftrightarrow>
     is_err (test_runtime (default_config\<lparr>cfg_upstreams := [\<lparr>uc_address = ''http://backend:3000'', uc_weight = 1\<rparr>,
       \<lparr>uc_address = ''http://backend:3000'', uc_weight = 2\<rparr>]\<rparr>))"

definition into_runtime_rejects_zero_max_concurrent_requests :: bool where
  "into_runtime_rejects_zero_max_concurrent_requests \<longleftrightarrow>
     is_err (test_runtime (default_config\<lparr>cfg_upstreams := single_upstream ''http://localhost:3000'',
       cfg_max_concurrent_requests := Some 0\<rparr>))"

definition into_runtime_rejects_zero_max_connections :: bool where
  "into_runtime_rejects_zero_max_connections \<longleftrightarrow>
     is_err (test_runtime (default_config\<lparr>cfg_upstreams := single_upstream ''http://localhost:3000'',
       cfg_max_connections := Some 0\<rparr>))"

definition into_runtime_rejects_zero_header_read_timeout :: bool where
  "into_runtime_rejects_zero_header_read_timeout \<longleftrightarrow>
     is_err (test_runtime (default_config\<lparr>cfg_upstreams := single_upstream ''http://localhost:3000'',
       cfg_header_read_timeout := Some 0\<rparr>))"

definition into_runtime_rejects_zero_mask_max_body_size :: bool where
  "into_runtime_rejects_zero_mask_max_body_size \<longleftrightarrow>
     is_err (test_runtime (default_config\<lparr>cfg_upstreams := single_upstream ''http://localhost:3000'',
       cfg_mask_max_body_size := Some 0\<rparr>))"

definition into_runtime_applies_resource_limit_defaults :: bool where
  "into_runtime_applies_resource_limit_defaults \<longleftrightarrow>
     passes (and_then (test_runtime (default_config\<lparr>cfg_upstreams := single_upstream ''http://localhost:3000''\<rparr>)) (\<lambda>rt.
     Inr (rt_max_connections rt = DEFAULT_MAX_CONNECTIONS
        \<and> rt_header_read_timeout rt = DEFAULT_HEADER_READ_TIMEOUT
        \<and> rt_mask_max_body_size rt = DEFAULT_MASK_MAX_BODY_SIZE)))"

definition into_runtime_rejects_zero_rate_limit_rps :: bool where
  "into_runtime_rejects_zero_rate_limit_rps \<longleftrightarrow>
     is_err (test_runtime (default_config\<lparr>cfg_upstreams := single_upstream ''http://localhost:3000'',
       cfg_rate_limit := Some \<lparr>rl_requests_per_second = 0, rl_burst = 50\<rparr>\<rparr>))"

definition into_runtime_rejects_zero_rate_limit_burst :: bool where
  "into_runtime_rejects_zero_rate_limit_burst \<longleftrightarrow>
     is_err (test_runtime (default_config\<lparr>cfg_upstreams := single_upstream ''http://localhost:3000'',
       cfg_rate_limit := Some \<lparr>rl_requests_per_second = 100, rl_burst = 0\<rparr>\<rparr>))"

definition into_runtime_rejects_zero_health_thresholds :: bool where
  "into_runtime_rejects_zero_health_thresholds \<longleftrightarrow>
     is_err (test_runtime (default_config\<lparr>cfg_upstreams := single_upstream ''http://localhost:3000'',
       cfg_health_check := Some (default_health_check_config\<lparr>hc_unhealthy_threshold := 0\<rparr>)\<rparr>))
   \<and> is_err (test_runtime (default_config\<lparr>cfg_upstreams := single_upstream ''http://localhost:3000'',
       cfg_health_check := Some (default_health_check_config\<lparr>hc_healthy_threshold := 0\<rparr>)\<rparr>))"

definition into_runtime_rejects_health_path_without_leading_slash :: bool where
  "into_runtime_rejects_health_path_without_leading_slash \<longleftrightarrow>
     is_err (test_runtime (default_config\<lparr>cfg_upstreams := single_upstream ''http://localhost:3000'',
       cfg_health_check := Some (default_health_check_config\<lparr>hc_path := ''health''\<rparr>)\<rparr>))"

definition into_runtime_rejects_zero_health_interval :: bool where
  "into_runtime_rejects_zero_health_interval \<longleftrightarrow>
     is_err (test_runtime (default_config\<lparr>cfg_upstreams := single_upstream ''http://localhost:3000'',
       cfg_health_check := Some (default_health_check_config\<lparr>hc_interval := 0\<rparr>)\<rparr>))"

definition into_runtime_rejects_zero_health_timeout :: bool where
  "into_runtime_rejects_zero_health_timeout \<longleftrightarrow>
     is_err (test_runtime (default_config\<lparr>cfg_upstreams := single_upstream ''http://localhost:3000'',
       cfg_health_check := Some (default_health_check_config\<lparr>hc_timeout := 0\<rparr>)\<rparr>))"

definition into_runtime_rejects_zero_connect_timeout :: bool where
  "into_runtime_rejects_zero_connect_timeout \<longleftrightarrow>
     is_err (test_runtime (default_config\<lparr>cfg_upstreams := single_upstream ''http://localhost:3000'',
       cfg_timeouts := \<lparr>to_connect = 0, to_request = 30\<rparr>\<rparr>))"

definition into_runtime_rejects_zero_request_timeout :: bool where
  "into_runtime_rejects_zero_request_timeout \<longleftrightarrow>
     is_err (test_runtime (default_config\<lparr>cfg_upstreams := single_upstream ''http://localhost:3000'',
       cfg_timeouts := \<lparr>to_connect = 5, to_request = 0\<rparr>\<rparr>))"

definition into_runtime_validates_upstreams :: bool where
  "into_runtime_validates_upstreams \<longleftrightarrow>
     passes (and_then (test_runtime (default_config\<lparr>cfg_upstreams := single_upstream ''http://localhost:3000''\<rparr>)) (\<lambda>rt.
     and_then (map_err Config (uri_parse ref_uris ''http://localhost:3000'')) (\<lambda>uri.
     Inr (length (rt_upstreams rt) = 1 \<and> uri_eq ref_uris (vu_uri (rt_upstreams rt ! 0)) uri
        \<and> vu_weight (rt_upstreams rt ! 0) = 1))))"

definition into_runtime_handles_multiple_upstreams :: bool where
  "into_runtime_handles_multiple_upstreams \<longleftrightarrow>
     passes (and_then (test_runtime (default_config\<lparr>cfg_upstreams := [\<lparr>uc_address = ''http://backend1:3000'', uc_weight = 3\<rparr>,
       \<lparr>uc_address = ''http://backend2:3000'', uc_weight = 1\<rparr>]\<rparr>)) (\<lambda>rt.
     and_then (map_err Config (uri_parse ref_uris ''http://backend1:3000'')) (\<lambda>uri.
     Inr (length (rt_upstreams rt) = 2 \<and> uri_eq ref_uris (vu_uri (rt_upstreams rt ! 0)) uri
        \<and> vu_weight (rt_upstreams rt ! 0) = 3 \<and> vu_weight (rt_upstreams rt ! 1) = 1))))"

definition into_runtime_rejects_zero_weight :: bool where
  "into_runtime_rejects_zero_weight \<longleftrightarrow>
     is_err (test_runtime (default_config\<lparr>cfg_upstreams := [\<lparr>uc_address = ''http://localhost:3000'', uc_weight = 0\<rparr>]\<rparr>))"

definition has_https_upstream_detects_scheme :: bool where
  "has_https_upstream_detects_scheme \<longleftrightarrow>
     passes (and_then (test_runtime (default_config\<lparr>cfg_upstreams := [\<lparr>uc_address = ''http://backend1:3000'', uc_weight = 1\<rparr>,
       \<lparr>uc_address = ''https://backend2:3000'', uc_weight = 1\<rparr>]\<rparr>)) (\<lambda>rt.
     Inr (has_https_upstream ref_uris rt)))"

definition mask_sensitive_data_replaces_values :: bool where
  "mask_sensitive_data_replaces_values \<longleftrightarrow>
     passes (and_then (test_runtime (default_config\<lparr>cfg_upstreams := single_upstream ''http://localhost:3000'',
       cfg_masked_params := [''password'', ''token'']\<rparr>)) (\<lambda>rt.
     Inr (mask_sensitive_data ref_regex rt ''username=john&password=secret&token=1234567890''
        = ''username=john&password=****&token=****'')))"

definition mask_sensitive_data_leaves_unmatched_text_intact :: bool where
  "mask_sensitive_data_leaves_unmatched_text_intact \<longleftrightarrow>
     passes (and_then (test_runtime (default_config\<lparr>cfg_upstreams := single_upstream ''http://localhost:3000'',
       cfg_masked_params := [''password'']\<rparr>)) (\<lambda>rt.
     Inr (mask_sensitive_data ref_regex rt ''username=john&role=admin'' = ''username=john&role=admin'')))"

definition mask_handles_regex_special_characters_in_param_name :: bool where
  "mask_handles_regex_special_characters_in_param_name \<longleftrightarrow>
     passes (and_then (test_runtime (default_config\<lparr>cfg_upstreams := single_upstream ''http://localhost:3000'',
       cfg_masked_params := [''user.password'']\<rparr>)) (\<lambda>rt.
     Inr (mask_sensitive_data ref_regex rt ''user.password=secret123&other=value''
        = ''user.password=****&other=value'')))"

definition into_runtime_defaults_listen_address :: bool where
  "into_runtime_defaults_listen_address \<longleftrightarrow>
     passes (and_then (test_runtime (default_config\<lparr>cfg_upstreams := single_upstream ''http://localhost:3000''\<rparr>)) (\<lambda>rt.
     and_then (map_err Config (parse_socket_addr DEFAULT_LISTEN_ADDR)) (\<lambda>addr.
     Inr (rt_listen rt = addr))))"

definition into_runtime_parses_custom_listen_address :: bool where
  "into_runtime_parses_custom_listen_address \<longleftrightarrow>
     passes (and_then (test_runtime (default_config\<lparr>cfg_upstreams := single_upstream ''http://localhost:3000'',
       cfg_listen := Some ''0.0.0.0:9090''\<rparr>)) (\<lambda>rt.
     and_then (map_err Config (parse_socket_addr ''0.0.0.0:9090'')) (\<lambda>addr.
     Inr (rt_listen rt = addr))))"

definition into_runtime_rejects_invalid_listen_address :: bool where
  "into_runtime_rejects_invalid_listen_address \<longleftrightarrow>
     is_err (test_runtime (default_config\<lparr>cfg_upstreams := single_upstream ''http://localhost:3000'',
       cfg_listen := Some ''not-an-address''\<rparr>))"

definition into_runtime_parses_admin_listen_when_configured :: bool where
  "into_runtime_parses_admin_listen_when_configured \<longleftrightarrow>
     passes (and_then (test_runtime (default_config\<lparr>cfg_upstreams := single_upstream ''http://localhost:3000'',
       cfg_admin := Some \<lparr>ad_listen = ''127.0.0.1:9090''\<rparr>\<rparr>)) (\<lambda>rt.
     and_then (map_err Config (parse_socket_addr ''127.0.0.1:9090'')) (\<lambda>addr.
     Inr (rt_admin_listen rt = Some addr))))"

definition into_runtime_disables_admin_by_default :: bool where
  "into_runtime_disables_admin_by_default \<longleftrightarrow>
     passes (and_then (test_runtime (default_config\<lparr>cfg_upstreams := single_upstream ''http://localhost:3000''\<rparr>)) (\<lambda>rt.
     Inr (rt_admin_listen rt = None)))"

definition into_runtime_rejects_admin_listen_sharing_data_plane_address :: bool where
  "into_runtime_rejects_admin_listen_sharing_data_plane_address \<longleftrightarrow>
     is_err (test_runtime (default_config\<lparr>cfg_upstreams := single_upstream ''http://localhost:3000'',
       cfg_listen := Some ''127.0.0.1:8100'', cfg_admin := Some \<lparr>ad_listen = ''127.0.0.1:8100''\<rparr>\<rparr>))"

definition into_runtime_rejects_invalid_admin_listen :: bool where
  "into_runtime_rejects_invalid_admin_listen \<longleftrightarrow>
     is_err (test_runtime (default_config\<lparr>cfg_upstreams := single_upstream ''http://localhost:3000'',
       cfg_admin := Some \<lparr>ad_listen = ''not-an-address''\<rparr>\<rparr>))"

definition health_check_config_uses_defaults :: bool where
  "health_check_config_uses_defaults \<longleftrightarrow>
     passes (and_then (test_runtime (default_config\<lparr>cfg_upstreams := single_upstream ''http://localhost:3000'',
       cfg_health_check := Some default_health_check_config\<rparr>)) (\<lambda>rt.
     Inr (rt_failure_threshold rt = DEFAULT_FAILURE_THRESHOLD
        \<and> rt_healthy_threshold rt = DEFAULT_HEALTHY_THRESHOLD
        \<and> rt_health_check_cooldown rt = DEFAULT_HEALTH_CHECK_COOLDOWN
        \<and> (case rt_health_check rt of None \<Rightarrow> False
           | Some hc \<Rightarrow> unat (hc_cooldown hc) = as_secs DEFAULT_HEALTH_CHECK_COOLDOWN
               \<and> unat (hc_timeout hc) = as_secs DEFAULT_HEALTH_CHECK_TIMEOUT))))"

definition timeouts_config_uses_defaults :: bool where
  "timeouts_config_uses_defaults \<longleftrightarrow>
     passes (and_then (test_runtime (default_config\<lparr>cfg_upstreams := single_upstream ''http://localhost:3000''\<rparr>)) (\<lambda>rt.
     Inr (rt_connect_timeout rt = DEFAULT_CONNECT_TIMEOUT
        \<and> rt_request_timeout rt = DEFAULT_REQUEST_TIMEOUT
        \<and> rt_pool_idle_timeout rt = DEFAULT_POOL_IDLE_TIMEOUT
        \<and> rt_pool_max_idle_per_host rt = DEFAULT_POOL_MAX_IDLE_PER_HOST)))"

definition custom_timeouts_propagate :: bool where
  "custom_timeouts_propagate \<longleftrightarrow>
     passes (and_then (test_runtime (default_config\<lparr>cfg_upstreams := single_upstream ''http://localhost:3000'',
       cfg_timeouts := \<lparr>to_connect = 2, to_request = 10\<rparr>,
       cfg_pool := \<lparr>po_idle_timeout = 90, po_max_idle_per_host = 16\<rparr>\<rparr>)) (\<lambda>rt.
     Inr (rt_connect_timeout rt = from_secs 2 \<and> rt_request_timeout rt = from_secs 10
        \<and> rt_pool_idle_timeout rt = from_secs 90 \<and> rt_pool_max_idle_per_host rt = 16)))"

definition shutdown_timeout_defaults :: bool where
  "shutdown_timeout_defaults \<longleftrightarrow>
     passes (and_then (test_runtime (default_config\<lparr>cfg_upstreams := single_upstream ''http://localhost:3000''\<rparr>)) (\<lambda>rt.
     Inr (rt_shutdown_timeout rt = DEFAULT_SHUTDOWN_TIMEOUT)))"

definition custom_shutdown_timeout :: bool where
  "custom_shutdown_timeout \<longleftrightarrow>
     passes (and_then (test_runtime (default_config\<lparr>cfg_upstreams := single_upstream ''http://localhost:3000'',
       cfg_shutdown_timeout := Some 10\<rparr>)) (\<lambda>rt.
     Inr (rt_shutdown_timeout rt = from_secs 10)))"

definition healthy_threshold_propagates :: bool where
  "healthy_threshold_propagates \<longleftrightarrow>
     passes (and_then (test_runtime (default_config\<lparr>cfg_upstreams := single_upstream ''http://localhost:3000'',
       cfg_health_check := Some (default_health_check_config\<lparr>hc_healthy_threshold := 5\<rparr>)\<rparr>)) (\<lambda>rt.
     Inr (rt_healthy_threshold rt = 5)))"

section \<open>The tests pass\<close>

abbreviation http_uri :: "string \<Rightarrow> ref_uri" where
  "http_uri authority \<equiv> \<lparr>ru_scheme = Some ''http'', ru_authority = Some authority, ru_pq = Some ''/''\<rparr>"

lemma parsed_uris:
  "uri_parse ref_uris ''http://localhost:3000'' = Inr (http_uri ''localhost:3000'')"
  "uri_parse ref_uris ''http://backend:3000'' = Inr (http_uri ''backend:3000'')"
  "uri_parse ref_uris ''http://backend1:3000'' = Inr (http_uri ''backend1:3000'')"
  "uri_parse ref_uris ''http://backend2:3000'' = Inr (http_uri ''backend2:3000'')"
  "uri_parse ref_uris ''https://backend2:3000'' =
     Inr \<lparr>ru_scheme = Some ''https'', ru_authority = Some ''backend2:3000'', ru_pq = Some ''/''\<rparr>"
  "uri_parse ref_uris ''not a valid uri %%'' = Inl ''invalid uri character''"
  by code_simp+

lemma parsed_addrs:
  "parse_socket_addr ''127.0.0.1:8100'' = Inr (SocketV4 (V4 127 0 0 1) 8100)"
  "parse_socket_addr ''127.0.0.1:9090'' = Inr (SocketV4 (V4 127 0 0 1) 9090)"
  "parse_socket_addr ''0.0.0.0:9090'' = Inr (SocketV4 (V4 0 0 0 0) 9090)"
  "parse_socket_addr ''not-an-address'' = Inl addr_parse_error"
  by code_simp+

lemma parsed_names:
  "hn_from_bytes ref_headers ''X-Custom-Header'' = Inr ''x-custom-header''"
  "hn_from_bytes ref_headers ''invalid header'' = Inl ''invalid HTTP header name''"
  by code_simp+

lemma compiled_masks:
  "compile_mask_rule ref_regex ''password'' = Inr \<lparr>mr_param = ''password'', mr_pattern = ''password''\<rparr>"
  "compile_mask_rule ref_regex ''token'' = Inr \<lparr>mr_param = ''token'', mr_pattern = ''token''\<rparr>"
  "compile_mask_rule ref_regex ''user.password'' = Inr \<lparr>mr_param = ''user.password'', mr_pattern = ''user.password''\<rparr>"
  by code_simp+

lemma ref_uri_parts: "uri_authority ref_uris = ru_authority" "uri_scheme ref_uris = ru_scheme" "uri_eq ref_uris = (=)"
  by (simp_all add: ref_uris_def)

lemmas default_values = DEFAULT_MAX_BODY_SIZE_def DEFAULT_MASK_MAX_BODY_SIZE_def DEFAULT_CONNECT_TIMEOUT_def
  DEFAULT_REQUEST_TIMEOUT_def DEFAULT_POOL_IDLE_TIMEOUT_def DEFAULT_POOL_MAX_IDLE_PER_HOST_def
  DEFAULT_MAX_CONCURRENT_REQUESTS_def DEFAULT_MAX_CONNECTIONS_def DEFAULT_HEADER_READ_TIMEOUT_def
  DEFAULT_LISTEN_ADDR_def DEFAULT_FAILURE_THRESHOLD_def DEFAULT_HEALTHY_THRESHOLD_def
  DEFAULT_HEALTH_CHECK_COOLDOWN_def DEFAULT_HEALTH_CHECK_INTERVAL_def DEFAULT_HEALTH_CHECK_PATH_def
  DEFAULT_HEALTH_CHECK_TIMEOUT_def DEFAULT_SHUTDOWN_TIMEOUT_def
  default_config_def default_timeouts_config_def default_connect_timeout_secs_def default_request_timeout_secs_def
  default_pool_config_def default_pool_idle_timeout_secs_def default_pool_max_idle_per_host_def
  default_health_check_config_def default_health_path_def default_health_interval_secs_def
  default_failure_threshold_def default_healthy_threshold_def default_cooldown_secs_def
  default_health_timeout_secs_def from_secs_def as_secs_def

lemmas config_tests = passes_def is_err_def single_upstream_def into_runtime_def parse_listen_def
  validate_upstreams_def validate_upstream_def parse_blocked_headers_def check_rate_limit_def
  check_health_check_def parse_admin_def unwrap_or_def parsed_uris parsed_addrs parsed_names
  compiled_masks ref_uri_parts default_values Let_def

text \<open>Every invalid configuration is rejected.\<close>

lemma rejection_tests_pass:
  "into_runtime_rejects_empty_upstreams"
  "into_runtime_rejects_malformed_upstream"
  "into_runtime_rejects_invalid_blocked_header_name"
  "into_runtime_rejects_duplicate_upstreams"
  "into_runtime_rejects_zero_max_concurrent_requests"
  "into_runtime_rejects_zero_max_connections"
  "into_runtime_rejects_zero_header_read_timeout"
  "into_runtime_rejects_zero_mask_max_body_size"
  "into_runtime_rejects_zero_rate_limit_rps"
  "into_runtime_rejects_zero_rate_limit_burst"
  "into_runtime_rejects_zero_health_thresholds"
  "into_runtime_rejects_health_path_without_leading_slash"
  "into_runtime_rejects_zero_health_interval"
  "into_runtime_rejects_zero_health_timeout"
  "into_runtime_rejects_zero_connect_timeout"
  "into_runtime_rejects_zero_request_timeout"
  "into_runtime_rejects_zero_weight"
  "into_runtime_rejects_invalid_listen_address"
  "into_runtime_rejects_admin_listen_sharing_data_plane_address"
  "into_runtime_rejects_invalid_admin_listen"
  by (simp_all add: config_tests
      into_runtime_rejects_empty_upstreams_def
      into_runtime_rejects_malformed_upstream_def
      into_runtime_rejects_invalid_blocked_header_name_def
      into_runtime_rejects_duplicate_upstreams_def
      into_runtime_rejects_zero_max_concurrent_requests_def
      into_runtime_rejects_zero_max_connections_def
      into_runtime_rejects_zero_header_read_timeout_def
      into_runtime_rejects_zero_mask_max_body_size_def
      into_runtime_rejects_zero_rate_limit_rps_def
      into_runtime_rejects_zero_rate_limit_burst_def
      into_runtime_rejects_zero_health_thresholds_def
      into_runtime_rejects_health_path_without_leading_slash_def
      into_runtime_rejects_zero_health_interval_def
      into_runtime_rejects_zero_health_timeout_def
      into_runtime_rejects_zero_connect_timeout_def
      into_runtime_rejects_zero_request_timeout_def
      into_runtime_rejects_zero_weight_def
      into_runtime_rejects_invalid_listen_address_def
      into_runtime_rejects_admin_listen_sharing_data_plane_address_def
      into_runtime_rejects_invalid_admin_listen_def
      cong: and_then_weak_cong)

text \<open>Accepted configurations get the configured or default values.\<close>

lemma acceptance_tests_pass:
  "into_runtime_lowercases_blocked_headers"
  "into_runtime_applies_resource_limit_defaults"
  "into_runtime_validates_upstreams"
  "into_runtime_handles_multiple_upstreams"
  "into_runtime_defaults_listen_address"
  "into_runtime_parses_custom_listen_address"
  "into_runtime_parses_admin_listen_when_configured"
  "into_runtime_disables_admin_by_default"
  "health_check_config_uses_defaults"
  "timeouts_config_uses_defaults"
  "custom_timeouts_propagate"
  "shutdown_timeout_defaults"
  "custom_shutdown_timeout"
  "healthy_threshold_propagates"
  by (simp_all add: config_tests
      into_runtime_lowercases_blocked_headers_def
      into_runtime_applies_resource_limit_defaults_def
      into_runtime_validates_upstreams_def
      into_runtime_handles_multiple_upstreams_def
      into_runtime_defaults_listen_address_def
      into_runtime_parses_custom_listen_address_def
      into_runtime_parses_admin_listen_when_configured_def
      into_runtime_disables_admin_by_default_def
      health_check_config_uses_defaults_def
      timeouts_config_uses_defaults_def
      custom_timeouts_propagate_def
      shutdown_timeout_defaults_def
      custom_shutdown_timeout_def
      healthy_threshold_propagates_def
      cong: and_then_weak_cong)

text \<open>The example file loads as the test expects, and it is a valid configuration.\<close>

lemma loads_config_from_file_passes:
  "read ''./config.example.toml'' = Inr text \<Longrightarrow> toml text = Inr example_config \<Longrightarrow>
   loads_config_from_file read toml"
  by (simp add: loads_config_from_file_def load_from_file_def example_config_def)

lemma example_config_accepted: "is_ok (test_runtime example_config)"
  by code_simp

text \<open>Operations on the accepted configuration.\<close>

lemma has_https_upstream_detects_scheme_passes: "has_https_upstream_detects_scheme"
  by (simp add: config_tests has_https_upstream_detects_scheme_def has_https_upstream_def cong: and_then_weak_cong) code_simp

lemma mask_sensitive_data_replaces_values_passes: "mask_sensitive_data_replaces_values"
  by (simp add: config_tests mask_sensitive_data_replaces_values_def mask_sensitive_data_def cong: and_then_weak_cong) code_simp

lemma mask_sensitive_data_leaves_unmatched_text_intact_passes: "mask_sensitive_data_leaves_unmatched_text_intact"
  by (simp add: config_tests mask_sensitive_data_leaves_unmatched_text_intact_def mask_sensitive_data_def cong: and_then_weak_cong) code_simp

lemma mask_handles_regex_special_characters_in_param_name_passes: "mask_handles_regex_special_characters_in_param_name"
  by (simp add: config_tests mask_handles_regex_special_characters_in_param_name_def mask_sensitive_data_def cong: and_then_weak_cong) code_simp

definition config_suite :: bool where
  "config_suite \<longleftrightarrow>
     into_runtime_rejects_empty_upstreams
   \<and> into_runtime_rejects_malformed_upstream
   \<and> into_runtime_lowercases_blocked_headers
   \<and> into_runtime_rejects_invalid_blocked_header_name
   \<and> into_runtime_rejects_duplicate_upstreams
   \<and> into_runtime_rejects_zero_max_concurrent_requests
   \<and> into_runtime_rejects_zero_max_connections
   \<and> into_runtime_rejects_zero_header_read_timeout
   \<and> into_runtime_rejects_zero_mask_max_body_size
   \<and> into_runtime_applies_resource_limit_defaults
   \<and> into_runtime_rejects_zero_rate_limit_rps
   \<and> into_runtime_rejects_zero_rate_limit_burst
   \<and> into_runtime_rejects_zero_health_thresholds
   \<and> into_runtime_rejects_health_path_without_leading_slash
   \<and> into_runtime_rejects_zero_health_interval
   \<and> into_runtime_rejects_zero_health_timeout
   \<and> into_runtime_rejects_zero_connect_timeout
   \<and> into_runtime_rejects_zero_request_timeout
   \<and> into_runtime_validates_upstreams
   \<and> into_runtime_handles_multiple_upstreams
   \<and> into_runtime_rejects_zero_weight
   \<and> has_https_upstream_detects_scheme
   \<and> mask_sensitive_data_replaces_values
   \<and> mask_sensitive_data_leaves_unmatched_text_intact
   \<and> mask_handles_regex_special_characters_in_param_name
   \<and> into_runtime_defaults_listen_address
   \<and> into_runtime_parses_custom_listen_address
   \<and> into_runtime_rejects_invalid_listen_address
   \<and> into_runtime_parses_admin_listen_when_configured
   \<and> into_runtime_disables_admin_by_default
   \<and> into_runtime_rejects_admin_listen_sharing_data_plane_address
   \<and> into_runtime_rejects_invalid_admin_listen
   \<and> health_check_config_uses_defaults
   \<and> timeouts_config_uses_defaults
   \<and> custom_timeouts_propagate
   \<and> shutdown_timeout_defaults
   \<and> custom_shutdown_timeout
   \<and> healthy_threshold_propagates"

lemma config_suite_passes: "config_suite"
  by (simp add: config_suite_def rejection_tests_pass acceptance_tests_pass
      has_https_upstream_detects_scheme_passes
      mask_sensitive_data_replaces_values_passes
      mask_sensitive_data_leaves_unmatched_text_intact_passes
      mask_handles_regex_special_characters_in_param_name_passes)

end
