(* ===== verification/Unit_Tests_Http.thy ===== *)
theory Unit_Tests_Http
  imports Unit_Tests_Config Proxy_Correct
begin

text \<open>
  The unit tests of \<open>headers.rs\<close> and \<open>proxy.rs\<close>, replayed on the model.
\<close>

section \<open>Tests of headers.rs\<close>

definition header_map :: "(string \<times> string) list \<Rightarrow> (string, (string \<times> string) list) result" where
  "header_map pairs = foldl (\<lambda>r (name, value).
     case r of Inl e \<Rightarrow> Inl e
     | Inr m \<Rightarrow> (case hn_from_bytes ref_headers name of Inl e \<Rightarrow> Inl e
        | Inr n \<Rightarrow> (case hv_from_str ref_headers value of None \<Rightarrow> Inl ''invalid value''
           | Some v \<Rightarrow> Inr (hm_insert ref_headers m n v)))) (Inr []) pairs"

text \<open>The text of a header after \<open>inject_forwarding_headers\<close> for a client address.\<close>

definition injected ::
  "(string \<times> string) list \<Rightarrow> string \<Rightarrow> bool \<Rightarrow> bool \<Rightarrow> string \<Rightarrow> string \<Rightarrow> bool" where
  "injected h client tls trust name expected \<longleftrightarrow>
     (case parse_socket_addr client of Inl _ \<Rightarrow> False
      | Inr addr \<Rightarrow>
          hdr_text ref_headers (inject_forwarding_headers ref_headers h (sock_ip addr) tls trust) name
            = Some expected)"

definition strips_standard_hop_by_hop_headers :: bool where
  "strips_standard_hop_by_hop_headers \<longleftrightarrow>
     (case header_map [(''connection'', ''keep-alive''), (''keep-alive'', ''timeout=5''), (''transfer-encoding'', ''chunked''), (''x-custom'', ''preserved'')] of Inl _ \<Rightarrow> False | Inr h0 \<Rightarrow>
      (let h = strip_hop_by_hop ref_headers h0 in
        \<not> hm_contains_key ref_headers h ''connection''
        \<and> \<not> hm_contains_key ref_headers h ''keep-alive''
        \<and> \<not> hm_contains_key ref_headers h ''transfer-encoding''
        \<and> hm_contains_key ref_headers h ''x-custom''))"

definition strips_connection_declared_headers :: bool where
  "strips_connection_declared_headers \<longleftrightarrow>
     (case header_map [(''connection'', ''x-secret-internal, x-debug-token''), (''x-secret-internal'', ''leaked''), (''x-debug-token'', ''abc''), (''x-safe'', ''keep'')] of Inl _ \<Rightarrow> False | Inr h0 \<Rightarrow>
      (let h = strip_hop_by_hop ref_headers h0 in
        \<not> hm_contains_key ref_headers h ''x-secret-internal''
        \<and> \<not> hm_contains_key ref_headers h ''x-debug-token''
        \<and> \<not> hm_contains_key ref_headers h ''connection''
        \<and> hm_contains_key ref_headers h ''x-safe''))"

definition injects_xff_with_no_prior_value :: bool where
  "injects_xff_with_no_prior_value \<longleftrightarrow>
     injected [] ''192.168.1.10:5000'' False False ''x-forwarded-for'' ''192.168.1.10''"

definition replaces_existing_xff_when_untrusted :: bool where
  "replaces_existing_xff_when_untrusted \<longleftrightarrow>
     (case header_map [(''x-forwarded-for'', ''10.0.0.1'')] of Inl _ \<Rightarrow> False | Inr h0 \<Rightarrow>
      injected h0 ''192.168.1.10:5000'' False False ''x-forwarded-for'' ''192.168.1.10'')"

definition appends_to_existing_xff_when_trusted :: bool where
  "appends_to_existing_xff_when_trusted \<longleftrightarrow>
     (case header_map [(''x-forwarded-for'', ''10.0.0.1'')] of Inl _ \<Rightarrow> False | Inr h0 \<Rightarrow>
      injected h0 ''192.168.1.10:5000'' False True ''x-forwarded-for'' ''10.0.0.1, 192.168.1.10'')"

definition injects_forwarded_proto_http :: bool where
  "injects_forwarded_proto_http \<longleftrightarrow>
     injected [] ''127.0.0.1:1234'' False False ''x-forwarded-proto'' ''http''"

definition injects_forwarded_proto_https_under_tls :: bool where
  "injects_forwarded_proto_https_under_tls \<longleftrightarrow>
     injected [] ''127.0.0.1:1234'' True False ''x-forwarded-proto'' ''https''"

definition overwrites_spoofed_forwarded_proto_when_untrusted :: bool where
  "overwrites_spoofed_forwarded_proto_when_untrusted \<longleftrightarrow>
     (case header_map [(''x-forwarded-proto'', ''https'')] of Inl _ \<Rightarrow> False | Inr h0 \<Rightarrow>
      injected h0 ''127.0.0.1:1234'' False False ''x-forwarded-proto'' ''http'')"

definition preserves_forwarded_proto_when_trusted :: bool where
  "preserves_forwarded_proto_when_trusted \<longleftrightarrow>
     (case header_map [(''x-forwarded-proto'', ''https'')] of Inl _ \<Rightarrow> False | Inr h0 \<Rightarrow>
      injected h0 ''127.0.0.1:1234'' False True ''x-forwarded-proto'' ''https'')"

definition injects_forwarded_host_from_original :: bool where
  "injects_forwarded_host_from_original \<longleftrightarrow>
     (case header_map [(''host'', ''api.example.com'')] of Inl _ \<Rightarrow> False | Inr h0 \<Rightarrow>
      injected h0 ''127.0.0.1:1234'' False False ''x-forwarded-host'' ''api.example.com'')"

definition no_forwarded_host_when_host_absent :: bool where
  "no_forwarded_host_when_host_absent \<longleftrightarrow>
     (case parse_socket_addr ''127.0.0.1:1234'' of Inl _ \<Rightarrow> False
      | Inr addr \<Rightarrow> \<not> hm_contains_key ref_headers
          (inject_forwarding_headers ref_headers [] (sock_ip addr) False False) ''x-forwarded-host'')"

definition rewrites_host_to_upstream_authority :: bool where
  "rewrites_host_to_upstream_authority \<longleftrightarrow>
     (case header_map [(''host'', ''client-facing.com'')] of Inl _ \<Rightarrow> False | Inr h0 \<Rightarrow>
      hdr_text ref_headers (rewrite_host ref_headers h0 ''backend.internal:3000'') ''host''
        = Some ''backend.internal:3000'')"

definition strips_configured_response_headers :: bool where
  "strips_configured_response_headers \<longleftrightarrow>
     (case header_map [(''server'', ''nginx/1.25''), (''x-powered-by'', ''Express''), (''content-type'', ''text/html'')] of Inl _ \<Rightarrow> False | Inr h0 \<Rightarrow>
      (let h = strip_response_headers ref_headers h0 [''server'', ''x-powered-by''] in
        \<not> hm_contains_key ref_headers h ''server''
        \<and> \<not> hm_contains_key ref_headers h ''x-powered-by''
        \<and> hm_contains_key ref_headers h ''content-type''))"

definition detects_smuggling_attempt :: bool where
  "detects_smuggling_attempt \<longleftrightarrow>
     (case header_map [(''content-length'', ''42''), (''transfer-encoding'', ''chunked'')] of Inl _ \<Rightarrow> False | Inr h0 \<Rightarrow>
      is_smuggling_attempt ref_headers h0)"

definition no_smuggling_with_only_content_length :: bool where
  "no_smuggling_with_only_content_length \<longleftrightarrow>
     (case header_map [(''content-length'', ''42'')] of Inl _ \<Rightarrow> False | Inr h0 \<Rightarrow>
      \<not> is_smuggling_attempt ref_headers h0)"

definition no_smuggling_with_only_transfer_encoding :: bool where
  "no_smuggling_with_only_transfer_encoding \<longleftrightarrow>
     (case header_map [(''transfer-encoding'', ''chunked'')] of Inl _ \<Rightarrow> False | Inr h0 \<Rightarrow>
      \<not> is_smuggling_attempt ref_headers h0)"

definition content_length_within_limit :: bool where
  "content_length_within_limit \<longleftrightarrow>
     (case header_map [(''content-length'', ''1024'')] of Inl _ \<Rightarrow> False | Inr h0 \<Rightarrow>
      \<not> content_length_exceeds ref_headers h0 DEFAULT_MAX_BODY_SIZE)"

definition content_length_exceeds_limit :: bool where
  "content_length_exceeds_limit \<longleftrightarrow>
     (case header_map [(''content-length'', ''20000000'')] of Inl _ \<Rightarrow> False | Inr h0 \<Rightarrow>
      content_length_exceeds ref_headers h0 DEFAULT_MAX_BODY_SIZE)"

definition missing_content_length_does_not_exceed :: bool where
  "missing_content_length_does_not_exceed \<longleftrightarrow>
     \<not> content_length_exceeds ref_headers [] DEFAULT_MAX_BODY_SIZE"

definition unparseable_content_length_does_not_exceed :: bool where
  "unparseable_content_length_does_not_exceed \<longleftrightarrow>
     (case header_map [(''content-length'', ''not-a-number'')] of Inl _ \<Rightarrow> False | Inr h0 \<Rightarrow>
      \<not> content_length_exceeds ref_headers h0 DEFAULT_MAX_BODY_SIZE)"

section \<open>Tests of proxy.rs\<close>

definition parse_uri :: "string \<Rightarrow> (string, ref_uri) result" where
  "parse_uri uri = uri_parse ref_uris uri"

definition rewrite_uri_preserves_path_and_query :: bool where
  "rewrite_uri_preserves_path_and_query \<longleftrightarrow>
     (case (parse_uri ''http://client-facing.com/api/v1?key=val'', parse_uri ''http://localhost:3000'') of
        (Inr original, Inr upstream) \<Rightarrow>
          (case rewrite_uri ref_uris original upstream of Inl _ \<Rightarrow> False
           | Inr result \<Rightarrow> uri_scheme ref_uris result = Some ''http''
               \<and> uri_authority ref_uris result = Some ''localhost:3000''
               \<and> uri_path_and_query ref_uris result = Some ''/api/v1?key=val'')
      | _ \<Rightarrow> False)"

definition rewrite_uri_defaults_to_root_path :: bool where
  "rewrite_uri_defaults_to_root_path \<longleftrightarrow>
     (case (parse_uri ''http://client-facing.com'', parse_uri ''http://localhost:3000'') of
        (Inr original, Inr upstream) \<Rightarrow>
          (case rewrite_uri ref_uris original upstream of Inl _ \<Rightarrow> False
           | Inr result \<Rightarrow> uri_path_and_query ref_uris result = Some ''/'')
      | _ \<Rightarrow> False)"

text \<open>\<open>inspect_request\<close> on a request with the given method, URI and headers, under the
  configuration with the given blocked headers and parameters.\<close>

definition inspected ::
  "string list \<Rightarrow> string list \<Rightarrow> string \<Rightarrow> string \<Rightarrow> (string \<times> string) list
     \<Rightarrow> (proxy_error, unit) result option" where
  "inspected headers params mth uri hs =
     (case (test_runtime (default_config\<lparr>cfg_upstreams := single_upstream ''http://localhost:3000'',
              cfg_blocked_headers := headers, cfg_blocked_params := params\<rparr>),
            parse_uri uri, header_map hs) of
        (Inr rt, Inr u, Inr h) \<Rightarrow>
          Some (inspect_request sample_crates
            \<lparr>rq_method = mth, rq_uri = u, rq_version = HTTP_11, rq_headers = h, rq_body = [] :: string list\<rparr> rt)
      | _ \<Rightarrow> None)"

definition inspect_detects_blocked_header :: bool where
  "inspect_detects_blocked_header \<longleftrightarrow>
     (case inspected [''x-bad-header''] [] ''GET'' ''http://example.com/'' [(''x-bad-header'', ''anything'')] of
        None \<Rightarrow> False | Some r \<Rightarrow> is_err r)"

definition inspect_detects_blocked_param :: bool where
  "inspect_detects_blocked_param \<longleftrightarrow>
     (case inspected [] [''secret_key''] ''GET'' ''http://example.com/?secret_key=abc123'' [] of
        None \<Rightarrow> False | Some r \<Rightarrow> is_err r)"

definition inspect_enforces_blocked_header_on_non_get :: bool where
  "inspect_enforces_blocked_header_on_non_get \<longleftrightarrow>
     (case inspected [''x-bad-header''] [] ''POST'' ''http://example.com/resource'' [(''x-bad-header'', ''anything'')] of
        None \<Rightarrow> False | Some r \<Rightarrow> is_err r)"

definition inspect_blocked_param_requires_exact_key :: bool where
  "inspect_blocked_param_requires_exact_key \<longleftrightarrow>
     (case inspected [] [''secret_key''] ''GET'' ''http://example.com/?my_secret_key=abc123'' [] of
        None \<Rightarrow> False | Some r \<Rightarrow> is_ok r)"

definition inspect_blocked_param_matches_percent_encoded_key :: bool where
  "inspect_blocked_param_matches_percent_encoded_key \<longleftrightarrow>
     (case inspected [] [''secret key''] ''GET'' ''http://example.com/?secret%20key=abc123'' [] of
        None \<Rightarrow> False | Some r \<Rightarrow> is_err r)"

definition inspect_allows_clean_request :: bool where
  "inspect_allows_clean_request \<longleftrightarrow>
     (case inspected [''x-bad-header''] [''secret_key''] ''GET'' ''http://example.com/path?safe=true'' [(''x-good-header'', ''ok'')] of
        None \<Rightarrow> False | Some r \<Rightarrow> is_ok r)"

section \<open>The suites\<close>

definition headers_suite :: bool where
  "headers_suite \<longleftrightarrow>
     strips_standard_hop_by_hop_headers
   \<and> strips_connection_declared_headers
   \<and> injects_xff_with_no_prior_value
   \<and> replaces_existing_xff_when_untrusted
   \<and> appends_to_existing_xff_when_trusted
   \<and> injects_forwarded_proto_http
   \<and> injects_forwarded_proto_https_under_tls
   \<and> overwrites_spoofed_forwarded_proto_when_untrusted
   \<and> preserves_forwarded_proto_when_trusted
   \<and> injects_forwarded_host_from_original
   \<and> no_forwarded_host_when_host_absent
   \<and> rewrites_host_to_upstream_authority
   \<and> strips_configured_response_headers
   \<and> detects_smuggling_attempt
   \<and> no_smuggling_with_only_content_length
   \<and> no_smuggling_with_only_transfer_encoding
   \<and> content_length_within_limit
   \<and> content_length_exceeds_limit
   \<and> missing_content_length_does_not_exceed
   \<and> unparseable_content_length_does_not_exceed"

definition proxy_suite :: bool where
  "proxy_suite \<longleftrightarrow>
     rewrite_uri_preserves_path_and_query
   \<and> rewrite_uri_defaults_to_root_path
   \<and> inspect_detects_blocked_header
   \<and> inspect_detects_blocked_param
   \<and> inspect_enforces_blocked_header_on_non_get
   \<and> inspect_blocked_param_requires_exact_key
   \<and> inspect_blocked_param_matches_percent_encoded_key
   \<and> inspect_allows_clean_request"

lemma headers_suite_passes: "headers_suite"
  by code_simp

lemma proxy_suite_passes: "proxy_suite"
  by code_simp



end
