(* ===== verification/Spec2Isabelle.thy ===== *)
theory Spec2Isabelle
  imports Balancer_Concurrent Serve_Drain Serve_Metrics Unit_Tests_Http
begin

text \<open>
  A verification library for palisade, an HTTP reverse proxy (\<open>src/src/*.rs\<close>).

  \<^bold>\<open>The program.\<close> \<open>main.rs\<close> loads a TOML file (\<open>config.rs\<close>), builds the TLS acceptor
  (\<open>tls.rs\<close>), the backend pool and balancer (\<open>upstream.rs\<close>, \<open>balancer.rs\<close>), the rate limiter
  (\<open>rate_limit.rs\<close>), the metrics (\<open>metrics.rs\<close>) and two semaphores, and runs the accept loop
  (\<open>server.rs\<close>) beside a health checker, a limiter cleanup and an admin listener
  (\<open>admin.rs\<close>). Each request passes through the pipeline of \<open>proxy.rs\<close>, which uses
  \<open>headers.rs\<close>; errors become responses in \<open>error.rs\<close>.

  \<^bold>\<open>The theories\<close>, in dependency order:
  \<^item> \<open>Palisade_Prelude\<close>, \<open>Rust_Std\<close>, \<open>Rust_Net\<close>: machine integers with saturation and wrapping,
    the result type and its combinators, labelled runs and the locales \<open>invariant_machine\<close>,
    \<open>simulation\<close> and \<open>simulated_machine\<close> (invariants carried from an abstract machine to one
    that simulates it), strings, durations, decimal and address parsing of the Rust standard
    library.
  \<^item> \<open>Interleaving\<close>: calls running at once over shared memory, one access per step, and the
    locale \<open>wait_free\<close> of calls that return within a bounded number of their own accesses.
  \<^item> \<open>Http_Api\<close>, \<open>Regex_Api\<close>, \<open>Form_Urlencoded\<close>: the interfaces of the crates \<open>http\<close>, \<open>regex\<close>
    and \<open>form_urlencoded\<close>. Each crate is a record of functions; what the proxy relies on is a
    locale (\<open>header_laws\<close>, \<open>uri_laws\<close>, \<open>regex_laws\<close>), interpreted on a reference instance so
    that the laws are known to be satisfiable and witnesses can be evaluated.
  \<^item> \<open>Config_Types\<close>, \<open>Config_Load\<close>: the schema, its defaults, \<open>Config::into_runtime\<close> with every
    check in source order, and \<open>mask_sensitive_data\<close>. Shown: acceptance is exactly a
    declarative validity predicate, an accepted configuration satisfies what the data plane
    needs, and masking leaves no value (with the one exception found, a dollar sign in a name).
  \<^item> \<open>Upstream\<close>: the health state of a backend, its counters at 32 bits and its cooldown clock at
    64. Shown: refinement of a small Up/Down automaton, the exact thresholds, the spacing of
    half-open trials (locale \<open>trial_gate\<close>).
  \<^item> \<open>Upstream_Concurrent\<close>: the same methods as interleaved accesses to the atomics of one
    backend. Shown: a call alone is the method, concurrent failures are counted and reported
    exactly, an ejected backend at rest has its cooldown window, and a delayed success can undo
    an ejection.
  \<^item> \<open>Balancer\<close>, \<open>Balancer_Fairness\<close>: smooth weighted round-robin with its \<open>i64\<close> arithmetic.
    Shown: what one selection picks, conservation of the weights, exact shares over a period,
    and that no backend is a whole request ahead of its share.
  \<^item> \<open>Balancer_Concurrent\<close>: the same \<open>next\<close> as interleaved atomic accesses of any number of
    calls, with the accesses of health calls in between. Shown: a call alone is the sequential
    one, conservation under every interleaving,
    wait-freedom within \<open>4 n + 3\<close> own steps, and the double half-open trial.
  \<^item> \<open>Proxy_Error\<close>, \<open>Headers\<close>: error responses, and the header operations of the pipeline.
  \<^item> \<open>Rate_Limit\<close>: the limiter over the locale of the governor crate; isolation of clients.
  \<^item> \<open>Proxy\<close>, \<open>Proxy_Correct\<close>, \<open>Proxy_Response\<close>: \<open>handle_request\<close>, split at the upstream call
    into \<open>begin_request\<close> and \<open>complete_request\<close>. Shown: refused requests are not forwarded,
    what is forwarded and what is returned, masking of responses, and who is blamed for failures.
  \<^item> \<open>Metrics\<close>, \<open>Server\<close>, \<open>Health_Check\<close>: the service closure with its permit and metrics, the
    health checker and the limiter cleanup.
  \<^item> \<open>Server_Machine\<close>: the running server as a step relation over accepts, arrivals,
    completions, cancellations, probes, prunings and shutdown, and its invariant.
  \<^item> \<open>Admin\<close>: the admin routes and the loop of \<open>serve_admin\<close>, and that a scrape reports the state
    of the running server.
  \<^item> \<open>Tls_Setup\<close>, \<open>Main_Startup\<close>: arguments, logging settings and startup with every exit and
    panic; it reaches \<open>serve\<close> exactly when it should, in an initial state of \<open>Server_Machine\<close>.
  \<^item> \<open>Server_Lifecycle\<close>: runs from startup to shutdown. Shown: request numbers are not reused,
    and shutdown stops admission and returns every permit.
  \<^item> \<open>Serve_Loop\<close>: \<open>serve\<close> in detail, with a clock: the select loop, the connection tasks in
    their join set from handshake to end, the service closure with its metrics on both sides of
    the upstream call, the history of answers, and the drain with its deadline. Shown: it
    simulates \<open>Server_Machine\<close>, whose invariant therefore holds of it.
  \<^item> \<open>Serve_Drain\<close>, \<open>Serve_Metrics\<close>: properties of that loop. Shown: shutdown accepts nothing,
    aborts nothing before the timeout, can always return and returns with every connection
    permit free; clients that stall in the TLS handshake keep all others out; the counters
    equal the answers given.
  \<^item> \<open>Unit_Tests_Pool\<close>, \<open>Unit_Tests_Config\<close>, \<open>Unit_Tests_Http\<close>: the unit tests of \<open>upstream.rs\<close>,
    \<open>balancer.rs\<close>, \<open>config.rs\<close>, \<open>headers.rs\<close> and \<open>proxy.rs\<close> as boolean functions on the model.
    Shown: every one passes, so the definitions agree with the code where its authors pinned it.

  \<^bold>\<open>Conventions.\<close> Shared state (atomics behind \<open>Arc\<close>) is passed explicitly; a handle to a
  backend is its index in the pool. Clock readings are arguments, so no statement depends on
  when they are taken unless it says so. A panic of \<open>expect\<close> or of \<open>Semaphore::new\<close> is a value
  (None, or a failure). Strings are byte strings. \<open>usize\<close> is 64 bits wide.

  \<^bold>\<open>Bounds.\<close> No fuel is used: every function is total. The balancer theorems ask for fewer than
  \<open>2^31\<close> backends, so that a sum of 32-bit weights stays in \<open>i64\<close>; a semaphore holds at most
  \<open>2^61 - 1\<close> permits, as tokio documents.

  \<^bold>\<open>Granularity.\<close> In \<open>Server_Machine\<close> a selection and a health update are one step each; the two
  concurrent theories take them apart into single accesses, and say which of the sequential
  facts survive. Accesses are sequentially consistent: the orderings of the atomics are not
  modelled. \<open>Server_Machine\<close> knows a connection only by its permit; \<open>Serve_Loop\<close> has the task
  behind it, in which a request may outlive its connection, as an HTTP/2 stream does until it
  notices. In both, a request is one step up to the upstream call and one step after it.

  \<^bold>\<open>Not modelled.\<close> Log messages; clap and TOML parsing (parameters); sockets, the TLS
  handshake, HTTP framing, signal handling and the client connection pool, which are the
  environment that chooses the events and outcomes. Timers belong to it too, except that the
  deadline of the drain cannot fire early. Not modelled either: the bytes of a streamed body
  after the handler has returned, and the integration tests, which run the program over
  sockets.
  \<open>lib.rs\<close> only documents and re-exports.
\<close>

end
